theory Spec2Isabelle
  imports Main
begin

section \<open>The local synchronization engine of seanime (internal/sync/sync.go)\<close>

text \<open>
  The development embeds \<^verbatim>\<open>internal/sync/sync.go\<close>: the two per-entity routines
  \<^verbatim>\<open>synchronizeAnime\<close> and \<^verbatim>\<open>synchronizeManga\<close>, the collection builder
  \<^verbatim>\<open>synchronizeCollections\<close>, the drain check \<^verbatim>\<open>checkAndUpdateLocalCollections\<close> and
  the two worker loops.  Go structs are records, pointers that are only ever read are
  \<open>option\<close> values (\<open>None\<close> is \<^verbatim>\<open>nil\<close>), objects that are written through a pointer
  live in an explicit store, Go maps are partial functions and Go errors are strings.
\<close>

subsection \<open>Data of the anilist package\<close>

typedecl float64

type_synonym addr = nat
type_synonym error = string
type_synonym MediaListStatus = string

record BaseMedia_CoverImage =
  ExtraLarge :: "string option"
  Large :: "string option"
  Medium :: "string option"
  Color :: "string option"

text \<open>
  \<^verbatim>\<open>BaseAnime\<close> and \<^verbatim>\<open>BaseManga\<close> agree on every field the engine touches; one
  record stands for both.  \<open>OtherFields\<close> holds the fields that are only copied
  (titles, format, dates and so on).
\<close>

record BaseMedia =
  ID :: int
  BannerImage :: "string option"
  CoverImage :: "BaseMedia_CoverImage option"
  OtherFields :: string

record FuzzyDate =
  Year :: "int option"
  Month :: "int option"
  Day :: "int option"

text \<open>
  A list entry (\<^verbatim>\<open>AnimeListEntry\<close>, \<^verbatim>\<open>MangaListEntry\<close>).  The parameter \<open>'m\<close> is what
  the \<^verbatim>\<open>Media\<close> field holds: an address of the media store in memory, the media object
  itself in serialized form.
\<close>

record 'm ListEntry =
  EntryID :: int
  Score :: "float64 option"
  Progress :: "int option"
  EntryStatus :: "MediaListStatus option"
  Notes :: "string option"
  Repeat :: "int option"
  Private :: "bool option"
  StartedAt :: "FuzzyDate option"
  CompletedAt :: "FuzzyDate option"
  Media :: "'m option"

record 'm MediaList =
  Status :: "MediaListStatus option"
  Name :: "string option"
  IsCustomList :: "bool option"
  Entries :: "'m ListEntry list"

text \<open>
  A collection in memory holds the slice of list pointers of its
  \<^verbatim>\<open>MediaListCollection\<close>, which may itself be \<^verbatim>\<open>nil\<close>.
\<close>

record Collection =
  MediaListCollection :: "addr list option"

definition GetLists :: "Collection \<Rightarrow> addr list" where
  "GetLists c = (case MediaListCollection c of None \<Rightarrow> [] | Some ls \<Rightarrow> ls)"

subsection \<open>Memory\<close>

text \<open>
  List objects and media objects are reached through pointers and written in place, so
  they live in a store with one region per type.  Addresses below the region's counter
  are allocated; allocation takes the counter's address and advances it.
\<close>

record heap =
  listObjs :: "addr \<Rightarrow> addr MediaList"
  listNext :: addr
  mediaObjs :: "addr \<Rightarrow> BaseMedia"
  mediaNext :: addr

definition newList :: "addr MediaList \<Rightarrow> heap \<Rightarrow> addr \<times> heap" where
  "newList l h = (listNext h, h\<lparr>listObjs := (listObjs h)(listNext h := l), listNext := Suc (listNext h)\<rparr>)"

definition newMedia :: "BaseMedia \<Rightarrow> heap \<Rightarrow> addr \<times> heap" where
  "newMedia m h = (mediaNext h, h\<lparr>mediaObjs := (mediaObjs h)(mediaNext h := m), mediaNext := Suc (mediaNext h)\<rparr>)"

text \<open>\<^verbatim>\<open>entry.GetMedia().GetID()\<close>: the generated getters answer 0 for a \<^verbatim>\<open>nil\<close> media.\<close>

definition GetMediaID :: "heap \<Rightarrow> addr ListEntry \<Rightarrow> int" where
  "GetMediaID h e = (case Media e of None \<Rightarrow> 0 | Some p \<Rightarrow> ID (mediaObjs h p))"

subsection \<open>Data of the sync package\<close>

datatype media_kind = AnimeType | MangaType

record TrackedMedia =
  TrackedMediaId :: int
  TrackedType :: media_kind

record LocalFile =
  Path :: string
  LocalFileMediaId :: int

record ChapterContainer =
  ContainerMediaId :: int
  Provider :: string
  Chapters :: "string list"

record EpisodeMetadata =
  Image :: string
  EpisodeTitle :: string

record AnimeMetadata =
  Episodes :: "string \<rightharpoonup> EpisodeMetadata"
  Titles :: "string list"

text \<open>The fields the two snapshot structs share, and the two structs.\<close>

record Snapshot =
  MediaId :: int
  BannerImagePath :: string
  CoverImagePath :: string
  ReferenceKey :: string

record AnimeSnapshot = Snapshot +
  LocalMetadata :: AnimeMetadata
  EpisodeImagePaths :: "string \<rightharpoonup> string"

record MangaSnapshot = Snapshot +
  ChapterContainers :: "ChapterContainer list"

datatype DiffType = DiffTypeUpToDate | DiffTypeMissing | DiffTypeMetadata

record AnimeDiffResult =
  AnimeEntry :: "addr ListEntry option"
  AnimeSnap :: "AnimeSnapshot option"
  AnimeDiffType :: DiffType

record MangaDiffResult =
  MangaEntry :: "addr ListEntry option"
  MangaSnap :: "MangaSnapshot option"
  MangaDiffType :: DiffType

datatype level = ErrorLevel | WarnLevel

text \<open>Calls of the image downloaders, recorded in the order they are made.\<close>

datatype download_call =
    AnimeImagesCall int
  | EpisodeImagesCall int "string \<rightharpoonup> string"
  | MangaImagesCall int

subsection \<open>The state of the Syncer and of its Manager\<close>

text \<open>
  One record holds the fields of \<^verbatim>\<open>Syncer\<close>, the fields of \<^verbatim>\<open>ManagerImpl\<close> that
  sync.go reads and writes (\<^verbatim>\<open>q.manager.\<close>\<open>x\<close>), the contents of the local database
  and of the assets directory, and the memory.  The job queues are the buffered
  channels' contents, \<open>doneUpdatingLocalCollections\<close> the number of signals buffered in
  the channel of capacity 1.  The logger keeps the messages of level error and warn
  (without their formatted arguments).  A stored collection is its serialized form.
\<close>

record Syncer =
  animeJobQueue :: "AnimeDiffResult list"
  mangaJobQueue :: "MangaDiffResult list"
  failedAnimeQueue :: "int \<rightharpoonup> addr ListEntry"
  failedMangaQueue :: "int \<rightharpoonup> addr ListEntry"
  trackedAnimeMap :: "int \<rightharpoonup> TrackedMedia"
  trackedMangaMap :: "int \<rightharpoonup> TrackedMedia"
  shouldUpdateLocalCollections :: bool
  doneUpdatingLocalCollections :: nat
  animeCollection :: "Collection option"
  mangaCollection :: "Collection option"
  localAnimeCollection :: "Collection option"
  localMangaCollection :: "Collection option"
  localFiles :: "LocalFile list"
  downloadedChapterContainers :: "ChapterContainer list"
  logger :: "(level \<times> string) list"
  dbAnimeSnapshots :: "AnimeSnapshot list"
  dbMangaSnapshots :: "MangaSnapshot list"
  dbAnimeCollection :: "BaseMedia MediaList list option"
  dbMangaCollection :: "BaseMedia MediaList list option"
  localAssets :: "(int \<times> string) list"
  imageDownloads :: "download_call list"
  memory :: heap

subsection \<open>Collaborators that are not part of sync.go\<close>

record AnimeImages =
  animeBanner :: string
  animeCover :: string
  animeEpisodePaths :: "string \<rightharpoonup> string"
  animeImagesOk :: bool
  animeFilesWritten :: "string list"

record EpisodeImages =
  episodePaths :: "string \<rightharpoonup> string"
  episodeImagesOk :: bool
  episodeFilesWritten :: "string list"

record MangaImages =
  mangaBanner :: string
  mangaCover :: string
  mangaImagesOk :: bool
  mangaFilesWritten :: "string list"

text \<open>
  What sync.go calls and does not define is a parameter of the model: the network and
  disk outcomes (metadata fetch, image downloads, whether a database call fails) and
  the pure helpers whose source is elsewhere (reference keys, the asset URL format, the
  lookup of a list entry by media ID).
\<close>

record Env =
  GetAnimeMetadata :: "int \<Rightarrow> error + AnimeMetadata"
  DownloadAnimeImages :: "addr ListEntry \<Rightarrow> AnimeMetadata \<Rightarrow> AnimeImages"
  DownloadAnimeEpisodeImages :: "int \<Rightarrow> (string \<rightharpoonup> string) \<Rightarrow> EpisodeImages"
  DownloadMangaImages :: "addr ListEntry \<Rightarrow> MangaImages"
  GetAnimeReferenceKey :: "BaseMedia \<Rightarrow> LocalFile list \<Rightarrow> string"
  GetMangaReferenceKey :: "BaseMedia \<Rightarrow> ChapterContainer list \<Rightarrow> string"
  GetListEntryFromMangaId :: "heap \<Rightarrow> Collection \<Rightarrow> int \<Rightarrow> addr ListEntry option"
  FormatAssetUrl :: "int \<Rightarrow> string \<Rightarrow> string option"
  SaveAnimeSnapshotErr :: "AnimeSnapshot \<Rightarrow> error option"
  SaveMangaSnapshotErr :: "MangaSnapshot \<Rightarrow> error option"
  GetAnimeSnapshotsErr :: "error option"
  GetMangaSnapshotsErr :: "error option"
  SaveAnimeCollectionErr :: "error option"
  SaveMangaCollectionErr :: "error option"

text \<open>
  Modelled from the spec: the Snapshot Store's \<^verbatim>\<open>putAnime(snap)\<close> and
  \<^verbatim>\<open>putManga(snap)\<close>, whose code (\<^verbatim>\<open>localDb.SaveAnimeSnapshot\<close>,
  \<^verbatim>\<open>localDb.SaveMangaSnapshot\<close>) is missing.  The table is keyed by media ID, so a
  save replaces the record of that media or adds one; a save that fails writes nothing.
\<close>

definition putSnapshot :: "'a Snapshot_scheme \<Rightarrow> 'a Snapshot_scheme list \<Rightarrow> 'a Snapshot_scheme list" where
  "putSnapshot s xs =
     (if \<exists>x \<in> set xs. MediaId x = MediaId s
      then map (\<lambda>x. if MediaId x = MediaId s then s else x) xs
      else xs @ [s])"

definition SaveAnimeSnapshot :: "Env \<Rightarrow> AnimeSnapshot \<Rightarrow> Syncer \<Rightarrow> error + Syncer" where
  "SaveAnimeSnapshot env s q =
     (case SaveAnimeSnapshotErr env s of
        Some err \<Rightarrow> Inl err
      | None \<Rightarrow> Inr (q\<lparr>dbAnimeSnapshots := putSnapshot s (dbAnimeSnapshots q)\<rparr>))"

definition SaveMangaSnapshot :: "Env \<Rightarrow> MangaSnapshot \<Rightarrow> Syncer \<Rightarrow> error + Syncer" where
  "SaveMangaSnapshot env s q =
     (case SaveMangaSnapshotErr env s of
        Some err \<Rightarrow> Inl err
      | None \<Rightarrow> Inr (q\<lparr>dbMangaSnapshots := putSnapshot s (dbMangaSnapshots q)\<rparr>))"

text \<open>
  Modelled from the spec: \<^verbatim>\<open>removeAnime(mediaId)\<close> and \<^verbatim>\<open>removeManga(mediaId)\<close> of
  the Manager, whose code is missing: they delete the snapshot of the media and all of
  its assets.  sync.go discards the error they return.
\<close>

definition removeAnime :: "int \<Rightarrow> Syncer \<Rightarrow> Syncer" where
  "removeAnime mid q =
     q\<lparr>dbAnimeSnapshots := filter (\<lambda>s. MediaId s \<noteq> mid) (dbAnimeSnapshots q),
       localAssets := filter (\<lambda>a. fst a \<noteq> mid) (localAssets q)\<rparr>"

definition removeManga :: "int \<Rightarrow> Syncer \<Rightarrow> Syncer" where
  "removeManga mid q =
     q\<lparr>dbMangaSnapshots := filter (\<lambda>s. MediaId s \<noteq> mid) (dbMangaSnapshots q),
       localAssets := filter (\<lambda>a. fst a \<noteq> mid) (localAssets q)\<rparr>"

subsection \<open>The failed queues\<close>

text \<open>
  \<^verbatim>\<open>q.failedAnimeQueue.Set(entry.Media.ID, entry)\<close>.  Every caller has read
  \<^verbatim>\<open>entry.Media.ID\<close> before, so the media is not \<^verbatim>\<open>nil\<close> here.
\<close>

definition sendAnimeToFailedQueue :: "addr ListEntry \<Rightarrow> Syncer \<Rightarrow> Syncer" where
  "sendAnimeToFailedQueue entry q =
     (case Media entry of
        None \<Rightarrow> q
      | Some p \<Rightarrow> q\<lparr>failedAnimeQueue := (failedAnimeQueue q)(ID (mediaObjs (memory q) p) \<mapsto> entry)\<rparr>)"

definition sendMangaToFailedQueue :: "addr ListEntry \<Rightarrow> Syncer \<Rightarrow> Syncer" where
  "sendMangaToFailedQueue entry q =
     (case Media entry of
        None \<Rightarrow> q
      | Some p \<Rightarrow> q\<lparr>failedMangaQueue := (failedMangaQueue q)(ID (mediaObjs (memory q) p) \<mapsto> entry)\<rparr>)"

definition logMsg :: "level \<Rightarrow> string \<Rightarrow> Syncer \<Rightarrow> Syncer" where
  "logMsg lv msg q = q\<lparr>logger := logger q @ [(lv, msg)]\<rparr>"

subsection \<open>synchronizeAnime\<close>

text \<open>\<^verbatim>\<open>lo.Find(q.manager.localFiles, func(f) bool { return f.MediaId == id })\<close>\<close>

definition foundLocalFiles :: "LocalFile list \<Rightarrow> int \<Rightarrow> bool" where
  "foundLocalFiles lfs mid = (find (\<lambda>f. LocalFileMediaId f = mid) lfs \<noteq> None)"

text \<open>The episode image URLs of the fetched metadata, without the empty ones.\<close>

definition currentEpisodeImageUrls :: "AnimeMetadata \<Rightarrow> (string \<rightharpoonup> string)" where
  "currentEpisodeImageUrls md =
     (\<lambda>episodeNum. case Episodes md episodeNum of
        None \<Rightarrow> None
      | Some episode \<Rightarrow> if Image episode = [] then None else Some (Image episode))"

text \<open>Those of them whose episode number is not a key of the snapshot's paths.\<close>

definition episodeImageUrlsToDownload :: "(string \<rightharpoonup> string) \<Rightarrow> (string \<rightharpoonup> string) \<Rightarrow> (string \<rightharpoonup> string)" where
  "episodeImageUrlsToDownload current paths =
     (\<lambda>episodeNum. case current episodeNum of
        None \<Rightarrow> None
      | Some url \<Rightarrow> if paths episodeNum = None then Some url else None)"

text \<open>The snapshot built for a missing one (\<^verbatim>\<open>snapshot := &AnimeSnapshot{...}\<close>).\<close>

definition newAnimeSnapshot :: "Env \<Rightarrow> BaseMedia \<Rightarrow> AnimeMetadata \<Rightarrow> AnimeImages \<Rightarrow> LocalFile list \<Rightarrow> AnimeSnapshot" where
  "newAnimeSnapshot env media animeMetadata r lfs =
     \<lparr>MediaId = ID media,
      BannerImagePath = animeBanner r,
      CoverImagePath = animeCover r,
      ReferenceKey = GetAnimeReferenceKey env media lfs,
      LocalMetadata = animeMetadata,
      EpisodeImagePaths = animeEpisodePaths r\<rparr>"

text \<open>The branch for a missing snapshot (\<^verbatim>\<open>diff.DiffType == DiffTypeMissing\<close>).\<close>

definition syncMissingAnime :: "Env \<Rightarrow> addr ListEntry \<Rightarrow> BaseMedia \<Rightarrow> AnimeMetadata \<Rightarrow> Syncer \<Rightarrow> Syncer" where
  "syncMissingAnime env entry media animeMetadata q =
     (let r = DownloadAnimeImages env entry animeMetadata;
          q1 = q\<lparr>imageDownloads := imageDownloads q @ [AnimeImagesCall (ID media)],
                 localAssets := localAssets q @ map (Pair (ID media)) (animeFilesWritten r)\<rparr>
      in if \<not> animeImagesOk r then sendAnimeToFailedQueue entry q1
         else
           (case SaveAnimeSnapshot env (newAnimeSnapshot env media animeMetadata r (localFiles q)) q1 of
              Inl err \<Rightarrow>
                logMsg ErrorLevel ''sync: Failed to save anime snapshot for anime''
                  (sendAnimeToFailedQueue entry q1)
            | Inr q2 \<Rightarrow> q2))"

text \<open>
  The copy of the prior snapshot with the fresh metadata and reference key
  (\<^verbatim>\<open>snapshot := *diff.AnimeSnapshot\<close> and the two assignments that follow).
\<close>

definition refreshedAnimeSnapshot :: "Env \<Rightarrow> BaseMedia \<Rightarrow> AnimeMetadata \<Rightarrow> LocalFile list \<Rightarrow> AnimeSnapshot \<Rightarrow> AnimeSnapshot" where
  "refreshedAnimeSnapshot env media animeMetadata lfs old =
     old\<lparr>ReferenceKey := GetAnimeReferenceKey env media lfs, LocalMetadata := animeMetadata\<rparr>"

text \<open>
  The branch for outdated metadata (\<^verbatim>\<open>diff.DiffType == DiffTypeMetadata\<close> with a
  snapshot).  The snapshot's map of episode image paths is taken to be allocated.
\<close>

definition syncStaleAnime :: "Env \<Rightarrow> addr ListEntry \<Rightarrow> BaseMedia \<Rightarrow> AnimeMetadata \<Rightarrow> AnimeSnapshot \<Rightarrow> Syncer \<Rightarrow> Syncer" where
  "syncStaleAnime env entry media animeMetadata old q =
     (let snapshot = refreshedAnimeSnapshot env media animeMetadata (localFiles q) old;
          toDownload = episodeImageUrlsToDownload (currentEpisodeImageUrls animeMetadata)
                         (EpisodeImagePaths snapshot)
      in if dom toDownload \<noteq> {} then
           (let r = DownloadAnimeEpisodeImages env (ID media) toDownload;
                q1 = q\<lparr>imageDownloads := imageDownloads q @ [EpisodeImagesCall (ID media) toDownload],
                       localAssets := localAssets q @ map (Pair (ID media)) (episodeFilesWritten r)\<rparr>
            in if \<not> episodeImagesOk r then sendAnimeToFailedQueue entry q1
               else
                 (case SaveAnimeSnapshot env
                         (snapshot\<lparr>EpisodeImagePaths := EpisodeImagePaths snapshot ++ episodePaths r\<rparr>) q1 of
                    Inl err \<Rightarrow>
                      logMsg ErrorLevel ''sync: Failed to save anime snapshot for anime''
                        (sendAnimeToFailedQueue entry q1)
                  | Inr q2 \<Rightarrow> q2))
         else
           (case SaveAnimeSnapshot env snapshot q of
              Inl err \<Rightarrow>
                logMsg ErrorLevel ''sync: Failed to save anime snapshot for anime''
                  (sendAnimeToFailedQueue entry q)
            | Inr q2 \<Rightarrow> q2))"

text \<open>
  \<^verbatim>\<open>synchronizeAnime(diff)\<close>.  A \<^verbatim>\<open>nil\<close> media makes \<^verbatim>\<open>entry.Media.ID\<close> panic in the
  first statement after the \<^verbatim>\<open>nil\<close> check of the entry; the deferred handler
  recovers and the routine returns.  The metadata is fetched for the diff types
  missing and metadata, before either branch is entered.
\<close>

definition synchronizeAnime :: "Env \<Rightarrow> AnimeDiffResult \<Rightarrow> Syncer \<Rightarrow> Syncer" where
  "synchronizeAnime env diff q =
     (case AnimeEntry diff of
        None \<Rightarrow> q
      | Some entry \<Rightarrow>
          (case Media entry of
             None \<Rightarrow> q
           | Some p \<Rightarrow>
               (let media = mediaObjs (memory q) p in
                if \<not> foundLocalFiles (localFiles q) (ID media) then
                  removeAnime (ID media)
                    (logMsg WarnLevel ''sync: No local files found for anime, removing from the local database'' q)
                else if AnimeDiffType diff = DiffTypeMissing \<or> AnimeDiffType diff = DiffTypeMetadata then
                  (case GetAnimeMetadata env (ID media) of
                     Inl err \<Rightarrow>
                       logMsg ErrorLevel ''sync: Failed to get metadata for anime''
                         (sendAnimeToFailedQueue entry q)
                   | Inr animeMetadata \<Rightarrow>
                       if AnimeDiffType diff = DiffTypeMissing then
                         syncMissingAnime env entry media animeMetadata q
                       else
                         (case AnimeSnap diff of
                            None \<Rightarrow> q
                          | Some old \<Rightarrow> syncStaleAnime env entry media animeMetadata old q))
                else q)))"

subsection \<open>synchronizeManga\<close>

definition newMangaSnapshot :: "Env \<Rightarrow> BaseMedia \<Rightarrow> MangaImages \<Rightarrow> ChapterContainer list \<Rightarrow> MangaSnapshot" where
  "newMangaSnapshot env media r eContainers =
     \<lparr>MediaId = ID media,
      BannerImagePath = mangaBanner r,
      CoverImagePath = mangaCover r,
      ReferenceKey = GetMangaReferenceKey env media eContainers,
      ChapterContainers = eContainers\<rparr>"

definition syncMissingManga :: "Env \<Rightarrow> addr ListEntry \<Rightarrow> BaseMedia \<Rightarrow> ChapterContainer list \<Rightarrow> Syncer \<Rightarrow> Syncer" where
  "syncMissingManga env entry media eContainers q =
     (let r = DownloadMangaImages env entry;
          q1 = q\<lparr>imageDownloads := imageDownloads q @ [MangaImagesCall (ID media)],
                 localAssets := localAssets q @ map (Pair (ID media)) (mangaFilesWritten r)\<rparr>
      in if \<not> mangaImagesOk r then sendMangaToFailedQueue entry q1
         else
           (case SaveMangaSnapshot env (newMangaSnapshot env media r eContainers) q1 of
              Inl err \<Rightarrow>
                logMsg ErrorLevel ''sync: Failed to save manga snapshot for manga''
                  (sendMangaToFailedQueue entry q1)
            | Inr q2 \<Rightarrow> q2))"

definition refreshedMangaSnapshot :: "Env \<Rightarrow> BaseMedia \<Rightarrow> ChapterContainer list \<Rightarrow> MangaSnapshot \<Rightarrow> MangaSnapshot" where
  "refreshedMangaSnapshot env media eContainers old =
     old\<lparr>ReferenceKey := GetMangaReferenceKey env media eContainers, ChapterContainers := eContainers\<rparr>"

definition syncStaleManga :: "Env \<Rightarrow> addr ListEntry \<Rightarrow> BaseMedia \<Rightarrow> ChapterContainer list \<Rightarrow> MangaSnapshot \<Rightarrow> Syncer \<Rightarrow> Syncer" where
  "syncStaleManga env entry media eContainers old q =
     (case SaveMangaSnapshot env (refreshedMangaSnapshot env media eContainers old) q of
        Inl err \<Rightarrow>
          logMsg ErrorLevel ''sync: Failed to save manga snapshot for manga''
            (sendMangaToFailedQueue entry q)
      | Inr q2 \<Rightarrow> q2)"

text \<open>
  \<^verbatim>\<open>synchronizeManga(diff)\<close>.  Three guards come before the chapter containers are
  looked at: the remote manga collection is present, the manga is found in it, and the
  entry found has a status.
\<close>

definition synchronizeManga :: "Env \<Rightarrow> MangaDiffResult \<Rightarrow> Syncer \<Rightarrow> Syncer" where
  "synchronizeManga env diff q =
     (case MangaEntry diff of
        None \<Rightarrow> q
      | Some entry \<Rightarrow>
          (case Media entry of
             None \<Rightarrow> q
           | Some p \<Rightarrow>
               (let media = mediaObjs (memory q) p in
                case mangaCollection q of
                  None \<Rightarrow> q
                | Some collection \<Rightarrow>
                    (case GetListEntryFromMangaId env (memory q) collection (ID media) of
                       None \<Rightarrow> logMsg ErrorLevel ''sync: Failed to get manga'' q
                     | Some listEntry \<Rightarrow>
                         if EntryStatus listEntry = None then q
                         else
                           (let eContainers = filter (\<lambda>c. ContainerMediaId c = ID media)
                                                (downloadedChapterContainers q)
                            in if length eContainers = 0 then removeManga (ID media) q
                               else if MangaDiffType diff = DiffTypeMissing then
                                 syncMissingManga env entry media eContainers q
                               else if MangaDiffType diff = DiffTypeMetadata then
                                 (case MangaSnap diff of
                                    None \<Rightarrow> q
                                  | Some old \<Rightarrow> syncStaleManga env entry media eContainers old q)
                               else q)))))"


subsection \<open>synchronizeCollections: the builder of the local collections\<close>

text \<open>
  Modelled from the spec: \<^verbatim>\<open>ToNewPointer\<close>, whose code is missing.  The Builder
  "deep-copies scalar entry fields into a new entry": the result is a new pointer to a
  copy of the value, and \<^verbatim>\<open>nil\<close> for \<^verbatim>\<open>nil\<close>.  Nothing is ever written through
  such a pointer, so the pointer is the optional value.
\<close>

definition ToNewPointer :: "'a option \<Rightarrow> 'a option" where
  "ToNewPointer a = (case a of None \<Rightarrow> None | Some t \<Rightarrow> Some t)"

text \<open>
  Modelled from the spec: \<^verbatim>\<open>BaseAnimeDeepCopy\<close> and \<^verbatim>\<open>BaseMangaDeepCopy\<close>, whose
  code is missing.  The Builder "deep-copies the entry's embedded media object": the
  result points to a newly allocated object that equals the argument's; a \<^verbatim>\<open>nil\<close>
  argument has no object to copy and gives \<^verbatim>\<open>nil\<close>.
\<close>

definition BaseMediaDeepCopy :: "addr option \<Rightarrow> heap \<Rightarrow> addr option \<times> heap" where
  "BaseMediaDeepCopy p h =
     (case p of
        None \<Rightarrow> (None, h)
      | Some a \<Rightarrow> (case newMedia (mediaObjs h a) h of (b, h') \<Rightarrow> (Some b, h')))"

text \<open>
  Modelled from the spec: the Snapshot Store's \<^verbatim>\<open>getAllAnime()\<close> and its manga twin
  (\<^verbatim>\<open>localDb.GetAnimeSnapshots\<close>, \<^verbatim>\<open>localDb.GetMangaSnapshots\<close>), whose code is
  missing.  sync.go discards the error; a read that fails returns no snapshot.
\<close>

definition GetAnimeSnapshots :: "Env \<Rightarrow> Syncer \<Rightarrow> AnimeSnapshot list" where
  "GetAnimeSnapshots env q = (if GetAnimeSnapshotsErr env = None then dbAnimeSnapshots q else [])"

definition GetMangaSnapshots :: "Env \<Rightarrow> Syncer \<Rightarrow> MangaSnapshot list" where
  "GetMangaSnapshots env q = (if GetMangaSnapshotsErr env = None then dbMangaSnapshots q else [])"

text \<open>
  \<^verbatim>\<open>for _, snapshot := range snapshots { snapshotMap[snapshot.MediaId] = snapshot }\<close>
\<close>

definition snapshotMap :: "'a Snapshot_scheme list \<Rightarrow> (int \<rightharpoonup> 'a Snapshot_scheme)" where
  "snapshotMap snapshots = fold (\<lambda>snapshot m. m(MediaId snapshot \<mapsto> snapshot)) snapshots Map.empty"

text \<open>
  The first loop over the remote lists: a new list object without entries for every
  remote list that has a status, appended to the local collection's lists.
\<close>

fun recreateLists :: "addr list \<Rightarrow> addr list \<Rightarrow> heap \<Rightarrow> addr list \<times> heap" where
  "recreateLists [] locals h = (locals, h)"
| "recreateLists (l # ls) locals h =
     (if Status (listObjs h l) = None then recreateLists ls locals h
      else
        (case newList \<lparr>Status = ToNewPointer (Status (listObjs h l)),
                       Name = ToNewPointer (Name (listObjs h l)),
                       IsCustomList = ToNewPointer (IsCustomList (listObjs h l)),
                       Entries = []\<rparr> h of
           (list, h') \<Rightarrow> recreateLists ls (locals @ [list]) h'))"

text \<open>The edits of the copied media: banner and cover image point into the asset store.\<close>

definition editedCoverImage :: "Env \<Rightarrow> 'a Snapshot_scheme \<Rightarrow> BaseMedia_CoverImage" where
  "editedCoverImage env snapshot =
     \<lparr>ExtraLarge = FormatAssetUrl env (MediaId snapshot) (CoverImagePath snapshot),
      Large = FormatAssetUrl env (MediaId snapshot) (CoverImagePath snapshot),
      Medium = FormatAssetUrl env (MediaId snapshot) (CoverImagePath snapshot),
      Color = FormatAssetUrl env (MediaId snapshot) (CoverImagePath snapshot)\<rparr>"

definition editedMedia :: "Env \<Rightarrow> 'a Snapshot_scheme \<Rightarrow> BaseMedia \<Rightarrow> BaseMedia" where
  "editedMedia env snapshot m =
     m\<lparr>BannerImage := FormatAssetUrl env (MediaId snapshot) (BannerImagePath snapshot),
       CoverImage := Some (editedCoverImage env snapshot)\<rparr>"

definition copyDate :: "FuzzyDate option \<Rightarrow> FuzzyDate option" where
  "copyDate d =
     (case d of
        None \<Rightarrow> None
      | Some x \<Rightarrow> Some \<lparr>Year = ToNewPointer (Year x), Month = ToNewPointer (Month x),
                        Day = ToNewPointer (Day x)\<rparr>)"

text \<open>The new entry (\<^verbatim>\<open>entry := &anilist.AnimeListEntry{...}\<close>) around the media \<open>m\<close>.\<close>

definition newEntry :: "'m ListEntry \<Rightarrow> 'n \<Rightarrow> 'n ListEntry" where
  "newEntry e m =
     \<lparr>EntryID = EntryID e,
      Score = ToNewPointer (Score e),
      Progress = ToNewPointer (Progress e),
      EntryStatus = ToNewPointer (EntryStatus e),
      Notes = ToNewPointer (Notes e),
      Repeat = ToNewPointer (Repeat e),
      Private = ToNewPointer (Private e),
      StartedAt = copyDate (StartedAt e),
      CompletedAt = copyDate (CompletedAt e),
      Media = Some m\<rparr>"

text \<open>
  The body of the innermost loop once the list with the right status is found: copy
  the media, edit the copy, build the entry and append it to the list's entries.  A
  \<^verbatim>\<open>nil\<close> copy makes the first edit panic.
\<close>

definition appendEntry :: "Env \<Rightarrow> addr \<Rightarrow> addr ListEntry \<Rightarrow> 'a Snapshot_scheme \<Rightarrow> heap \<Rightarrow> (error \<times> heap) + heap" where
  "appendEntry env list e snapshot h =
     (case BaseMediaDeepCopy (Media e) h of
        (None, h1) \<Rightarrow> Inl (''invalid memory address or nil pointer dereference'', h1)
      | (Some edited, h1) \<Rightarrow>
          (let h2 = h1\<lparr>mediaObjs := (mediaObjs h1)(edited := editedMedia env snapshot (mediaObjs h1 edited))\<rparr>;
               entry = newEntry e edited
           in Inr (h2\<lparr>listObjs := (listObjs h2)
                        (list := (listObjs h2 list)\<lparr>Entries := Entries (listObjs h2 list) @ [entry]\<rparr>)\<rparr>)))"

text \<open>
  The innermost loop, over the local lists: the first list whose status is the remote
  list's gets the entry, and the loop breaks.
\<close>

fun addToRightList :: "Env \<Rightarrow> addr list \<Rightarrow> MediaListStatus \<Rightarrow> addr ListEntry \<Rightarrow> 'a Snapshot_scheme \<Rightarrow> heap \<Rightarrow> (error \<times> heap) + heap" where
  "addToRightList env [] st e snapshot h = Inr h"
| "addToRightList env (list # others) st e snapshot h =
     (case Status (listObjs h list) of
        None \<Rightarrow> addToRightList env others st e snapshot h
      | Some s \<Rightarrow>
          if s \<noteq> st then addToRightList env others st e snapshot h
          else appendEntry env list e snapshot h)"

text \<open>The loop over the entries of one remote list.\<close>

fun addEntries :: "Env \<Rightarrow> (int \<rightharpoonup> TrackedMedia) \<Rightarrow> (int \<rightharpoonup> 'a Snapshot_scheme) \<Rightarrow> addr list \<Rightarrow> MediaListStatus \<Rightarrow> addr ListEntry list \<Rightarrow> heap \<Rightarrow> (error \<times> heap) + heap" where
  "addEntries env tracked snapshots locals st [] h = Inr h"
| "addEntries env tracked snapshots locals st (e # es) h =
     (case tracked (GetMediaID h e) of
        None \<Rightarrow> addEntries env tracked snapshots locals st es h
      | Some _ \<Rightarrow>
          (case snapshots (GetMediaID h e) of
             None \<Rightarrow> addEntries env tracked snapshots locals st es h
           | Some snapshot \<Rightarrow>
               (case addToRightList env locals st e snapshot h of
                  Inl err \<Rightarrow> Inl err
                | Inr h' \<Rightarrow> addEntries env tracked snapshots locals st es h')))"

text \<open>The second loop over the remote lists.\<close>

fun createLocalCollection :: "Env \<Rightarrow> (int \<rightharpoonup> TrackedMedia) \<Rightarrow> (int \<rightharpoonup> 'a Snapshot_scheme) \<Rightarrow> addr list \<Rightarrow> addr list \<Rightarrow> heap \<Rightarrow> (error \<times> heap) + heap" where
  "createLocalCollection env tracked snapshots locals [] h = Inr h"
| "createLocalCollection env tracked snapshots locals (l # ls) h =
     (case Status (listObjs h l) of
        None \<Rightarrow> createLocalCollection env tracked snapshots locals ls h
      | Some st \<Rightarrow>
          (case addEntries env tracked snapshots locals st (Entries (listObjs h l)) h of
             Inl err \<Rightarrow> Inl err
           | Inr h' \<Rightarrow> createLocalCollection env tracked snapshots locals ls h'))"

text \<open>The serialized form of a collection: every pointer replaced by what it points to.\<close>

definition resolveEntry :: "heap \<Rightarrow> addr ListEntry \<Rightarrow> BaseMedia ListEntry" where
  "resolveEntry h e =
     \<lparr>EntryID = EntryID e, Score = Score e, Progress = Progress e, EntryStatus = EntryStatus e,
      Notes = Notes e, Repeat = Repeat e, Private = Private e, StartedAt = StartedAt e,
      CompletedAt = CompletedAt e, Media = map_option (mediaObjs h) (Media e)\<rparr>"

definition resolveList :: "heap \<Rightarrow> addr \<Rightarrow> BaseMedia MediaList" where
  "resolveList h l =
     \<lparr>Status = Status (listObjs h l), Name = Name (listObjs h l),
      IsCustomList = IsCustomList (listObjs h l),
      Entries = map (resolveEntry h) (Entries (listObjs h l))\<rparr>"

definition serialize :: "heap \<Rightarrow> addr list \<Rightarrow> BaseMedia MediaList list" where
  "serialize h ls = map (resolveList h) ls"

text \<open>
  Modelled from the spec: the Snapshot Store's \<^verbatim>\<open>putLocalAnimeCollection(c)\<close> and
  \<^verbatim>\<open>putLocalMangaCollection(c)\<close> (\<^verbatim>\<open>localDb.SaveAnimeCollection\<close>,
  \<^verbatim>\<open>localDb.SaveMangaCollection\<close>), whose code is missing.  One collection write is
  all-or-nothing: it replaces the stored collection or fails and leaves it.
\<close>

definition SaveAnimeCollection :: "Env \<Rightarrow> addr list \<Rightarrow> Syncer \<Rightarrow> error + Syncer" where
  "SaveAnimeCollection env ls q =
     (case SaveAnimeCollectionErr env of
        Some err \<Rightarrow> Inl err
      | None \<Rightarrow> Inr (q\<lparr>dbAnimeCollection := Some (serialize (memory q) ls)\<rparr>))"

definition SaveMangaCollection :: "Env \<Rightarrow> addr list \<Rightarrow> Syncer \<Rightarrow> error + Syncer" where
  "SaveMangaCollection env ls q =
     (case SaveMangaCollectionErr env of
        Some err \<Rightarrow> Inl err
      | None \<Rightarrow> Inr (q\<lparr>dbMangaCollection := Some (serialize (memory q) ls)\<rparr>))"

text \<open>The end of \<^verbatim>\<open>synchronizeCollections\<close>: save and publish, anime first.\<close>

definition saveLocalCollections :: "Env \<Rightarrow> addr list \<Rightarrow> addr list \<Rightarrow> Syncer \<Rightarrow> error option \<times> Syncer" where
  "saveLocalCollections env localAnimeLists localMangaLists q =
     (case SaveAnimeCollection env localAnimeLists q of
        Inl err \<Rightarrow> (Some err, q)
      | Inr q1 \<Rightarrow>
          (let q2 = q1\<lparr>localAnimeCollection := Some \<lparr>MediaListCollection = Some localAnimeLists\<rparr>\<rparr>
           in case SaveMangaCollection env localMangaLists q2 of
                Inl err \<Rightarrow> (Some err, q2)
              | Inr q3 \<Rightarrow>
                  (None, q3\<lparr>localMangaCollection := Some \<lparr>MediaListCollection = Some localMangaLists\<rparr>\<rparr>)))"

text \<open>
  The part of \<^verbatim>\<open>synchronizeCollections\<close> before the save: the two local collections
  built in memory.  Each of the two entry loops runs only when there is a snapshot of
  its kind.
\<close>

definition buildLocalCollections :: "Env \<Rightarrow> Collection \<Rightarrow> Collection \<Rightarrow> Syncer \<Rightarrow> (error \<times> heap) + (addr list \<times> addr list \<times> heap)" where
  "buildLocalCollections env ac mc q =
     (let animeSnapshots = GetAnimeSnapshots env q;
          mangaSnapshots = GetMangaSnapshots env q;
          animeSnapshotMap = snapshotMap animeSnapshots;
          mangaSnapshotMap = snapshotMap mangaSnapshots
      in case recreateLists (GetLists ac) [] (memory q) of
           (localAnimeLists, h1) \<Rightarrow>
             (case recreateLists (GetLists mc) [] h1 of
                (localMangaLists, h2) \<Rightarrow>
                  (case (if length animeSnapshots > 0
                         then createLocalCollection env (trackedAnimeMap q) animeSnapshotMap
                                localAnimeLists (GetLists ac) h2
                         else Inr h2) of
                     Inl err \<Rightarrow> Inl err
                   | Inr h3 \<Rightarrow>
                       (case (if length mangaSnapshots > 0
                              then createLocalCollection env (trackedMangaMap q) mangaSnapshotMap
                                     localMangaLists (GetLists mc) h3
                              else Inr h3) of
                          Inl err \<Rightarrow> Inl err
                        | Inr h4 \<Rightarrow> Inr (localAnimeLists, localMangaLists, h4)))))"

text \<open>
  \<^verbatim>\<open>synchronizeCollections()\<close>.  \<^verbatim>\<open>MustGet\<close> panics on an absent remote collection;
  the deferred handler turns every panic into the returned error.
\<close>

definition synchronizeCollections :: "Env \<Rightarrow> Syncer \<Rightarrow> error option \<times> Syncer" where
  "synchronizeCollections env q =
     (case animeCollection q of
        None \<Rightarrow> (Some ''panic: option is absent'', q)
      | Some ac \<Rightarrow>
          (case mangaCollection q of
             None \<Rightarrow> (Some ''panic: option is absent'', q)
           | Some mc \<Rightarrow>
               (case buildLocalCollections env ac mc q of
                  Inl (err, h) \<Rightarrow> (Some (''panic: '' @ err), q\<lparr>memory := h\<rparr>)
                | Inr (localAnimeLists, localMangaLists, h) \<Rightarrow>
                    saveLocalCollections env localAnimeLists localMangaLists (q\<lparr>memory := h\<rparr>))))"


subsection \<open>Notions used to state and prove the builder's properties\<close>

text \<open>The heap a run leaves behind, whether it ended in a panic or not.\<close>

definition heapOf :: "(error \<times> heap) + heap \<Rightarrow> heap" where
  "heapOf r = (case r of Inl (err, h) \<Rightarrow> h | Inr h \<Rightarrow> h)"

text \<open>
  \<open>preserves A h h'\<close>: from \<open>h\<close> to \<open>h'\<close> no list object was allocated, no list object
  outside \<open>A\<close> was written, and no media object allocated in \<open>h\<close> was written.
\<close>

definition preserves :: "addr set \<Rightarrow> heap \<Rightarrow> heap \<Rightarrow> bool" where
  "preserves A h h' \<longleftrightarrow>
     listNext h' = listNext h \<and> mediaNext h \<le> mediaNext h' \<and>
     (\<forall>b. b \<notin> A \<longrightarrow> listObjs h' b = listObjs h b) \<and>
     (\<forall>p. p < mediaNext h \<longrightarrow> mediaObjs h' p = mediaObjs h p)"

text \<open>
  \<open>unchanged h h'\<close>: every object allocated in \<open>h\<close> is the same object in \<open>h'\<close>; what
  \<open>h'\<close> has more lies at addresses that were free in \<open>h\<close>.
\<close>

definition unchanged :: "heap \<Rightarrow> heap \<Rightarrow> bool" where
  "unchanged h h' \<longleftrightarrow>
     listNext h \<le> listNext h' \<and> mediaNext h \<le> mediaNext h' \<and>
     (\<forall>a. a < listNext h \<longrightarrow> listObjs h' a = listObjs h a) \<and>
     (\<forall>p. p < mediaNext h \<longrightarrow> mediaObjs h' p = mediaObjs h p)"

text \<open>The media pointers of the entries of list \<open>a\<close> point to allocated objects.\<close>

definition ptrsOk :: "heap \<Rightarrow> addr \<Rightarrow> bool" where
  "ptrsOk h a \<longleftrightarrow> (\<forall>e \<in> set (Entries (listObjs h a)). \<forall>p. Media e = Some p \<longrightarrow> p < mediaNext h)"

text \<open>
  A collection is well formed in a heap when it has no dangling pointer: its list
  pointers and the media pointers of its entries point to allocated objects.
\<close>

definition wfCollection :: "heap \<Rightarrow> Collection \<Rightarrow> bool" where
  "wfCollection h c \<longleftrightarrow> (\<forall>l \<in> set (GetLists c). l < listNext h \<and> ptrsOk h l)"

text \<open>
  The builder on serialized collections.  \<open>absAdd\<close> appends the entry to the first list
  with the status; \<open>absPlace\<close> is one run of the innermost loop, \<open>absEntries\<close> and
  \<open>absLists\<close> follow the two loops around it; \<open>None\<close> is a panic.
\<close>

fun absAdd :: "BaseMedia MediaList list \<Rightarrow> MediaListStatus \<Rightarrow> BaseMedia ListEntry \<Rightarrow> BaseMedia MediaList list" where
  "absAdd [] st v = []"
| "absAdd (l # ls) st v =
     (if Status l = Some st then l\<lparr>Entries := Entries l @ [v]\<rparr> # ls else l # absAdd ls st v)"

definition mediaIdOf :: "BaseMedia ListEntry \<Rightarrow> int" where
  "mediaIdOf e = (case Media e of None \<Rightarrow> 0 | Some m \<Rightarrow> ID m)"

definition absPlace :: "Env \<Rightarrow> BaseMedia MediaList list \<Rightarrow> MediaListStatus \<Rightarrow> BaseMedia ListEntry \<Rightarrow> 'a Snapshot_scheme \<Rightarrow> BaseMedia MediaList list option" where
  "absPlace env V st e snapshot =
     (if \<forall>l \<in> set V. Status l \<noteq> Some st then Some V
      else
        (case Media e of
           None \<Rightarrow> None
         | Some m \<Rightarrow> Some (absAdd V st (newEntry e (editedMedia env snapshot m)))))"

fun absEntries :: "Env \<Rightarrow> (int \<rightharpoonup> TrackedMedia) \<Rightarrow> (int \<rightharpoonup> 'a Snapshot_scheme) \<Rightarrow> MediaListStatus \<Rightarrow> BaseMedia ListEntry list \<Rightarrow> BaseMedia MediaList list \<Rightarrow> BaseMedia MediaList list option" where
  "absEntries env tracked snapshots st [] V = Some V"
| "absEntries env tracked snapshots st (e # es) V =
     (case tracked (mediaIdOf e) of
        None \<Rightarrow> absEntries env tracked snapshots st es V
      | Some _ \<Rightarrow>
          (case snapshots (mediaIdOf e) of
             None \<Rightarrow> absEntries env tracked snapshots st es V
           | Some snapshot \<Rightarrow>
               (case absPlace env V st e snapshot of
                  None \<Rightarrow> None
                | Some V' \<Rightarrow> absEntries env tracked snapshots st es V')))"

fun absLists :: "Env \<Rightarrow> (int \<rightharpoonup> TrackedMedia) \<Rightarrow> (int \<rightharpoonup> 'a Snapshot_scheme) \<Rightarrow> BaseMedia MediaList list \<Rightarrow> BaseMedia MediaList list \<Rightarrow> BaseMedia MediaList list option" where
  "absLists env tracked snapshots [] V = Some V"
| "absLists env tracked snapshots (l # ls) V =
     (case Status l of
        None \<Rightarrow> absLists env tracked snapshots ls V
      | Some st \<Rightarrow>
          (case absEntries env tracked snapshots st (Entries l) V of
             None \<Rightarrow> None
           | Some V' \<Rightarrow> absLists env tracked snapshots ls V'))"

text \<open>A run of a loop on the heap and its run on the serialized lists \<open>L\<close> agree.\<close>

definition simulates :: "addr list \<Rightarrow> (error \<times> heap) + heap \<Rightarrow> BaseMedia MediaList list option \<Rightarrow> bool" where
  "simulates L r v =
     (case r of
        Inl x \<Rightarrow> v = None
      | Inr h' \<Rightarrow> v = Some (serialize h' L) \<and> (\<forall>a \<in> set L. ptrsOk h' a))"


definition skeleton :: "'m MediaList \<Rightarrow> 'n MediaList" where
  "skeleton l = \<lparr>Status = Status l, Name = Name l, IsCustomList = IsCustomList l, Entries = []\<rparr>"

definition absBuild :: "Env \<Rightarrow> (int \<rightharpoonup> TrackedMedia) \<Rightarrow> 'a Snapshot_scheme list \<Rightarrow> BaseMedia MediaList list \<Rightarrow> BaseMedia MediaList list option" where
  "absBuild env tracked snapshots remote =
     (let V = map skeleton (filter (\<lambda>l. Status l \<noteq> None) remote)
      in if length snapshots > 0 then absLists env tracked (snapshotMap snapshots) remote V
         else Some V)"

text \<open>What a list keeps of the remote list it mirrors.\<close>

definition header :: "'m MediaList \<Rightarrow> MediaListStatus option \<times> string option \<times> bool option" where
  "header l = (Status l, Name l, IsCustomList l)"

text \<open>
  A remote entry passes the two tests of the entry loop when its media ID is a key of
  the tracked map and some snapshot read from the database has that media ID.
\<close>

definition passes :: "(int \<rightharpoonup> TrackedMedia) \<Rightarrow> 'a Snapshot_scheme list \<Rightarrow> BaseMedia ListEntry \<Rightarrow> bool" where
  "passes tracked snapshots e \<longleftrightarrow>
     mediaIdOf e \<in> dom tracked \<and> mediaIdOf e \<in> MediaId ` set snapshots"

text \<open>
  \<open>placed env tracked snapshots remote local j v\<close>: the entry \<open>v\<close> of the local list
  number \<open>j\<close> is accounted for.  It comes from an entry \<open>e\<close> of a remote list \<open>l\<close> with a
  status; the media of \<open>e\<close> is tracked and has a snapshot among those read from the
  database; list \<open>j\<close> is the first local list with the status of \<open>l\<close>; and \<open>v\<close> is \<open>e\<close>
  around a copy of its media whose banner image and cover image variants are the asset
  URLs of the snapshot's banner and cover paths.
\<close>

definition placed :: "Env \<Rightarrow> (int \<rightharpoonup> TrackedMedia) \<Rightarrow> 'a Snapshot_scheme list \<Rightarrow> BaseMedia MediaList list \<Rightarrow> BaseMedia MediaList list \<Rightarrow> nat \<Rightarrow> BaseMedia ListEntry \<Rightarrow> bool" where
  "placed env tracked snapshots remote local j v \<longleftrightarrow>
     (\<exists>l \<in> set remote. \<exists>e \<in> set (Entries l). \<exists>st m snapshot.
        Status l = Some st \<and> Media e = Some m \<and>
        ID m \<in> dom tracked \<and> snapshot \<in> set snapshots \<and> MediaId snapshot = ID m \<and>
        Status (local ! j) = Some st \<and> (\<forall>i < j. Status (local ! i) \<noteq> Some st) \<and>
        v = e\<lparr>Media := Some (m\<lparr>
              BannerImage := FormatAssetUrl env (MediaId snapshot) (BannerImagePath snapshot),
              CoverImage := Some
                \<lparr>ExtraLarge = FormatAssetUrl env (MediaId snapshot) (CoverImagePath snapshot),
                 Large = FormatAssetUrl env (MediaId snapshot) (CoverImagePath snapshot),
                 Medium = FormatAssetUrl env (MediaId snapshot) (CoverImagePath snapshot),
                 Color = FormatAssetUrl env (MediaId snapshot) (CoverImagePath snapshot)\<rparr>\<rparr>)\<rparr>)"

text \<open>
  \<open>mirrors env tracked snapshots remote local\<close>: every entry of every local list is
  accounted for, and the local lists hold as many entries as there are passing entries
  in the remote lists with a status, so that each of these was appended exactly once.
\<close>

definition mirrors :: "Env \<Rightarrow> (int \<rightharpoonup> TrackedMedia) \<Rightarrow> 'a Snapshot_scheme list \<Rightarrow> BaseMedia MediaList list \<Rightarrow> BaseMedia MediaList list \<Rightarrow> bool" where
  "mirrors env tracked snapshots remote local \<longleftrightarrow>
     (\<forall>j < length local. \<forall>v \<in> set (Entries (local ! j)). placed env tracked snapshots remote local j v) \<and>
     sum_list (map (\<lambda>l. length (Entries l)) local)
       = length (filter (passes tracked snapshots)
                   (concat (map Entries (filter (\<lambda>l. Status l \<noteq> None) remote))))"

text \<open>The list pointers of a published collection.\<close>

definition listsOf :: "Collection option \<Rightarrow> addr list" where
  "listsOf c = (case c of None \<Rightarrow> [] | Some c' \<Rightarrow> GetLists c')"

text \<open>The number of entries of a collection, and the invariant of the entry loops.\<close>

definition total :: "'m MediaList list \<Rightarrow> nat" where
  "total V = sum_list (map (\<lambda>l. length (Entries l)) V)"

definition allPlaced :: "Env \<Rightarrow> (int \<rightharpoonup> TrackedMedia) \<Rightarrow> 'a Snapshot_scheme list \<Rightarrow> BaseMedia MediaList list \<Rightarrow> BaseMedia MediaList list \<Rightarrow> bool" where
  "allPlaced env tr snaps R V \<longleftrightarrow>
     (\<forall>j < length V. \<forall>v \<in> set (Entries (V ! j)). placed env tr snaps R V j v)"


subsection \<open>checkAndUpdateLocalCollections and the two workers\<close>

text \<open>
  The body of the check once the flag is found set and both queues empty: one builder
  pass, its error (if any) logged and dropped, the flag cleared.
\<close>

definition updateLocalCollections :: "Env \<Rightarrow> Syncer \<Rightarrow> Syncer" where
  "updateLocalCollections env q =
     (case synchronizeCollections env q of
        (err, q1) \<Rightarrow>
          (case err of
             None \<Rightarrow> q1
           | Some e \<Rightarrow> logMsg ErrorLevel ''sync: Failed to synchronize collections'' q1)
          \<lparr>shouldUpdateLocalCollections := False\<rparr>)"

text \<open>
  The part of \<^verbatim>\<open>checkAndUpdateLocalCollections\<close> between taking the mutex and the send.
  The result says whether the signal is to be sent.
\<close>

definition checkLocked :: "Env \<Rightarrow> Syncer \<Rightarrow> bool \<times> Syncer" where
  "checkLocked env q =
     (if shouldUpdateLocalCollections q then
        (if length (animeJobQueue q) = 0 \<and> length (mangaJobQueue q) = 0 then
           (True, updateLocalCollections env q)
         else (False, q))
      else (False, q))"

text \<open>
  \<^verbatim>\<open>q.doneUpdatingLocalCollections <- struct{}{}\<close> on the channel of capacity 1: the
  send completes when the buffer has room and blocks otherwise (\<open>None\<close>).
\<close>

definition sendDone :: "Syncer \<Rightarrow> Syncer option" where
  "sendDone q =
     (if doneUpdatingLocalCollections q < 1
      then Some (q\<lparr>doneUpdatingLocalCollections := doneUpdatingLocalCollections q + 1\<rparr>)
      else None)"

text \<open>
  \<^verbatim>\<open>checkAndUpdateLocalCollections()\<close>, run without interference: \<open>None\<close> when the send
  blocks and nothing receives.
\<close>

definition checkAndUpdateLocalCollections :: "Env \<Rightarrow> Syncer \<Rightarrow> Syncer option" where
  "checkAndUpdateLocalCollections env q =
     (case checkLocked env q of
        (True, q') \<Rightarrow> sendDone q'
      | (False, q') \<Rightarrow> Some q')"

text \<open>
  The two workers run concurrently.  A worker is at one of five points of its loop:
  waiting for a job, holding a received job, having set the flag, having handled the
  job, and, inside the check and holding the mutex, about to send the signal.
\<close>

datatype 'job pc = Waiting | Received 'job | Marked 'job | Handled | Sending

datatype worker = AnimeWorker | MangaWorker

text \<open>
  The system: the Syncer, the two workers, and two counters that observe a run: the
  builder passes run, and the receives that left both queues empty (the drains).
\<close>

record System =
  syncer :: Syncer
  animePc :: "AnimeDiffResult pc"
  mangaPc :: "MangaDiffResult pc"
  builderPasses :: nat
  drains :: nat

text \<open>
  What can happen next: a worker makes its next move; the goroutine that \<^verbatim>\<open>runDiffs\<close>
  starts (\<^verbatim>\<open>q.animeJobQueue <- AnimeJob{Diff: i}\<close>, \<^verbatim>\<open>q.mangaJobQueue <- MangaJob{Diff: i}\<close>)
  puts a job into a queue, at any moment and without the mutex; or whoever listens on
  \<open>doneUpdatingLocalCollections\<close> takes a signal out of the channel.
\<close>

datatype action =
    Move worker
  | EnqueueAnime AnimeDiffResult
  | EnqueueManga MangaDiffResult
  | TakeSignal

text \<open>The job queues are channels of capacity 100: a send into a full queue blocks.\<close>

definition enqueueAnime :: "AnimeDiffResult \<Rightarrow> Syncer \<Rightarrow> Syncer option" where
  "enqueueAnime d q =
     (if length (animeJobQueue q) < 100 then Some (q\<lparr>animeJobQueue := animeJobQueue q @ [d]\<rparr>)
      else None)"

definition enqueueManga :: "MangaDiffResult \<Rightarrow> Syncer \<Rightarrow> Syncer option" where
  "enqueueManga d q =
     (if length (mangaJobQueue q) < 100 then Some (q\<lparr>mangaJobQueue := mangaJobQueue q @ [d]\<rparr>)
      else None)"

text \<open>
  One move of a worker from each point of \<^verbatim>\<open>processAnimeJobs\<close> (and
  \<^verbatim>\<open>processMangaJobs\<close>); \<open>None\<close> when the worker cannot move: no job to receive, the
  mutex held by the other worker, no room in the signal channel.
\<close>

definition animeMove :: "Env \<Rightarrow> System \<Rightarrow> System option" where
  "animeMove env s =
     (case animePc s of
        Waiting \<Rightarrow>
          (case animeJobQueue (syncer s) of
             [] \<Rightarrow> None
           | job # rest \<Rightarrow>
               Some (s\<lparr>syncer := (syncer s)\<lparr>animeJobQueue := rest\<rparr>,
                       animePc := Received job,
                       drains := drains s + (if rest = [] \<and> mangaJobQueue (syncer s) = [] then 1 else 0)\<rparr>))
      | Received job \<Rightarrow>
          Some (s\<lparr>syncer := (syncer s)\<lparr>shouldUpdateLocalCollections := True\<rparr>, animePc := Marked job\<rparr>)
      | Marked job \<Rightarrow>
          Some (s\<lparr>syncer := synchronizeAnime env job (syncer s), animePc := Handled\<rparr>)
      | Handled \<Rightarrow>
          if mangaPc s = Sending then None
          else
            (case checkLocked env (syncer s) of
               (True, q') \<Rightarrow> Some (s\<lparr>syncer := q', animePc := Sending, builderPasses := builderPasses s + 1\<rparr>)
             | (False, q') \<Rightarrow> Some (s\<lparr>syncer := q', animePc := Waiting\<rparr>))
      | Sending \<Rightarrow>
          (case sendDone (syncer s) of
             None \<Rightarrow> None
           | Some q' \<Rightarrow> Some (s\<lparr>syncer := q', animePc := Waiting\<rparr>)))"

definition mangaMove :: "Env \<Rightarrow> System \<Rightarrow> System option" where
  "mangaMove env s =
     (case mangaPc s of
        Waiting \<Rightarrow>
          (case mangaJobQueue (syncer s) of
             [] \<Rightarrow> None
           | job # rest \<Rightarrow>
               Some (s\<lparr>syncer := (syncer s)\<lparr>mangaJobQueue := rest\<rparr>,
                       mangaPc := Received job,
                       drains := drains s + (if rest = [] \<and> animeJobQueue (syncer s) = [] then 1 else 0)\<rparr>))
      | Received job \<Rightarrow>
          Some (s\<lparr>syncer := (syncer s)\<lparr>shouldUpdateLocalCollections := True\<rparr>, mangaPc := Marked job\<rparr>)
      | Marked job \<Rightarrow>
          Some (s\<lparr>syncer := synchronizeManga env job (syncer s), mangaPc := Handled\<rparr>)
      | Handled \<Rightarrow>
          if animePc s = Sending then None
          else
            (case checkLocked env (syncer s) of
               (True, q') \<Rightarrow> Some (s\<lparr>syncer := q', mangaPc := Sending, builderPasses := builderPasses s + 1\<rparr>)
             | (False, q') \<Rightarrow> Some (s\<lparr>syncer := q', mangaPc := Waiting\<rparr>))
      | Sending \<Rightarrow>
          (case sendDone (syncer s) of
             None \<Rightarrow> None
           | Some q' \<Rightarrow> Some (s\<lparr>syncer := q', mangaPc := Waiting\<rparr>)))"

definition step :: "Env \<Rightarrow> action \<Rightarrow> System \<Rightarrow> System option" where
  "step env a s =
     (case a of
        Move AnimeWorker \<Rightarrow> animeMove env s
      | Move MangaWorker \<Rightarrow> mangaMove env s
      | EnqueueAnime d \<Rightarrow> map_option (\<lambda>q'. s\<lparr>syncer := q'\<rparr>) (enqueueAnime d (syncer s))
      | EnqueueManga d \<Rightarrow> map_option (\<lambda>q'. s\<lparr>syncer := q'\<rparr>) (enqueueManga d (syncer s))
      | TakeSignal \<Rightarrow>
          if doneUpdatingLocalCollections (syncer s) = 0 then None
          else Some (s\<lparr>syncer := (syncer s)\<lparr>doneUpdatingLocalCollections :=
                                     doneUpdatingLocalCollections (syncer s) - 1\<rparr>\<rparr>))"

text \<open>A schedule is a list of actions; a run follows it as long as every action can happen.\<close>

fun run :: "Env \<Rightarrow> action list \<Rightarrow> System \<Rightarrow> System option" where
  "run env [] s = Some s"
| "run env (a # as) s = (case step env a s of None \<Rightarrow> None | Some s' \<Rightarrow> run env as s')"

text \<open>
  One whole iteration of a worker's loop with nothing in between: receive, set the flag,
  handle, check, and send when the check asks for it.
\<close>

definition pcWaiting :: "worker \<Rightarrow> System \<Rightarrow> bool" where
  "pcWaiting w s = (case w of AnimeWorker \<Rightarrow> animePc s = Waiting | MangaWorker \<Rightarrow> mangaPc s = Waiting)"

definition iteration :: "Env \<Rightarrow> worker \<Rightarrow> System \<Rightarrow> System option" where
  "iteration env w s =
     (case run env [Move w, Move w, Move w, Move w] s of
        None \<Rightarrow> None
      | Some s' \<Rightarrow> if pcWaiting w s' then Some s' else step env (Move w) s')"

fun iterations :: "Env \<Rightarrow> worker list \<Rightarrow> System \<Rightarrow> System option" where
  "iterations env [] s = Some s"
| "iterations env (w # ws) s = (case iteration env w s of None \<Rightarrow> None | Some s' \<Rightarrow> iterations env ws s')"

text \<open>The system at rest: both workers wait and both queues are empty.\<close>

definition quiescent :: "System \<Rightarrow> bool" where
  "quiescent s \<longleftrightarrow>
     animePc s = Waiting \<and> mangaPc s = Waiting \<and>
     animeJobQueue (syncer s) = [] \<and> mangaJobQueue (syncer s) = []"


subsection \<open>A small world for the examples\<close>

definition findListEntry :: "heap \<Rightarrow> Collection \<Rightarrow> int \<Rightarrow> addr ListEntry option" where
  "findListEntry h c mid =
     find (\<lambda>e. GetMediaID h e = mid) (concat (map (\<lambda>l. Entries (listObjs h l)) (GetLists c)))"

definition exAnime :: BaseMedia where
  "exAnime = \<lparr>ID = 101, BannerImage = Some ''https://img.example/banner101.jpg'',
     CoverImage = Some \<lparr>ExtraLarge = Some ''https://img.example/xl101.jpg'',
                         Large = Some ''https://img.example/l101.jpg'',
                         Medium = Some ''https://img.example/m101.jpg'',
                         Color = Some ''#e4a15d''\<rparr>,
     OtherFields = ''Sousou no Frieren''\<rparr>"

definition exManga :: BaseMedia where
  "exManga = \<lparr>ID = 7, BannerImage = None, CoverImage = None, OtherFields = ''Berserk''\<rparr>"

definition exAnimeEntry :: "addr ListEntry" where
  "exAnimeEntry = \<lparr>EntryID = 1, Score = None, Progress = Some 2, EntryStatus = Some ''CURRENT'',
     Notes = None, Repeat = Some 0, Private = Some False,
     StartedAt = Some \<lparr>Year = Some 2024, Month = Some 1, Day = None\<rparr>, CompletedAt = None,
     Media = Some 0\<rparr>"

definition exMangaEntry :: "addr ListEntry" where
  "exMangaEntry = \<lparr>EntryID = 2, Score = None, Progress = Some 10, EntryStatus = Some ''CURRENT'',
     Notes = Some ''reread'', Repeat = None, Private = None,
     StartedAt = None, CompletedAt = None, Media = Some 1\<rparr>"

definition exHeap :: heap where
  "exHeap = \<lparr>
     listObjs = (\<lambda>_. \<lparr>Status = None, Name = None, IsCustomList = None, Entries = []\<rparr>)
       (0 := \<lparr>Status = Some ''CURRENT'', Name = Some ''Watching'', IsCustomList = Some False,
               Entries = [exAnimeEntry]\<rparr>,
        1 := \<lparr>Status = None, Name = Some ''Favorites'', IsCustomList = Some True,
               Entries = [exAnimeEntry]\<rparr>,
        2 := \<lparr>Status = Some ''CURRENT'', Name = Some ''Reading'', IsCustomList = Some False,
               Entries = [exMangaEntry]\<rparr>),
     listNext = 3,
     mediaObjs = (\<lambda>_. exManga)(0 := exAnime),
     mediaNext = 2\<rparr>"

definition exMetadata :: AnimeMetadata where
  "exMetadata = \<lparr>Episodes = [''1'' \<mapsto> \<lparr>Image = ''https://img.example/e1.jpg'', EpisodeTitle = ''one''\<rparr>,
                               ''2'' \<mapsto> \<lparr>Image = ''https://img.example/e2.jpg'', EpisodeTitle = ''two''\<rparr>,
                               ''3'' \<mapsto> \<lparr>Image = [], EpisodeTitle = ''three''\<rparr>],
                   Titles = [''Sousou no Frieren'']\<rparr>"

definition exAnimeSnapshot :: AnimeSnapshot where
  "exAnimeSnapshot = \<lparr>MediaId = 101, BannerImagePath = ''banner.jpg'', CoverImagePath = ''cover.jpg'',
     ReferenceKey = ''old-key'',
     LocalMetadata = \<lparr>Episodes = Map.empty, Titles = []\<rparr>,
     EpisodeImagePaths = [''1'' \<mapsto> ''episode-1.jpg'']\<rparr>"

definition exMangaSnapshot :: MangaSnapshot where
  "exMangaSnapshot = \<lparr>MediaId = 7, BannerImagePath = ''banner.png'', CoverImagePath = ''cover.png'',
     ReferenceKey = ''old-key'', ChapterContainers = []\<rparr>"

definition exEnv :: Env where
  "exEnv = \<lparr>
     GetAnimeMetadata = (\<lambda>_. Inr exMetadata),
     DownloadAnimeImages = (\<lambda>e m. \<lparr>animeBanner = ''banner.jpg'', animeCover = ''cover.jpg'',
        animeEpisodePaths = [''1'' \<mapsto> ''episode-1.jpg'', ''2'' \<mapsto> ''episode-2.jpg''],
        animeImagesOk = True,
        animeFilesWritten = [''banner.jpg'', ''cover.jpg'', ''episode-1.jpg'', ''episode-2.jpg'']\<rparr>),
     DownloadAnimeEpisodeImages = (\<lambda>mid urls. \<lparr>episodePaths = [''2'' \<mapsto> ''episode-2.jpg''],
        episodeImagesOk = True, episodeFilesWritten = [''episode-2.jpg'']\<rparr>),
     DownloadMangaImages = (\<lambda>e. \<lparr>mangaBanner = ''banner.png'', mangaCover = ''cover.png'',
        mangaImagesOk = True, mangaFilesWritten = [''banner.png'', ''cover.png'']\<rparr>),
     GetAnimeReferenceKey = (\<lambda>m lfs. concat (map Path lfs)),
     GetMangaReferenceKey = (\<lambda>m cs. concat (map Provider cs)),
     GetListEntryFromMangaId = findListEntry,
     FormatAssetUrl = (\<lambda>mid path. Some (''/assets/'' @ path)),
     SaveAnimeSnapshotErr = (\<lambda>_. None),
     SaveMangaSnapshotErr = (\<lambda>_. None),
     GetAnimeSnapshotsErr = None,
     GetMangaSnapshotsErr = None,
     SaveAnimeCollectionErr = None,
     SaveMangaCollectionErr = None\<rparr>"

definition exSyncer :: Syncer where
  "exSyncer = \<lparr>
     animeJobQueue = [], mangaJobQueue = [],
     failedAnimeQueue = Map.empty, failedMangaQueue = Map.empty,
     trackedAnimeMap = [101 \<mapsto> \<lparr>TrackedMediaId = 101, TrackedType = AnimeType\<rparr>],
     trackedMangaMap = [7 \<mapsto> \<lparr>TrackedMediaId = 7, TrackedType = MangaType\<rparr>],
     shouldUpdateLocalCollections = False,
     doneUpdatingLocalCollections = 0,
     animeCollection = Some \<lparr>MediaListCollection = Some [0, 1]\<rparr>,
     mangaCollection = Some \<lparr>MediaListCollection = Some [2]\<rparr>,
     localAnimeCollection = None, localMangaCollection = None,
     localFiles = [\<lparr>Path = ''/library/frieren-01.mkv'', LocalFileMediaId = 101\<rparr>],
     downloadedChapterContainers = [\<lparr>ContainerMediaId = 7, Provider = ''mangadex'', Chapters = [''c1'']\<rparr>],
     logger = [],
     dbAnimeSnapshots = [exAnimeSnapshot],
     dbMangaSnapshots = [exMangaSnapshot],
     dbAnimeCollection = None, dbMangaCollection = None,
     localAssets = [(101, ''banner.jpg''), (101, ''cover.jpg''), (101, ''episode-1.jpg''),
                    (7, ''banner.png''), (7, ''cover.png'')],
     imageDownloads = [],
     memory = exHeap\<rparr>"

definition exAnimeDiff :: "DiffType \<Rightarrow> AnimeDiffResult" where
  "exAnimeDiff t = \<lparr>AnimeEntry = Some exAnimeEntry, AnimeSnap = Some exAnimeSnapshot, AnimeDiffType = t\<rparr>"

definition exMangaDiff :: "DiffType \<Rightarrow> MangaDiffResult" where
  "exMangaDiff t = \<lparr>MangaEntry = Some exMangaEntry, MangaSnap = Some exMangaSnapshot, MangaDiffType = t\<rparr>"

definition exNoDeps :: Syncer where
  "exNoDeps = exSyncer\<lparr>localFiles := [], downloadedChapterContainers := []\<rparr>"

definition exFailingEnv :: Env where
  "exFailingEnv = exEnv\<lparr>GetAnimeMetadata := (\<lambda>_. Inl ''connection timed out''),
     DownloadMangaImages := (\<lambda>e. \<lparr>mangaBanner = [], mangaCover = [], mangaImagesOk = False,
                                  mangaFilesWritten = []\<rparr>)\<rparr>"

definition exAnimeSaveFails :: Env where
  "exAnimeSaveFails = exEnv\<lparr>SaveAnimeCollectionErr := Some ''database is locked''\<rparr>"

definition exMangaSaveFails :: Env where
  "exMangaSaveFails = exEnv\<lparr>SaveMangaCollectionErr := Some ''disk full''\<rparr>"

definition exAnimeCollection :: Collection where
  "exAnimeCollection = \<lparr>MediaListCollection = Some [0, 1]\<rparr>"

definition exMangaCollection :: Collection where
  "exMangaCollection = \<lparr>MediaListCollection = Some [2]\<rparr>"

text \<open>A Syncer with empty queues whose flag is set: the state a worker's check finds after the last job.\<close>

definition exPending :: Syncer where
  "exPending = exSyncer\<lparr>shouldUpdateLocalCollections := True\<rparr>"

text \<open>
  A state in which the manga of the example is tracked and has no chapter container any
  more, and the remote manga collection no longer lists it.
\<close>

definition exDelisted :: Syncer where
  "exDelisted = exSyncer\<lparr>mangaCollection := Some \<lparr>MediaListCollection = Some []\<rparr>,
                         downloadedChapterContainers := []\<rparr>"

text \<open>
  A fresh install: anime 101 is tracked and has a local file but no snapshot and no
  asset yet; both queues are empty, the flag is clear and both workers wait.
\<close>

definition exFresh :: Syncer where
  "exFresh = exSyncer\<lparr>dbAnimeSnapshots := [],
                       localAssets := [(7, ''banner.png''), (7, ''cover.png'')]\<rparr>"

definition exIdle :: System where
  "exIdle = \<lparr>syncer = exFresh, animePc = Waiting, mangaPc = Waiting,
             builderPasses = 0, drains = 0\<rparr>"

text \<open>The two jobs of the cycle: the snapshot of anime 101 is missing, that of manga 7 is stale.\<close>

definition exAnimeJob :: AnimeDiffResult where
  "exAnimeJob = \<lparr>AnimeEntry = Some exAnimeEntry, AnimeSnap = None, AnimeDiffType = DiffTypeMissing\<rparr>"

definition exMangaJob :: MangaDiffResult where
  "exMangaJob = exMangaDiff DiffTypeMetadata"

text \<open>
  Three schedules of the same cycle.  In each, the two jobs are put into the queues first.

  In order: the anime worker receives its job, sets the flag, handles the job and checks
  (the manga queue is not empty); then the manga worker receives its job, sets the flag,
  handles the job, checks and sends.
\<close>

definition exInOrder :: "action list" where
  "exInOrder = [EnqueueAnime exAnimeJob, EnqueueManga exMangaJob,
                Move AnimeWorker, Move AnimeWorker, Move AnimeWorker, Move AnimeWorker,
                Move MangaWorker, Move MangaWorker, Move MangaWorker, Move MangaWorker,
                Move MangaWorker]"

text \<open>
  Overtaken: the anime worker receives its job and sets the flag; the manga worker
  receives its job, sets the flag, handles the job, checks and sends; only then the
  anime worker handles its job and checks.
\<close>

definition exOvertaken :: "action list" where
  "exOvertaken = [EnqueueAnime exAnimeJob, EnqueueManga exMangaJob,
                  Move AnimeWorker, Move AnimeWorker,
                  Move MangaWorker, Move MangaWorker, Move MangaWorker, Move MangaWorker,
                  Move MangaWorker,
                  Move AnimeWorker, Move AnimeWorker]"

text \<open>
  Both in flight: both workers receive their job; the anime worker sets the flag, handles
  the job, checks and sends, and the signal is taken; then the manga worker sets the flag,
  handles the job, checks and sends.
\<close>

definition exBothInFlight :: "action list" where
  "exBothInFlight = [EnqueueAnime exAnimeJob, EnqueueManga exMangaJob,
                     Move AnimeWorker, Move MangaWorker,
                     Move AnimeWorker, Move AnimeWorker, Move AnimeWorker, Move AnimeWorker,
                     TakeSignal,
                     Move MangaWorker, Move MangaWorker, Move MangaWorker, Move MangaWorker]"

text \<open>
  What a run leaves behind: whether the system is at rest, the flag, the media IDs of the
  stored anime snapshots, the entry IDs of each list of the stored local anime
  collection, the number of objects allocated for lists, the signals waiting in the
  channel, and the two counters (drains, passes).
\<close>

definition outcome :: "System \<Rightarrow> bool \<times> bool \<times> int list \<times> int list list option \<times> nat \<times> nat \<times> nat \<times> nat" where
  "outcome s =
     (quiescent s,
      shouldUpdateLocalCollections (syncer s),
      map MediaId (dbAnimeSnapshots (syncer s)),
      map_option (map (\<lambda>l. map EntryID (Entries l))) (dbAnimeCollection (syncer s)),
      listNext (memory (syncer s)),
      doneUpdatingLocalCollections (syncer s),
      drains s,
      builderPasses s)"

lemmas ex_defs = exAnime_def exManga_def exAnimeEntry_def exMangaEntry_def exHeap_def exMetadata_def
  exAnimeSnapshot_def exMangaSnapshot_def exEnv_def exSyncer_def exAnimeDiff_def exMangaDiff_def

section \<open>Properties of the per-entity routines\<close>

lemma foundLocalFiles_iff:
  "foundLocalFiles lfs mid \<longleftrightarrow> (\<exists>f \<in> set lfs. LocalFileMediaId f = mid)"
  by (auto simp: foundLocalFiles_def find_None_iff)

lemma putSnapshot_mem: "s \<in> set (putSnapshot s xs)"
  by (auto simp: putSnapshot_def)

lemma synchronizeAnime_no_files:
  assumes "AnimeEntry d = Some e" "Media e = Some p"
    and "\<not> (\<exists>f \<in> set (localFiles q). LocalFileMediaId f = ID (mediaObjs (memory q) p))"
  shows "synchronizeAnime env d q =
           removeAnime (ID (mediaObjs (memory q) p))
             (logMsg WarnLevel ''sync: No local files found for anime, removing from the local database'' q)"
  using assms by (simp add: synchronizeAnime_def foundLocalFiles_iff)

lemma synchronizeManga_no_containers:
  assumes "MangaEntry d = Some e" "Media e = Some p" "mangaCollection q = Some c"
    and "GetListEntryFromMangaId env (memory q) c (ID (mediaObjs (memory q) p)) = Some le"
    and "EntryStatus le \<noteq> None"
    and "\<not> (\<exists>c \<in> set (downloadedChapterContainers q). ContainerMediaId c = ID (mediaObjs (memory q) p))"
  shows "synchronizeManga env d q = removeManga (ID (mediaObjs (memory q) p)) q"
proof -
  have "filter (\<lambda>c. ContainerMediaId c = ID (mediaObjs (memory q) p)) (downloadedChapterContainers q) = []"
    using assms(6) by (auto simp: filter_empty_conv)
  then show ?thesis
    using assms(1-5) by (auto simp: synchronizeManga_def Let_def)
qed

lemma synchronizeManga_guard_fails:
  assumes "MangaEntry d = Some e" "Media e = Some p"
    and "\<not> (\<exists>c le. mangaCollection q = Some c \<and>
              GetListEntryFromMangaId env (memory q) c (ID (mediaObjs (memory q) p)) = Some le \<and>
              EntryStatus le \<noteq> None)"
  shows "synchronizeManga env d q = q \<or>
         synchronizeManga env d q = logMsg ErrorLevel ''sync: Failed to get manga'' q"
  using assms by (auto simp: synchronizeManga_def Let_def split: option.splits)

text \<open>
  Claim C5, as amended.  An anime job whose media has no local file referencing it makes
  \<^verbatim>\<open>synchronizeAnime\<close> remove the anime: its snapshot and its assets are gone and no
  snapshot is persisted, whatever the diff type.  For a manga job whose media has no
  chapter container, \<^verbatim>\<open>synchronizeManga\<close> removes the manga (snapshot and assets) when
  the remote manga collection is present, the manga is found in it and the entry found
  has a status, which are the three guards it passes before it looks at the chapter
  containers; when one of the three guards fails, the stored manga snapshots and the
  assets are exactly those from before, and so is the whole state but for the log:
  nothing is removed and nothing is persisted.
\<close>

theorem no_dependencies_removes:
  "(AnimeEntry da = Some ea \<and> Media ea = Some pa \<and> ida = ID (mediaObjs (memory q) pa) \<and>
    (\<forall>f \<in> set (localFiles q). LocalFileMediaId f \<noteq> ida) \<longrightarrow>
      dbAnimeSnapshots (synchronizeAnime env da q) = filter (\<lambda>s. MediaId s \<noteq> ida) (dbAnimeSnapshots q) \<and>
      localAssets (synchronizeAnime env da q) = filter (\<lambda>a. fst a \<noteq> ida) (localAssets q)) \<and>
   (MangaEntry dm = Some em \<and> Media em = Some pm \<and> idm = ID (mediaObjs (memory q) pm) \<and>
    (\<forall>c \<in> set (downloadedChapterContainers q). ContainerMediaId c \<noteq> idm) \<longrightarrow>
      ((\<exists>c le. mangaCollection q = Some c \<and> GetListEntryFromMangaId env (memory q) c idm = Some le \<and>
               EntryStatus le \<noteq> None) \<longrightarrow>
         dbMangaSnapshots (synchronizeManga env dm q) = filter (\<lambda>s. MediaId s \<noteq> idm) (dbMangaSnapshots q) \<and>
         localAssets (synchronizeManga env dm q) = filter (\<lambda>a. fst a \<noteq> idm) (localAssets q)) \<and>
      (\<not> (\<exists>c le. mangaCollection q = Some c \<and> GetListEntryFromMangaId env (memory q) c idm = Some le \<and>
                 EntryStatus le \<noteq> None) \<longrightarrow>
         dbMangaSnapshots (synchronizeManga env dm q) = dbMangaSnapshots q \<and>
         localAssets (synchronizeManga env dm q) = localAssets q \<and>
         (synchronizeManga env dm q)\<lparr>logger := logger q\<rparr> = q))"
proof (intro conjI impI; (elim conjE)?)
  assume a: "AnimeEntry da = Some ea" "Media ea = Some pa" "ida = ID (mediaObjs (memory q) pa)"
    and nf: "\<forall>f \<in> set (localFiles q). LocalFileMediaId f \<noteq> ida"
  have eq: "synchronizeAnime env da q = removeAnime ida
       (logMsg WarnLevel ''sync: No local files found for anime, removing from the local database'' q)"
    using synchronizeAnime_no_files[OF a(1,2), of q env] nf a(3) by auto
  show "dbAnimeSnapshots (synchronizeAnime env da q) = filter (\<lambda>s. MediaId s \<noteq> ida) (dbAnimeSnapshots q)"
    by (simp add: eq removeAnime_def logMsg_def)
  show "localAssets (synchronizeAnime env da q) = filter (\<lambda>a. fst a \<noteq> ida) (localAssets q)"
    by (simp add: eq removeAnime_def logMsg_def)
next
  assume m: "MangaEntry dm = Some em" "Media em = Some pm" "idm = ID (mediaObjs (memory q) pm)"
    and nc: "\<forall>c \<in> set (downloadedChapterContainers q). ContainerMediaId c \<noteq> idm"
    and "\<exists>c le. mangaCollection q = Some c \<and> GetListEntryFromMangaId env (memory q) c idm = Some le \<and>
                     EntryStatus le \<noteq> None"
  then obtain c le where c: "mangaCollection q = Some c"
     "GetListEntryFromMangaId env (memory q) c idm = Some le" "EntryStatus le \<noteq> None" by blast
  have eq: "synchronizeManga env dm q = removeManga idm q"
    using synchronizeManga_no_containers[OF m(1,2) c(1), of env le] c(2,3) nc m(3) by auto
  show "dbMangaSnapshots (synchronizeManga env dm q) = filter (\<lambda>s. MediaId s \<noteq> idm) (dbMangaSnapshots q)"
    by (simp add: eq removeManga_def)
  show "localAssets (synchronizeManga env dm q) = filter (\<lambda>a. fst a \<noteq> idm) (localAssets q)"
    by (simp add: eq removeManga_def)
next
  assume m: "MangaEntry dm = Some em" "Media em = Some pm" "idm = ID (mediaObjs (memory q) pm)"
    and g: "\<not> (\<exists>c le. mangaCollection q = Some c \<and> GetListEntryFromMangaId env (memory q) c idm = Some le \<and>
                 EntryStatus le \<noteq> None)"
  have eq: "synchronizeManga env dm q = q \<or>
            synchronizeManga env dm q = logMsg ErrorLevel ''sync: Failed to get manga'' q"
    using synchronizeManga_guard_fails[OF m(1,2), of q env] g m(3) by simp
  show "dbMangaSnapshots (synchronizeManga env dm q) = dbMangaSnapshots q"
    using eq by (auto simp: logMsg_def)
  show "localAssets (synchronizeManga env dm q) = localAssets q"
    using eq by (auto simp: logMsg_def)
  show "(synchronizeManga env dm q)\<lparr>logger := logger q\<rparr> = q"
    using eq by (auto simp: logMsg_def)
qed

text \<open>
  The claim as stated fails for manga: with no chapter container for media 7 and a remote
  manga collection that no longer lists it, \<^verbatim>\<open>synchronizeManga\<close> returns at
  "Failed to get manga" and the snapshot of media 7 stays in the database.
\<close>

lemma ex_manga_gone: "synchronizeManga exEnv (exMangaDiff DiffTypeMetadata)
         (exSyncer\<lparr>mangaCollection := Some \<lparr>MediaListCollection = Some []\<rparr>, downloadedChapterContainers := []\<rparr>)
 = logMsg ErrorLevel ''sync: Failed to get manga'' (exSyncer\<lparr>mangaCollection := Some \<lparr>MediaListCollection = Some []\<rparr>, downloadedChapterContainers := []\<rparr>)"
  by (simp add: synchronizeManga_def ex_defs findListEntry_def GetLists_def)

theorem manga_not_removed_counterexample:
  "downloadedChapterContainers (exSyncer\<lparr>mangaCollection := Some \<lparr>MediaListCollection = Some []\<rparr>,
                                      downloadedChapterContainers := []\<rparr>) = [] \<and>
   exMangaSnapshot \<in> set (dbMangaSnapshots
      (synchronizeManga exEnv (exMangaDiff DiffTypeMetadata)
         (exSyncer\<lparr>mangaCollection := Some \<lparr>MediaListCollection = Some []\<rparr>,
                   downloadedChapterContainers := []\<rparr>))) \<and>
   MediaId exMangaSnapshot = ID (mediaObjs (memory exSyncer) 1) \<and>
   MangaEntry (exMangaDiff DiffTypeMetadata) = Some exMangaEntry \<and> Media exMangaEntry = Some 1"
  unfolding ex_manga_gone
  by (simp add: ex_defs logMsg_def)


lemma frame_sendAnime [simp]:
  "animeJobQueue (sendAnimeToFailedQueue e q) = animeJobQueue q"
  "mangaJobQueue (sendAnimeToFailedQueue e q) = mangaJobQueue q"
  "dbAnimeSnapshots (sendAnimeToFailedQueue e q) = dbAnimeSnapshots q"
  by (auto simp: sendAnimeToFailedQueue_def split: option.splits)

lemma frame_sendManga [simp]:
  "animeJobQueue (sendMangaToFailedQueue e q) = animeJobQueue q"
  "mangaJobQueue (sendMangaToFailedQueue e q) = mangaJobQueue q"
  "dbMangaSnapshots (sendMangaToFailedQueue e q) = dbMangaSnapshots q"
  by (auto simp: sendMangaToFailedQueue_def split: option.splits)

lemma frame_logMsg [simp]:
  "animeJobQueue (logMsg l m q) = animeJobQueue q"
  "mangaJobQueue (logMsg l m q) = mangaJobQueue q"
  "dbAnimeSnapshots (logMsg l m q) = dbAnimeSnapshots q"
  "dbMangaSnapshots (logMsg l m q) = dbMangaSnapshots q"
  "failedAnimeQueue (logMsg l m q) = failedAnimeQueue q"
  "failedMangaQueue (logMsg l m q) = failedMangaQueue q"
  by (auto simp: logMsg_def)

lemma synchronizeAnime_queues:
  "animeJobQueue (synchronizeAnime env d q) = animeJobQueue q \<and>
   mangaJobQueue (synchronizeAnime env d q) = mangaJobQueue q"
  by (auto simp: synchronizeAnime_def syncMissingAnime_def syncStaleAnime_def Let_def
      removeAnime_def SaveAnimeSnapshot_def
      split: option.splits sum.splits)

lemma synchronizeManga_queues:
  "animeJobQueue (synchronizeManga env d q) = animeJobQueue q \<and>
   mangaJobQueue (synchronizeManga env d q) = mangaJobQueue q"
  by (auto simp: synchronizeManga_def syncMissingManga_def syncStaleManga_def Let_def
      removeManga_def SaveMangaSnapshot_def
      split: option.splits sum.splits)

lemma synchronizeAnime_reached:
  assumes "AnimeEntry d = Some e" "Media e = Some p"
    and "\<exists>f \<in> set (localFiles q). LocalFileMediaId f = ID (mediaObjs (memory q) p)"
  shows "synchronizeAnime env d q =
     (if AnimeDiffType d = DiffTypeMissing \<or> AnimeDiffType d = DiffTypeMetadata then
        (case GetAnimeMetadata env (ID (mediaObjs (memory q) p)) of
           Inl err \<Rightarrow> logMsg ErrorLevel ''sync: Failed to get metadata for anime'' (sendAnimeToFailedQueue e q)
         | Inr animeMetadata \<Rightarrow>
             if AnimeDiffType d = DiffTypeMissing then
               syncMissingAnime env e (mediaObjs (memory q) p) animeMetadata q
             else (case AnimeSnap d of None \<Rightarrow> q
                   | Some old \<Rightarrow> syncStaleAnime env e (mediaObjs (memory q) p) animeMetadata old q))
      else q)"
proof -
  have "foundLocalFiles (localFiles q) (ID (mediaObjs (memory q) p))"
    using assms(3) by (simp add: foundLocalFiles_iff)
  then show ?thesis
    using assms(1,2) by (simp add: synchronizeAnime_def Let_def)
qed

lemma synchronizeManga_reached:
  assumes "MangaEntry d = Some e" "Media e = Some p" "mangaCollection q = Some c"
    and "GetListEntryFromMangaId env (memory q) c (ID (mediaObjs (memory q) p)) = Some le"
    and "EntryStatus le \<noteq> None"
    and "filter (\<lambda>c. ContainerMediaId c = ID (mediaObjs (memory q) p)) (downloadedChapterContainers q) = cs"
    and "cs \<noteq> []"
  shows "synchronizeManga env d q =
     (if MangaDiffType d = DiffTypeMissing then syncMissingManga env e (mediaObjs (memory q) p) cs q
      else if MangaDiffType d = DiffTypeMetadata then
        (case MangaSnap d of None \<Rightarrow> q | Some old \<Rightarrow> syncStaleManga env e (mediaObjs (memory q) p) cs old q)
      else q)"
  using assms by (auto simp add: synchronizeManga_def Let_def)

lemma sendAnime_failed:
  "Media e = Some p \<Longrightarrow> failedAnimeQueue (sendAnimeToFailedQueue e q) = (failedAnimeQueue q)(ID (mediaObjs (memory q) p) \<mapsto> e)"
  by (simp add: sendAnimeToFailedQueue_def)

lemma sendManga_failed:
  "Media e = Some p \<Longrightarrow> failedMangaQueue (sendMangaToFailedQueue e q) = (failedMangaQueue q)(ID (mediaObjs (memory q) p) \<mapsto> e)"
  by (simp add: sendMangaToFailedQueue_def)

lemma synchronizeManga_lookup_fails:
  assumes "MangaEntry d = Some e" "Media e = Some p" "mangaCollection q = Some c"
    and "GetListEntryFromMangaId env (memory q) c (ID (mediaObjs (memory q) p)) = None"
  shows "synchronizeManga env d q = logMsg ErrorLevel ''sync: Failed to get manga'' q"
  using assms by (simp add: synchronizeManga_def Let_def)

lemma synchronizeAnime_no_media:
  "AnimeEntry d = Some e \<Longrightarrow> Media e = None \<Longrightarrow> synchronizeAnime env d q = q"
  by (simp add: synchronizeAnime_def)

lemma synchronizeManga_no_media:
  "MangaEntry d = Some e \<Longrightarrow> Media e = None \<Longrightarrow> synchronizeManga env d q = q"
  by (simp add: synchronizeManga_def)

text \<open>
  Claim C6, as amended.  Neither routine ever changes a job queue.  For an anime job
  whose media has a local file, each of the three named failures (metadata fetch, image
  download, snapshot save) puts the remote entry into the failed anime queue under the
  entry's media ID, and after a failed metadata fetch or image download the stored anime
  snapshots are the ones from before.  For a manga job that passes the three guards and
  has a chapter container, a failed image download and a failed snapshot save put the
  remote entry into the failed manga queue under the entry's media ID, and after a
  failed image download the stored manga snapshots are the ones from before.  The anime
  part asks nothing of the manga data and the manga part nothing of the anime data.
  When the manga is not found in the remote collection, \<^verbatim>\<open>synchronizeManga\<close> logs
  "Failed to get manga" and leaves both failed queues as they are; and a job whose entry
  has no media (the routine panics and recovers) leaves both failed queues as they are.
\<close>

theorem named_failures_routed:
  "animeJobQueue (synchronizeAnime env da q) = animeJobQueue q \<and>
   mangaJobQueue (synchronizeAnime env da q) = mangaJobQueue q \<and>
   animeJobQueue (synchronizeManga env dm q) = animeJobQueue q \<and>
   mangaJobQueue (synchronizeManga env dm q) = mangaJobQueue q \<and>
   (AnimeEntry da = Some ea \<and> Media ea = Some pa \<and> ma = mediaObjs (memory q) pa \<and>
    (\<exists>f \<in> set (localFiles q). LocalFileMediaId f = ID ma) \<and>
    qa = synchronizeAnime env da q \<and>
    routedA = (failedAnimeQueue qa = (failedAnimeQueue q)(ID ma \<mapsto> ea)) \<longrightarrow>
     ((AnimeDiffType da = DiffTypeMissing \<or> AnimeDiffType da = DiffTypeMetadata) \<and>
        GetAnimeMetadata env (ID ma) = Inl err
        \<longrightarrow> routedA \<and> dbAnimeSnapshots qa = dbAnimeSnapshots q) \<and>
     (AnimeDiffType da = DiffTypeMissing \<and> GetAnimeMetadata env (ID ma) = Inr md \<and>
        \<not> animeImagesOk (DownloadAnimeImages env ea md)
        \<longrightarrow> routedA \<and> dbAnimeSnapshots qa = dbAnimeSnapshots q) \<and>
     (AnimeDiffType da = DiffTypeMetadata \<and> AnimeSnap da = Some old \<and> GetAnimeMetadata env (ID ma) = Inr md \<and>
        urls = episodeImageUrlsToDownload (currentEpisodeImageUrls md) (EpisodeImagePaths old) \<and>
        dom urls \<noteq> {} \<and> \<not> episodeImagesOk (DownloadAnimeEpisodeImages env (ID ma) urls)
        \<longrightarrow> routedA \<and> dbAnimeSnapshots qa = dbAnimeSnapshots q) \<and>
     (AnimeDiffType da = DiffTypeMissing \<and> GetAnimeMetadata env (ID ma) = Inr md \<and>
        animeImagesOk (DownloadAnimeImages env ea md) \<and>
        SaveAnimeSnapshotErr env (newAnimeSnapshot env ma md (DownloadAnimeImages env ea md) (localFiles q)) = Some err
        \<longrightarrow> routedA) \<and>
     (AnimeDiffType da = DiffTypeMetadata \<and> AnimeSnap da = Some old \<and> GetAnimeMetadata env (ID ma) = Inr md \<and>
        urls = episodeImageUrlsToDownload (currentEpisodeImageUrls md) (EpisodeImagePaths old) \<and>
        (dom urls = {} \<or> episodeImagesOk (DownloadAnimeEpisodeImages env (ID ma) urls)) \<and>
        SaveAnimeSnapshotErr env
          ((refreshedAnimeSnapshot env ma md (localFiles q) old)
             \<lparr>EpisodeImagePaths := EpisodeImagePaths old ++
                (if dom urls = {} then Map.empty else episodePaths (DownloadAnimeEpisodeImages env (ID ma) urls))\<rparr>)
          = Some err
        \<longrightarrow> routedA)) \<and>
   (MangaEntry dm = Some em \<and> Media em = Some pm \<and> mm = mediaObjs (memory q) pm \<and>
    mangaCollection q = Some c \<and> GetListEntryFromMangaId env (memory q) c (ID mm) = Some le \<and>
    EntryStatus le \<noteq> None \<and>
    cs = filter (\<lambda>c. ContainerMediaId c = ID mm) (downloadedChapterContainers q) \<and> cs \<noteq> [] \<and>
    qm = synchronizeManga env dm q \<and>
    routedM = (failedMangaQueue qm = (failedMangaQueue q)(ID mm \<mapsto> em)) \<longrightarrow>
     (MangaDiffType dm = DiffTypeMissing \<and> \<not> mangaImagesOk (DownloadMangaImages env em)
        \<longrightarrow> routedM \<and> dbMangaSnapshots qm = dbMangaSnapshots q) \<and>
     (MangaDiffType dm = DiffTypeMissing \<and> mangaImagesOk (DownloadMangaImages env em) \<and>
        SaveMangaSnapshotErr env (newMangaSnapshot env mm (DownloadMangaImages env em) cs) = Some err
        \<longrightarrow> routedM) \<and>
     (MangaDiffType dm = DiffTypeMetadata \<and> MangaSnap dm = Some oldm \<and>
        SaveMangaSnapshotErr env (refreshedMangaSnapshot env mm cs oldm) = Some err
        \<longrightarrow> routedM)) \<and>
   (MangaEntry dm = Some em \<and> Media em = Some pm \<and> mangaCollection q = Some c \<and>
    GetListEntryFromMangaId env (memory q) c (ID (mediaObjs (memory q) pm)) = None \<longrightarrow>
      logger (synchronizeManga env dm q) = logger q @ [(ErrorLevel, ''sync: Failed to get manga'')] \<and>
      failedMangaQueue (synchronizeManga env dm q) = failedMangaQueue q \<and>
      failedAnimeQueue (synchronizeManga env dm q) = failedAnimeQueue q) \<and>
   (AnimeEntry da = Some ea \<and> Media ea = None \<longrightarrow>
      failedAnimeQueue (synchronizeAnime env da q) = failedAnimeQueue q \<and>
      failedMangaQueue (synchronizeAnime env da q) = failedMangaQueue q) \<and>
   (MangaEntry dm = Some em \<and> Media em = None \<longrightarrow>
      failedAnimeQueue (synchronizeManga env dm q) = failedAnimeQueue q \<and>
      failedMangaQueue (synchronizeManga env dm q) = failedMangaQueue q)"
proof -
  have q1: "animeJobQueue (synchronizeAnime env da q) = animeJobQueue q \<and>
            mangaJobQueue (synchronizeAnime env da q) = mangaJobQueue q"
    by (rule synchronizeAnime_queues)
  have q2: "animeJobQueue (synchronizeManga env dm q) = animeJobQueue q \<and>
            mangaJobQueue (synchronizeManga env dm q) = mangaJobQueue q"
    by (rule synchronizeManga_queues)
  have anime: "((AnimeDiffType da = DiffTypeMissing \<or> AnimeDiffType da = DiffTypeMetadata) \<and>
        GetAnimeMetadata env (ID ma) = Inl err
        \<longrightarrow> routedA \<and> dbAnimeSnapshots qa = dbAnimeSnapshots q) \<and>
     (AnimeDiffType da = DiffTypeMissing \<and> GetAnimeMetadata env (ID ma) = Inr md \<and>
        \<not> animeImagesOk (DownloadAnimeImages env ea md)
        \<longrightarrow> routedA \<and> dbAnimeSnapshots qa = dbAnimeSnapshots q) \<and>
     (AnimeDiffType da = DiffTypeMetadata \<and> AnimeSnap da = Some old \<and> GetAnimeMetadata env (ID ma) = Inr md \<and>
        urls = episodeImageUrlsToDownload (currentEpisodeImageUrls md) (EpisodeImagePaths old) \<and>
        dom urls \<noteq> {} \<and> \<not> episodeImagesOk (DownloadAnimeEpisodeImages env (ID ma) urls)
        \<longrightarrow> routedA \<and> dbAnimeSnapshots qa = dbAnimeSnapshots q) \<and>
     (AnimeDiffType da = DiffTypeMissing \<and> GetAnimeMetadata env (ID ma) = Inr md \<and>
        animeImagesOk (DownloadAnimeImages env ea md) \<and>
        SaveAnimeSnapshotErr env (newAnimeSnapshot env ma md (DownloadAnimeImages env ea md) (localFiles q)) = Some err
        \<longrightarrow> routedA) \<and>
     (AnimeDiffType da = DiffTypeMetadata \<and> AnimeSnap da = Some old \<and> GetAnimeMetadata env (ID ma) = Inr md \<and>
        urls = episodeImageUrlsToDownload (currentEpisodeImageUrls md) (EpisodeImagePaths old) \<and>
        (dom urls = {} \<or> episodeImagesOk (DownloadAnimeEpisodeImages env (ID ma) urls)) \<and>
        SaveAnimeSnapshotErr env
          ((refreshedAnimeSnapshot env ma md (localFiles q) old)
             \<lparr>EpisodeImagePaths := EpisodeImagePaths old ++
                (if dom urls = {} then Map.empty else episodePaths (DownloadAnimeEpisodeImages env (ID ma) urls))\<rparr>)
          = Some err
        \<longrightarrow> routedA)"
    if h: "AnimeEntry da = Some ea" "Media ea = Some pa" "ma = mediaObjs (memory q) pa"
      "\<exists>f \<in> set (localFiles q). LocalFileMediaId f = ID ma"
      "qa = synchronizeAnime env da q"
      "routedA = (failedAnimeQueue qa = (failedAnimeQueue q)(ID ma \<mapsto> ea))"
  proof -
    have A: "qa = (if AnimeDiffType da = DiffTypeMissing \<or> AnimeDiffType da = DiffTypeMetadata then
        (case GetAnimeMetadata env (ID ma) of
           Inl err \<Rightarrow> logMsg ErrorLevel ''sync: Failed to get metadata for anime'' (sendAnimeToFailedQueue ea q)
         | Inr animeMetadata \<Rightarrow>
             if AnimeDiffType da = DiffTypeMissing then syncMissingAnime env ea ma animeMetadata q
             else (case AnimeSnap da of None \<Rightarrow> q | Some old \<Rightarrow> syncStaleAnime env ea ma animeMetadata old q))
      else q)"
      unfolding h(3,5) using synchronizeAnime_reached[OF h(1,2), of q env] h(4)[unfolded h(3)] by simp
    note sA = sendAnime_failed[OF h(2)]
    have c1: "(AnimeDiffType da = DiffTypeMissing \<or> AnimeDiffType da = DiffTypeMetadata) \<and>
        GetAnimeMetadata env (ID ma) = Inl err
        \<longrightarrow> routedA \<and> dbAnimeSnapshots qa = dbAnimeSnapshots q"
      using sA by (auto simp: A h(3,6))
    have c2: "AnimeDiffType da = DiffTypeMissing \<and> GetAnimeMetadata env (ID ma) = Inr md \<and>
        \<not> animeImagesOk (DownloadAnimeImages env ea md)
        \<longrightarrow> routedA \<and> dbAnimeSnapshots qa = dbAnimeSnapshots q"
      by (auto simp: A h(3,6) syncMissingAnime_def Let_def sendAnimeToFailedQueue_def h(2))
    have c3: "AnimeDiffType da = DiffTypeMetadata \<and> AnimeSnap da = Some old \<and> GetAnimeMetadata env (ID ma) = Inr md \<and>
        urls = episodeImageUrlsToDownload (currentEpisodeImageUrls md) (EpisodeImagePaths old) \<and>
        dom urls \<noteq> {} \<and> \<not> episodeImagesOk (DownloadAnimeEpisodeImages env (ID ma) urls)
        \<longrightarrow> routedA \<and> dbAnimeSnapshots qa = dbAnimeSnapshots q"
      by (auto simp: A h(3,6) syncStaleAnime_def Let_def sendAnimeToFailedQueue_def h(2)
          refreshedAnimeSnapshot_def)
    have c4: "AnimeDiffType da = DiffTypeMissing \<and> GetAnimeMetadata env (ID ma) = Inr md \<and>
        animeImagesOk (DownloadAnimeImages env ea md) \<and>
        SaveAnimeSnapshotErr env (newAnimeSnapshot env ma md (DownloadAnimeImages env ea md) (localFiles q)) = Some err
        \<longrightarrow> routedA"
      by (auto simp: A h(3,6) syncMissingAnime_def Let_def sendAnimeToFailedQueue_def h(2)
          SaveAnimeSnapshot_def)
    have c5: "AnimeDiffType da = DiffTypeMetadata \<and> AnimeSnap da = Some old \<and> GetAnimeMetadata env (ID ma) = Inr md \<and>
        urls = episodeImageUrlsToDownload (currentEpisodeImageUrls md) (EpisodeImagePaths old) \<and>
        (dom urls = {} \<or> episodeImagesOk (DownloadAnimeEpisodeImages env (ID ma) urls)) \<and>
        SaveAnimeSnapshotErr env
          ((refreshedAnimeSnapshot env ma md (localFiles q) old)
             \<lparr>EpisodeImagePaths := EpisodeImagePaths old ++
                (if dom urls = {} then Map.empty else episodePaths (DownloadAnimeEpisodeImages env (ID ma) urls))\<rparr>)
          = Some err
        \<longrightarrow> routedA"
      by (auto simp: A h(3,6) syncStaleAnime_def Let_def sendAnimeToFailedQueue_def h(2)
          SaveAnimeSnapshot_def refreshedAnimeSnapshot_def)
    from c1 c2 c3 c4 c5 show ?thesis by (intro conjI)
  qed
  have manga: "(MangaDiffType dm = DiffTypeMissing \<and> \<not> mangaImagesOk (DownloadMangaImages env em)
        \<longrightarrow> routedM \<and> dbMangaSnapshots qm = dbMangaSnapshots q) \<and>
     (MangaDiffType dm = DiffTypeMissing \<and> mangaImagesOk (DownloadMangaImages env em) \<and>
        SaveMangaSnapshotErr env (newMangaSnapshot env mm (DownloadMangaImages env em) cs) = Some err
        \<longrightarrow> routedM) \<and>
     (MangaDiffType dm = DiffTypeMetadata \<and> MangaSnap dm = Some oldm \<and>
        SaveMangaSnapshotErr env (refreshedMangaSnapshot env mm cs oldm) = Some err
        \<longrightarrow> routedM)"
    if h: "MangaEntry dm = Some em" "Media em = Some pm" "mm = mediaObjs (memory q) pm"
      "mangaCollection q = Some c" "GetListEntryFromMangaId env (memory q) c (ID mm) = Some le"
      "EntryStatus le \<noteq> None"
      "cs = filter (\<lambda>c. ContainerMediaId c = ID mm) (downloadedChapterContainers q)" "cs \<noteq> []"
      "qm = synchronizeManga env dm q"
      "routedM = (failedMangaQueue qm = (failedMangaQueue q)(ID mm \<mapsto> em))"
  proof -
    have M: "qm = (if MangaDiffType dm = DiffTypeMissing then syncMissingManga env em mm cs q
      else if MangaDiffType dm = DiffTypeMetadata then
        (case MangaSnap dm of None \<Rightarrow> q | Some old \<Rightarrow> syncStaleManga env em mm cs old q)
      else q)"
      unfolding h(9) using synchronizeManga_reached[OF h(1,2,4), of env le cs] h(5,6,7,8) unfolding h(3) by simp
    have c6: "MangaDiffType dm = DiffTypeMissing \<and> \<not> mangaImagesOk (DownloadMangaImages env em)
        \<longrightarrow> routedM \<and> dbMangaSnapshots qm = dbMangaSnapshots q"
      by (auto simp: M h(3,10) syncMissingManga_def Let_def sendMangaToFailedQueue_def h(2))
    have c7: "MangaDiffType dm = DiffTypeMissing \<and> mangaImagesOk (DownloadMangaImages env em) \<and>
        SaveMangaSnapshotErr env (newMangaSnapshot env mm (DownloadMangaImages env em) cs) = Some err
        \<longrightarrow> routedM"
      by (auto simp: M h(3,10) syncMissingManga_def Let_def sendMangaToFailedQueue_def h(2)
          SaveMangaSnapshot_def)
    have c8: "MangaDiffType dm = DiffTypeMetadata \<and> MangaSnap dm = Some oldm \<and>
        SaveMangaSnapshotErr env (refreshedMangaSnapshot env mm cs oldm) = Some err
        \<longrightarrow> routedM"
      by (auto simp: M h(3,10) syncStaleManga_def Let_def sendMangaToFailedQueue_def h(2)
          SaveMangaSnapshot_def)
    from c6 c7 c8 show ?thesis by (intro conjI)
  qed
  have lookup: "logger (synchronizeManga env dm q) = logger q @ [(ErrorLevel, ''sync: Failed to get manga'')] \<and>
      failedMangaQueue (synchronizeManga env dm q) = failedMangaQueue q \<and>
      failedAnimeQueue (synchronizeManga env dm q) = failedAnimeQueue q"
    if "MangaEntry dm = Some em" "Media em = Some pm" "mangaCollection q = Some c"
      "GetListEntryFromMangaId env (memory q) c (ID (mediaObjs (memory q) pm)) = None"
    unfolding synchronizeManga_lookup_fails[OF that] by (simp add: logMsg_def)
  have pa: "failedAnimeQueue (synchronizeAnime env da q) = failedAnimeQueue q \<and>
      failedMangaQueue (synchronizeAnime env da q) = failedMangaQueue q"
    if "AnimeEntry da = Some ea" "Media ea = None"
    unfolding synchronizeAnime_no_media[OF that] by simp
  have pm: "failedAnimeQueue (synchronizeManga env dm q) = failedAnimeQueue q \<and>
      failedMangaQueue (synchronizeManga env dm q) = failedMangaQueue q"
    if "MangaEntry dm = Some em" "Media em = None"
    unfolding synchronizeManga_no_media[OF that] by simp
  show ?thesis
    apply (intro conjI)
            apply (rule q1[THEN conjunct1])
           apply (rule q1[THEN conjunct2])
          apply (rule q2[THEN conjunct1])
         apply (rule q2[THEN conjunct2])
    subgoal using anime by blast
    subgoal using manga by blast
    subgoal using lookup by blast
    subgoal using pa by blast
    subgoal using pm by blast
    done
qed


lemma refreshed_paths [simp]:
  "EpisodeImagePaths (refreshedAnimeSnapshot env m md lfs old) = EpisodeImagePaths old"
  by (simp add: refreshedAnimeSnapshot_def)

text \<open>
  Claim C7.  For an anime diff of type metadata that carries a prior snapshot (the media
  has local files and the metadata fetch succeeds), \<^verbatim>\<open>synchronizeAnime\<close> asks the
  downloader for exactly the episode images whose key is in the fresh metadata with a
  non-empty image URL and is not a key of the snapshot's episode image paths, and makes
  no call when there is none; no key of the snapshot is among them.  When the download
  and the save succeed, the stored snapshot is the prior one with the fresh metadata,
  the recomputed reference key and the old paths merged with the downloaded ones, and
  the paths the snapshot had are unchanged as long as the downloader answers for
  requested keys only.
\<close>

theorem stale_anime_downloads_missing_only:
  assumes "AnimeEntry d = Some e" "Media e = Some p" "m = mediaObjs (memory q) p"
    and "\<exists>f \<in> set (localFiles q). LocalFileMediaId f = ID m"
    and "AnimeDiffType d = DiffTypeMetadata" "AnimeSnap d = Some old"
    and "GetAnimeMetadata env (ID m) = Inr md"
    and "missing = (\<lambda>k. case Episodes md k of None \<Rightarrow> None
                       | Some ep \<Rightarrow> if Image ep \<noteq> [] \<and> k \<notin> dom (EpisodeImagePaths old)
                                   then Some (Image ep) else None)"
    and "r = DownloadAnimeEpisodeImages env (ID m) missing"
    and "new = (if dom missing = {} then Map.empty else episodePaths r)"
    and "saved = old\<lparr>ReferenceKey := GetAnimeReferenceKey env m (localFiles q),
                      LocalMetadata := md,
                      EpisodeImagePaths := EpisodeImagePaths old ++ new\<rparr>"
    and "q' = synchronizeAnime env d q"
  shows "imageDownloads q' = imageDownloads q @ (if dom missing = {} then [] else [EpisodeImagesCall (ID m) missing]) \<and>
         (\<forall>k \<in> dom (EpisodeImagePaths old). missing k = None) \<and>
         ((dom missing = {} \<or> episodeImagesOk r) \<and> SaveAnimeSnapshotErr env saved = None \<longrightarrow>
            dbAnimeSnapshots q' = putSnapshot saved (dbAnimeSnapshots q) \<and>
            saved \<in> set (dbAnimeSnapshots q') \<and>
            (dom new \<subseteq> dom missing \<longrightarrow>
               (\<forall>k \<in> dom (EpisodeImagePaths old). EpisodeImagePaths saved k = EpisodeImagePaths old k)))"
proof -
  have miss: "episodeImageUrlsToDownload (currentEpisodeImageUrls md) (EpisodeImagePaths old) = missing"
    unfolding assms(8)
    by (auto simp: episodeImageUrlsToDownload_def currentEpisodeImageUrls_def fun_eq_iff
        split: option.splits)
  have Q: "q' = syncStaleAnime env e m md old q"
    unfolding assms(12) using synchronizeAnime_reached[OF assms(1,2), of q env]
      assms(4)[unfolded assms(3)] assms(5,6) assms(7)[unfolded assms(3)]
    unfolding assms(3) by simp
  have sv: "saved = (refreshedAnimeSnapshot env m md (localFiles q) old)
               \<lparr>EpisodeImagePaths := EpisodeImagePaths old ++ new\<rparr>"
    by (simp add: assms(11) refreshedAnimeSnapshot_def)
  have sv0: "dom missing = {} \<Longrightarrow> saved = refreshedAnimeSnapshot env m md (localFiles q) old"
    by (simp add: assms(11,10) refreshedAnimeSnapshot_def)
  have d1: "imageDownloads q' = imageDownloads q @
       (if dom missing = {} then [] else [EpisodeImagesCall (ID m) missing])"
    unfolding Q
    by (auto simp: syncStaleAnime_def Let_def miss SaveAnimeSnapshot_def sendAnimeToFailedQueue_def
        logMsg_def split: sum.splits option.splits)
  have d2: "\<forall>k \<in> dom (EpisodeImagePaths old). missing k = None"
    by (auto simp: assms(8) split: option.splits)
  have d3: "dbAnimeSnapshots q' = putSnapshot saved (dbAnimeSnapshots q)"
    if "dom missing = {} \<or> episodeImagesOk r" "SaveAnimeSnapshotErr env saved = None"
  proof (cases "dom missing = {}")
    case True
    then show ?thesis
      using that(2) unfolding Q sv0[OF True]
      by (simp add: syncStaleAnime_def Let_def miss SaveAnimeSnapshot_def)
  next
    case False
    then have ok: "episodeImagesOk (DownloadAnimeEpisodeImages env (ID m) missing)"
      using that(1) assms(9) by simp
    have n: "new = episodePaths (DownloadAnimeEpisodeImages env (ID m) missing)"
      using False by (simp add: assms(10,9))
    show ?thesis
      using that(2) False ok unfolding Q sv n
      by (simp add: syncStaleAnime_def Let_def miss SaveAnimeSnapshot_def)
  qed
  have d4: "\<forall>k \<in> dom (EpisodeImagePaths old). EpisodeImagePaths saved k = EpisodeImagePaths old k"
    if "dom new \<subseteq> dom missing"
  proof
    fix k assume k: "k \<in> dom (EpisodeImagePaths old)"
    then have "missing k = None" using d2 by blast
    then have "new k = None" using that by (auto simp: dom_def)
    then show "EpisodeImagePaths saved k = EpisodeImagePaths old k"
      by (simp add: assms(11) map_add_def)
  qed
  show ?thesis
    using d1 d2 d3 d4 putSnapshot_mem[of saved "dbAnimeSnapshots q"] by auto
qed

lemma exMissing:
  "(\<lambda>k. case Episodes exMetadata k of None \<Rightarrow> None
        | Some ep \<Rightarrow> if Image ep \<noteq> [] \<and> k \<notin> dom (EpisodeImagePaths exAnimeSnapshot)
                    then Some (Image ep) else None) = [''2'' \<mapsto> ''https://img.example/e2.jpg'']"
  by (auto simp: fun_eq_iff exMetadata_def exAnimeSnapshot_def)

theorem stale_anime_downloads_missing_only_witness:
  "imageDownloads (synchronizeAnime exEnv (exAnimeDiff DiffTypeMetadata) exSyncer)
     = [EpisodeImagesCall 101 [''2'' \<mapsto> ''https://img.example/e2.jpg'']] \<and>
   dbAnimeSnapshots (synchronizeAnime exEnv (exAnimeDiff DiffTypeMetadata) exSyncer)
     = [exAnimeSnapshot\<lparr>ReferenceKey := ''/library/frieren-01.mkv'',
                        LocalMetadata := exMetadata,
                        EpisodeImagePaths := [''1'' \<mapsto> ''episode-1.jpg'', ''2'' \<mapsto> ''episode-2.jpg'']\<rparr>]"
proof -
  have paths: "EpisodeImagePaths exAnimeSnapshot ++ [''2'' \<mapsto> ''episode-2.jpg'']
                 = [''1'' \<mapsto> ''episode-1.jpg'', ''2'' \<mapsto> ''episode-2.jpg'']"
    by (simp add: exAnimeSnapshot_def)
  have mem: "mediaObjs (memory exSyncer) 0 = exAnime" "ID exAnime = 101"
    by (simp_all add: exSyncer_def exHeap_def exAnime_def)
  note t = stale_anime_downloads_missing_only[where d = "exAnimeDiff DiffTypeMetadata" and e = exAnimeEntry
      and p = 0 and q = exSyncer and env = exEnv and old = exAnimeSnapshot and md = exMetadata,
      OF _ _ refl _ _ _ _ refl refl refl refl refl, unfolded exMissing mem]
  have "imageDownloads (synchronizeAnime exEnv (exAnimeDiff DiffTypeMetadata) exSyncer) =
          imageDownloads exSyncer @ [EpisodeImagesCall 101 [''2'' \<mapsto> ''https://img.example/e2.jpg'']] \<and>
        dbAnimeSnapshots (synchronizeAnime exEnv (exAnimeDiff DiffTypeMetadata) exSyncer) =
          putSnapshot (exAnimeSnapshot\<lparr>ReferenceKey := GetAnimeReferenceKey exEnv exAnime (localFiles exSyncer),
                        LocalMetadata := exMetadata,
                        EpisodeImagePaths := EpisodeImagePaths exAnimeSnapshot ++
                           episodePaths (DownloadAnimeEpisodeImages exEnv 101 [''2'' \<mapsto> ''https://img.example/e2.jpg''])\<rparr>)
            (dbAnimeSnapshots exSyncer)"
    using t by (simp add: exAnimeDiff_def exAnimeEntry_def exSyncer_def exEnv_def)
  then show ?thesis
    unfolding paths
    by (simp add: exSyncer_def exEnv_def putSnapshot_def paths exAnimeSnapshot_def)
qed


theorem named_failures_routed_witness:
  "failedAnimeQueue (synchronizeAnime exFailingEnv (exAnimeDiff DiffTypeMissing) exSyncer) 101 = Some exAnimeEntry \<and>
   dbAnimeSnapshots (synchronizeAnime exFailingEnv (exAnimeDiff DiffTypeMissing) exSyncer) = [exAnimeSnapshot] \<and>
   animeJobQueue (synchronizeAnime exFailingEnv (exAnimeDiff DiffTypeMissing) exSyncer) = [] \<and>
   failedMangaQueue (synchronizeManga exFailingEnv (exMangaDiff DiffTypeMissing) exSyncer) 7 = Some exMangaEntry \<and>
   dbMangaSnapshots (synchronizeManga exFailingEnv (exMangaDiff DiffTypeMissing) exSyncer) = [exMangaSnapshot] \<and>
   mangaJobQueue (synchronizeManga exFailingEnv (exMangaDiff DiffTypeMissing) exSyncer) = [] \<and>
   logger (synchronizeManga exFailingEnv (exMangaDiff DiffTypeMissing) exDelisted)
     = [(ErrorLevel, ''sync: Failed to get manga'')] \<and>
   failedMangaQueue (synchronizeManga exFailingEnv (exMangaDiff DiffTypeMissing) exDelisted) 7 = None"
proof -
  let ?qa = "synchronizeAnime exFailingEnv (exAnimeDiff DiffTypeMissing) exSyncer"
  let ?qm = "synchronizeManga exFailingEnv (exMangaDiff DiffTypeMissing) exSyncer"
  let ?qd = "synchronizeManga exFailingEnv (exMangaDiff DiffTypeMissing) exDelisted"
  have h1: "AnimeEntry (exAnimeDiff DiffTypeMissing) = Some exAnimeEntry"
    and h1': "AnimeDiffType (exAnimeDiff DiffTypeMissing) = DiffTypeMissing"
    by (simp_all add: exAnimeDiff_def)
  have h2: "Media exAnimeEntry = Some 0" by (simp add: exAnimeEntry_def)
  have ma: "exAnime = mediaObjs (memory exSyncer) 0" and ida: "ID exAnime = 101"
    and mm: "exManga = mediaObjs (memory exSyncer) 1" and idm: "ID exManga = 7"
    by (simp_all add: exSyncer_def exHeap_def exAnime_def exManga_def)
  have h4: "\<exists>f \<in> set (localFiles exSyncer). LocalFileMediaId f = ID exAnime"
    by (simp add: exSyncer_def ida)
  have h5: "MangaEntry (exMangaDiff DiffTypeMissing) = Some exMangaEntry"
    and h5': "MangaDiffType (exMangaDiff DiffTypeMissing) = DiffTypeMissing"
    by (simp_all add: exMangaDiff_def)
  have h6: "Media exMangaEntry = Some 1" by (simp add: exMangaEntry_def)
  have h8: "mangaCollection exSyncer = Some \<lparr>MediaListCollection = Some [2]\<rparr>"
    by (simp add: exSyncer_def)
  have h9: "GetListEntryFromMangaId exFailingEnv (memory exSyncer) \<lparr>MediaListCollection = Some [2]\<rparr> (ID exManga)
                = Some exMangaEntry"
    by (simp add: exFailingEnv_def exEnv_def findListEntry_def GetLists_def exSyncer_def exHeap_def
        GetMediaID_def exMangaEntry_def exManga_def)
  have h10: "EntryStatus exMangaEntry \<noteq> None" by (simp add: exMangaEntry_def)
  have h12: "filter (\<lambda>c. ContainerMediaId c = ID exManga) (downloadedChapterContainers exSyncer) \<noteq> []"
    by (simp add: exSyncer_def idm)
  have fa: "GetAnimeMetadata exFailingEnv (ID exAnime) = Inl ''connection timed out''"
    by (simp add: exFailingEnv_def)
  have fm: "\<not> mangaImagesOk (DownloadMangaImages exFailingEnv exMangaEntry)"
    by (simp add: exFailingEnv_def)
  have d8: "mangaCollection exDelisted = Some \<lparr>MediaListCollection = Some []\<rparr>"
    by (simp add: exDelisted_def)
  have d9: "GetListEntryFromMangaId exFailingEnv (memory exDelisted) \<lparr>MediaListCollection = Some []\<rparr>
              (ID (mediaObjs (memory exDelisted) 1)) = None"
    by (simp add: exFailingEnv_def exEnv_def findListEntry_def GetLists_def)
  note t = named_failures_routed[where env = exFailingEnv
      and da = "exAnimeDiff DiffTypeMissing" and dm = "exMangaDiff DiffTypeMissing"
      and ea = exAnimeEntry and pa = 0 and ma = exAnime
      and em = exMangaEntry and pm = 1 and mm = exManga
      and err = "''connection timed out''"]
  note ta = t[where q = exSyncer and qa = ?qa
      and routedA = "failedAnimeQueue ?qa = (failedAnimeQueue exSyncer)(ID exAnime \<mapsto> exAnimeEntry)"]
  have ha: "AnimeEntry (exAnimeDiff DiffTypeMissing) = Some exAnimeEntry \<and> Media exAnimeEntry = Some 0 \<and>
      exAnime = mediaObjs (memory exSyncer) 0 \<and>
      (\<exists>f \<in> set (localFiles exSyncer). LocalFileMediaId f = ID exAnime) \<and>
      ?qa = ?qa \<and>
      ((failedAnimeQueue ?qa = (failedAnimeQueue exSyncer)(ID exAnime \<mapsto> exAnimeEntry)) =
       (failedAnimeQueue ?qa = (failedAnimeQueue exSyncer)(ID exAnime \<mapsto> exAnimeEntry)))"
    by (intro conjI refl h1 h2 ma h4)
  note ca = ta[THEN conjunct2, THEN conjunct2, THEN conjunct2, THEN conjunct2, THEN conjunct1,
      THEN mp, OF ha, THEN conjunct1, THEN mp, OF conjI[OF disjI1[OF h1'] fa]]
  have a1: "failedAnimeQueue ?qa = (failedAnimeQueue exSyncer)(ID exAnime \<mapsto> exAnimeEntry)"
    and a2: "dbAnimeSnapshots ?qa = dbAnimeSnapshots exSyncer"
    using ca by (rule conjunct1, rule conjunct2)
  have a3: "animeJobQueue ?qa = animeJobQueue exSyncer"
    by (rule ta[THEN conjunct1])
  note tm = t[where q = exSyncer and qm = ?qm and c = "\<lparr>MediaListCollection = Some [2]\<rparr>"
      and le = exMangaEntry
      and cs = "filter (\<lambda>c. ContainerMediaId c = ID exManga) (downloadedChapterContainers exSyncer)"
      and routedM = "failedMangaQueue ?qm = (failedMangaQueue exSyncer)(ID exManga \<mapsto> exMangaEntry)"]
  have hm: "MangaEntry (exMangaDiff DiffTypeMissing) = Some exMangaEntry \<and> Media exMangaEntry = Some 1 \<and>
      exManga = mediaObjs (memory exSyncer) 1 \<and>
      mangaCollection exSyncer = Some \<lparr>MediaListCollection = Some [2]\<rparr> \<and>
      GetListEntryFromMangaId exFailingEnv (memory exSyncer) \<lparr>MediaListCollection = Some [2]\<rparr> (ID exManga)
        = Some exMangaEntry \<and>
      EntryStatus exMangaEntry \<noteq> None \<and>
      filter (\<lambda>c. ContainerMediaId c = ID exManga) (downloadedChapterContainers exSyncer)
        = filter (\<lambda>c. ContainerMediaId c = ID exManga) (downloadedChapterContainers exSyncer) \<and>
      filter (\<lambda>c. ContainerMediaId c = ID exManga) (downloadedChapterContainers exSyncer) \<noteq> [] \<and>
      ?qm = ?qm \<and>
      ((failedMangaQueue ?qm = (failedMangaQueue exSyncer)(ID exManga \<mapsto> exMangaEntry)) =
       (failedMangaQueue ?qm = (failedMangaQueue exSyncer)(ID exManga \<mapsto> exMangaEntry)))"
    by (intro conjI refl h5 h6 mm h8 h9 h10 h12)
  note cm = tm[THEN conjunct2, THEN conjunct2, THEN conjunct2, THEN conjunct2, THEN conjunct2,
      THEN conjunct1, THEN mp, OF hm, THEN conjunct1, THEN mp, OF conjI[OF h5' fm]]
  have m1: "failedMangaQueue ?qm = (failedMangaQueue exSyncer)(ID exManga \<mapsto> exMangaEntry)"
    and m2: "dbMangaSnapshots ?qm = dbMangaSnapshots exSyncer"
    using cm by (rule conjunct1, rule conjunct2)
  have m3: "mangaJobQueue ?qm = mangaJobQueue exSyncer"
    by (rule tm[THEN conjunct2, THEN conjunct2, THEN conjunct2, THEN conjunct1])
  note td = t[where q = exDelisted and c = "\<lparr>MediaListCollection = Some []\<rparr>"]
  have hd: "MangaEntry (exMangaDiff DiffTypeMissing) = Some exMangaEntry \<and> Media exMangaEntry = Some 1 \<and>
      mangaCollection exDelisted = Some \<lparr>MediaListCollection = Some []\<rparr> \<and>
      GetListEntryFromMangaId exFailingEnv (memory exDelisted) \<lparr>MediaListCollection = Some []\<rparr>
              (ID (mediaObjs (memory exDelisted) 1)) = None"
    by (intro conjI h5 h6 d8 d9)
  note cd = td[THEN conjunct2, THEN conjunct2, THEN conjunct2, THEN conjunct2, THEN conjunct2,
      THEN conjunct2, THEN conjunct1, THEN mp, OF hd]
  have d1: "logger ?qd = logger exDelisted @ [(ErrorLevel, ''sync: Failed to get manga'')]"
    and d2: "failedMangaQueue ?qd = failedMangaQueue exDelisted"
    using cd by (rule conjunct1, rule conjunct2[THEN conjunct1])
  show ?thesis
    unfolding a1 a2 a3 m1 m2 m3 d1 d2 ida idm by (simp add: exSyncer_def exDelisted_def)
qed

text \<open>
  The claim C6 as stated fails on the path that logs "Failed to get manga": an error is
  logged and the failed manga queue has no entry for the media.
\<close>

theorem lookup_failure_not_routed_counterexample:
  "(ErrorLevel, ''sync: Failed to get manga'') \<in> set (logger
      (synchronizeManga exEnv (exMangaDiff DiffTypeMetadata)
         (exSyncer\<lparr>mangaCollection := Some \<lparr>MediaListCollection = Some []\<rparr>\<rparr>))) \<and>
   failedMangaQueue
      (synchronizeManga exEnv (exMangaDiff DiffTypeMetadata)
         (exSyncer\<lparr>mangaCollection := Some \<lparr>MediaListCollection = Some []\<rparr>\<rparr>)) 7 = None \<and>
   logger exSyncer = [] \<and>
   MangaEntry (exMangaDiff DiffTypeMetadata) = Some exMangaEntry \<and> Media exMangaEntry = Some 1 \<and>
   ID (mediaObjs (memory exSyncer) 1) = 7"
  by (simp add: synchronizeManga_def ex_defs findListEntry_def GetLists_def logMsg_def)

theorem no_dependencies_removes_witness:
  "dbAnimeSnapshots (synchronizeAnime exEnv (exAnimeDiff DiffTypeMissing) exNoDeps) = [] \<and>
   localAssets (synchronizeAnime exEnv (exAnimeDiff DiffTypeMissing) exNoDeps)
     = [(7, ''banner.png''), (7, ''cover.png'')] \<and>
   dbMangaSnapshots (synchronizeManga exEnv (exMangaDiff DiffTypeMetadata) exNoDeps) = [] \<and>
   localAssets (synchronizeManga exEnv (exMangaDiff DiffTypeMetadata) exNoDeps)
     = [(101, ''banner.jpg''), (101, ''cover.jpg''), (101, ''episode-1.jpg'')] \<and>
   dbMangaSnapshots (synchronizeManga exEnv (exMangaDiff DiffTypeMetadata) exDelisted) = [exMangaSnapshot] \<and>
   localAssets (synchronizeManga exEnv (exMangaDiff DiffTypeMetadata) exDelisted)
     = [(101, ''banner.jpg''), (101, ''cover.jpg''), (101, ''episode-1.jpg''),
        (7, ''banner.png''), (7, ''cover.png'')]"
proof -
  let ?qa = "synchronizeAnime exEnv (exAnimeDiff DiffTypeMissing) exNoDeps"
  let ?qm = "synchronizeManga exEnv (exMangaDiff DiffTypeMetadata) exNoDeps"
  let ?qd = "synchronizeManga exEnv (exMangaDiff DiffTypeMetadata) exDelisted"
  have h1: "AnimeEntry (exAnimeDiff DiffTypeMissing) = Some exAnimeEntry"
    by (simp add: exAnimeDiff_def)
  have h2: "Media exAnimeEntry = Some 0" by (simp add: exAnimeEntry_def)
  have ma: "101 = ID (mediaObjs (memory exNoDeps) 0)" and mm: "7 = ID (mediaObjs (memory exNoDeps) 1)"
    and md: "7 = ID (mediaObjs (memory exDelisted) 1)"
    by (simp_all add: exNoDeps_def exDelisted_def exSyncer_def exHeap_def exAnime_def exManga_def)
  have h4: "MangaEntry (exMangaDiff DiffTypeMetadata) = Some exMangaEntry"
    by (simp add: exMangaDiff_def)
  have h5: "Media exMangaEntry = Some 1" by (simp add: exMangaEntry_def)
  have nf: "\<forall>f \<in> set (localFiles exNoDeps). LocalFileMediaId f \<noteq> 101"
    and nc: "\<forall>c \<in> set (downloadedChapterContainers exNoDeps). ContainerMediaId c \<noteq> 7"
    and nd: "\<forall>c \<in> set (downloadedChapterContainers exDelisted). ContainerMediaId c \<noteq> 7"
    by (simp_all add: exNoDeps_def exDelisted_def)
  have look: "\<exists>c le. mangaCollection exNoDeps = Some c \<and>
       GetListEntryFromMangaId exEnv (memory exNoDeps) c 7 = Some le \<and> EntryStatus le \<noteq> None"
    by (simp add: exNoDeps_def exEnv_def findListEntry_def GetLists_def exSyncer_def exHeap_def
        GetMediaID_def exMangaEntry_def exManga_def)
  have gone: "\<not> (\<exists>c le. mangaCollection exDelisted = Some c \<and>
       GetListEntryFromMangaId exEnv (memory exDelisted) c 7 = Some le \<and> EntryStatus le \<noteq> None)"
    by (simp add: exDelisted_def exEnv_def findListEntry_def GetLists_def exSyncer_def)
  note t = no_dependencies_removes[where da = "exAnimeDiff DiffTypeMissing" and ea = exAnimeEntry
      and pa = 0 and ida = 101 and dm = "exMangaDiff DiffTypeMetadata" and em = exMangaEntry
      and pm = 1 and idm = 7 and env = exEnv]
  from t[of exNoDeps] h1 h2 ma nf
  have a1: "dbAnimeSnapshots ?qa = filter (\<lambda>s. MediaId s \<noteq> 101) (dbAnimeSnapshots exNoDeps)"
    and a2: "localAssets ?qa = filter (\<lambda>a. fst a \<noteq> 101) (localAssets exNoDeps)"
    by blast+
  from t[of exNoDeps] h4 h5 mm nc look
  have m1: "dbMangaSnapshots ?qm = filter (\<lambda>s. MediaId s \<noteq> 7) (dbMangaSnapshots exNoDeps)"
    and m2: "localAssets ?qm = filter (\<lambda>a. fst a \<noteq> 7) (localAssets exNoDeps)"
    by blast+
  from t[of exDelisted] h4 h5 md nd gone
  have d1: "dbMangaSnapshots ?qd = dbMangaSnapshots exDelisted"
    and d2: "localAssets ?qd = localAssets exDelisted"
    by blast+
  show ?thesis
    unfolding a1 a2 m1 m2 d1 d2
    by (simp add: exNoDeps_def exDelisted_def exSyncer_def exAnimeSnapshot_def exMangaSnapshot_def)
qed

section \<open>Properties of the builder\<close>

lemma ToNewPointer_id [simp]: "ToNewPointer a = a"
  by (simp add: ToNewPointer_def split: option.splits)

lemma copyDate_id [simp]: "copyDate d = d"
  by (simp add: copyDate_def split: option.splits)

subsection \<open>What the loops leave in place\<close>

lemma preserves_refl [simp]: "preserves A h h"
  by (simp add: preserves_def)

lemma preserves_trans: "preserves A h h1 \<Longrightarrow> preserves A h1 h2 \<Longrightarrow> preserves A h h2"
  by (auto simp: preserves_def)

lemma preserves_mono: "preserves A h h' \<Longrightarrow> A \<subseteq> B \<Longrightarrow> preserves B h h'"
  by (auto simp: preserves_def)

lemma unchanged_refl [simp]: "unchanged h h"
  by (simp add: unchanged_def)

lemma unchanged_trans: "unchanged h h1 \<Longrightarrow> unchanged h1 h2 \<Longrightarrow> unchanged h h2"
  by (auto simp: unchanged_def)

lemma preserves_unchanged:
  assumes "preserves A h h'" "\<forall>a \<in> A. listNext h0 \<le> a" "unchanged h0 h"
  shows "unchanged h0 h'"
proof -
  have l: "listObjs h' a = listObjs h0 a" if "a < listNext h0" for a
  proof -
    have "a \<notin> A" using that assms(2) by auto
    then have "listObjs h' a = listObjs h a" using assms(1) by (simp add: preserves_def)
    then show ?thesis using assms(3) that by (simp add: unchanged_def)
  qed
  have m: "mediaObjs h' p = mediaObjs h0 p" if "p < mediaNext h0" for p
  proof -
    have "p < mediaNext h" using that assms(3) by (simp add: unchanged_def)
    then have "mediaObjs h' p = mediaObjs h p" using assms(1) by (simp add: preserves_def)
    then show ?thesis using assms(3) that by (simp add: unchanged_def)
  qed
  have "listNext h0 \<le> listNext h'" "mediaNext h0 \<le> mediaNext h'"
    using assms(1,3) by (simp_all add: preserves_def unchanged_def)
  then show ?thesis using l m by (simp add: unchanged_def)
qed

lemma appendEntry_preserves: "preserves {a} h (heapOf (appendEntry env a e s h))"
proof (cases "Media e")
  case None
  then show ?thesis by (simp add: appendEntry_def BaseMediaDeepCopy_def heapOf_def)
next
  case (Some p)
  then show ?thesis
    by (simp add: appendEntry_def BaseMediaDeepCopy_def newMedia_def heapOf_def preserves_def Let_def)
qed

lemma addToRightList_preserves: "preserves (set as) h (heapOf (addToRightList env as st e s h))"
proof (induction as)
  case Nil
  then show ?case by (simp add: heapOf_def)
next
  case (Cons a as)
  have "preserves (set (a # as)) h (heapOf (appendEntry env a e s h))"
    using appendEntry_preserves[of a h env e s] by (rule preserves_mono) simp
  moreover have "preserves (set (a # as)) h (heapOf (addToRightList env as st e s h))"
    using Cons.IH by (rule preserves_mono) auto
  ultimately show ?case by (simp split: option.splits)
qed

lemma addEntries_preserves: "preserves (set L) h (heapOf (addEntries env tr sm L st es h))"
proof (induction es arbitrary: h)
  case Nil
  then show ?case by (simp add: heapOf_def)
next
  case (Cons e es)
  show ?case
  proof (cases "tr (GetMediaID h e)")
    case None
    then show ?thesis using Cons.IH by simp
  next
    case (Some t)
    show ?thesis
    proof (cases "sm (GetMediaID h e)")
      case None
      then show ?thesis using Some Cons.IH by simp
    next
      case (Some s)
      note p = addToRightList_preserves[of L h env st e s]
      show ?thesis
      proof (cases "addToRightList env L st e s h")
        case (Inl x)
        then show ?thesis using p \<open>tr (GetMediaID h e) = Some t\<close> Some by simp
      next
        case (Inr h')
        then have "preserves (set L) h h'" using p by (simp add: heapOf_def)
        then show ?thesis
          using Cons.IH[of h'] Inr \<open>tr (GetMediaID h e) = Some t\<close> Some
          by (auto intro: preserves_trans)
      qed
    qed
  qed
qed

lemma createLocalCollection_preserves:
  "preserves (set L) h (heapOf (createLocalCollection env tr sm L ls h))"
proof (induction ls arbitrary: h)
  case Nil
  then show ?case by (simp add: heapOf_def)
next
  case (Cons l ls)
  show ?case
  proof (cases "Status (listObjs h l)")
    case None
    then show ?thesis using Cons.IH by simp
  next
    case (Some st)
    note p = addEntries_preserves[of L h env tr sm st "Entries (listObjs h l)"]
    show ?thesis
    proof (cases "addEntries env tr sm L st (Entries (listObjs h l)) h")
      case (Inl x)
      then show ?thesis using p Some by simp
    next
      case (Inr h')
      then have "preserves (set L) h h'" using p by (simp add: heapOf_def)
      then show ?thesis using Cons.IH[of h'] Inr Some by (auto intro: preserves_trans)
    qed
  qed
qed

lemma recreateLists_unchanged:
  "recreateLists ls locals h = (L, h') \<Longrightarrow>
     unchanged h h' \<and> mediaObjs h' = mediaObjs h \<and> mediaNext h' = mediaNext h \<and>
     (\<exists>new. L = locals @ new \<and> (\<forall>a \<in> set new. listNext h \<le> a \<and> a < listNext h'))"
proof (induction ls arbitrary: locals h)
  case Nil
  then show ?case by simp
next
  case (Cons l ls)
  show ?case
  proof (cases "Status (listObjs h l) = None")
    case True
    with Cons.prems have "recreateLists ls locals h = (L, h')" by simp
    then show ?thesis by (rule Cons.IH)
  next
    case False
    define h1 where "h1 = h\<lparr>listObjs := (listObjs h)(listNext h := \<lparr>Status = ToNewPointer (Status (listObjs h l)),
                       Name = ToNewPointer (Name (listObjs h l)),
                       IsCustomList = ToNewPointer (IsCustomList (listObjs h l)),
                       Entries = []\<rparr>), listNext := Suc (listNext h)\<rparr>"
    have r: "recreateLists ls (locals @ [listNext h]) h1 = (L, h')"
      using Cons.prems False unfolding h1_def by (simp add: newList_def)
    have u1: "unchanged h h1" and u2: "mediaObjs h1 = mediaObjs h" and u3: "mediaNext h1 = mediaNext h"
      and u4: "listNext h1 = Suc (listNext h)"
      by (simp_all add: h1_def unchanged_def)
    from Cons.IH[OF r] obtain new where
      n1: "unchanged h1 h'" and n2: "mediaObjs h' = mediaObjs h1" and n3: "mediaNext h' = mediaNext h1"
      and n4: "L = (locals @ [listNext h]) @ new" and n5: "\<forall>a \<in> set new. listNext h1 \<le> a \<and> a < listNext h'"
      by blast
    have le: "listNext h1 \<le> listNext h'" using n1 by (simp add: unchanged_def)
    have c1: "unchanged h h'" using u1 n1 by (rule unchanged_trans)
    have c2: "mediaObjs h' = mediaObjs h" using n2 u2 by simp
    have c3: "mediaNext h' = mediaNext h" using n3 u3 by simp
    have c4: "L = locals @ (listNext h # new)" using n4 by simp
    have c5: "\<forall>a \<in> set (listNext h # new). listNext h \<le> a \<and> a < listNext h'"
      using n5 le u4 by auto
    from c4 c5 have "\<exists>new. L = locals @ new \<and> (\<forall>a \<in> set new. listNext h \<le> a \<and> a < listNext h')"
      by blast
    with c1 c2 c3 show ?thesis by simp
  qed
qed

lemma resolveEntry_newEntry: "resolveEntry h (newEntry e p) = newEntry (resolveEntry h0 e) (mediaObjs h p)"
  by (simp add: resolveEntry_def newEntry_def)

lemma mediaIdOf_resolve: "mediaIdOf (resolveEntry h e) = GetMediaID h e"
  by (simp add: mediaIdOf_def resolveEntry_def GetMediaID_def split: option.splits)

lemma resolveEntry_cong:
  assumes "\<forall>p. Media e = Some p \<longrightarrow> mediaObjs h' p = mediaObjs h p"
  shows "resolveEntry h' e = resolveEntry h e"
proof (cases "Media e")
  case None
  then show ?thesis by (simp add: resolveEntry_def)
next
  case (Some p)
  then show ?thesis using assms by (simp add: resolveEntry_def)
qed

lemma resolve_preserved:
  assumes "preserves A h h'" "b \<notin> A" "ptrsOk h b"
  shows "resolveList h' b = resolveList h b" and "ptrsOk h' b"
proof -
  have l: "listObjs h' b = listObjs h b" using assms(1,2) by (simp add: preserves_def)
  have m: "\<And>p. p < mediaNext h \<Longrightarrow> mediaObjs h' p = mediaObjs h p"
    using assms(1) by (simp add: preserves_def)
  have le: "mediaNext h \<le> mediaNext h'" using assms(1) by (simp add: preserves_def)
  have "\<forall>e \<in> set (Entries (listObjs h b)). resolveEntry h' e = resolveEntry h e"
  proof
    fix e assume e: "e \<in> set (Entries (listObjs h b))"
    show "resolveEntry h' e = resolveEntry h e"
    proof (rule resolveEntry_cong, intro allI impI)
      fix p assume "Media e = Some p"
      then have "p < mediaNext h" using e assms(3) by (auto simp: ptrsOk_def)
      then show "mediaObjs h' p = mediaObjs h p" by (rule m)
    qed
  qed
  then show "resolveList h' b = resolveList h b" by (simp add: resolveList_def l)
  show "ptrsOk h' b"
    unfolding ptrsOk_def l
  proof (intro ballI allI impI)
    fix e p assume "e \<in> set (Entries (listObjs h b))" "Media e = Some p"
    then have "p < mediaNext h" using assms(3) by (auto simp: ptrsOk_def)
    then show "p < mediaNext h'" using le by simp
  qed
qed

lemma serialize_preserved:
  assumes "preserves A h h'" "set ls \<inter> A = {}" "\<forall>b \<in> set ls. ptrsOk h b"
  shows "serialize h' ls = serialize h ls" and "\<forall>b \<in> set ls. ptrsOk h' b"
proof -
  have "\<forall>b \<in> set ls. resolveList h' b = resolveList h b \<and> ptrsOk h' b"
  proof
    fix b assume b: "b \<in> set ls"
    then have "b \<notin> A" using assms(2) by auto
    then show "resolveList h' b = resolveList h b \<and> ptrsOk h' b"
      using resolve_preserved[OF assms(1)] assms(3) b by blast
  qed
  then show "serialize h' ls = serialize h ls" and "\<forall>b \<in> set ls. ptrsOk h' b"
    by (simp_all add: serialize_def)
qed

lemma appendEntry_nil: "Media e = None \<Longrightarrow> \<exists>x. appendEntry env a e s h = Inl x"
  by (simp add: appendEntry_def BaseMediaDeepCopy_def)

lemma appendEntry_some:
  assumes "Media e = Some pm" "ptrsOk h a"
  shows "\<exists>h'. appendEntry env a e s h = Inr h' \<and> ptrsOk h' a \<and>
           resolveList h' a = (resolveList h a)\<lparr>Entries := Entries (resolveList h a) @
              [newEntry (resolveEntry h e) (editedMedia env s (mediaObjs h pm))]\<rparr>"
proof -
  define n where "n = mediaNext h"
  define h2 where "h2 = h\<lparr>mediaObjs := (mediaObjs h)(n := editedMedia env s (mediaObjs h pm)), mediaNext := Suc n\<rparr>"
  define h' where "h' = h2\<lparr>listObjs := (listObjs h2)(a := (listObjs h2 a)\<lparr>Entries := Entries (listObjs h2 a) @ [newEntry e n]\<rparr>)\<rparr>"
  have ap: "appendEntry env a e s h = Inr h'"
    using assms(1) by (simp add: appendEntry_def BaseMediaDeepCopy_def newMedia_def Let_def h'_def h2_def n_def)
  have ent: "Entries (listObjs h' a) = Entries (listObjs h a) @ [newEntry e n]"
    by (simp add: h'_def h2_def)
  have old: "\<forall>x \<in> set (Entries (listObjs h a)). resolveEntry h' x = resolveEntry h x"
  proof
    fix x assume x: "x \<in> set (Entries (listObjs h a))"
    show "resolveEntry h' x = resolveEntry h x"
    proof (rule resolveEntry_cong, intro allI impI)
      fix p assume "Media x = Some p"
      then have "p < n" using x assms(2) by (auto simp: ptrsOk_def n_def)
      then show "mediaObjs h' p = mediaObjs h p" by (simp add: h'_def h2_def)
    qed
  qed
  have new: "resolveEntry h' (newEntry e n) = newEntry (resolveEntry h e) (editedMedia env s (mediaObjs h pm))"
    by (simp add: resolveEntry_newEntry[where ?h0.0 = h]) (simp add: h'_def h2_def)
  have r: "resolveList h' a = (resolveList h a)\<lparr>Entries := Entries (resolveList h a) @
              [newEntry (resolveEntry h e) (editedMedia env s (mediaObjs h pm))]\<rparr>"
    using old new by (simp add: resolveList_def ent) (simp add: h'_def h2_def)
  have p: "ptrsOk h' a"
    unfolding ptrsOk_def ent
  proof (intro ballI allI impI)
    fix x p assume x: "x \<in> set (Entries (listObjs h a) @ [newEntry e n])" "Media x = Some p"
    have mn: "mediaNext h' = Suc n" by (simp add: h'_def h2_def)
    show "p < mediaNext h'"
    proof (cases "x \<in> set (Entries (listObjs h a))")
      case True
      then have "p < n" using x(2) assms(2) by (auto simp: ptrsOk_def n_def)
      then show ?thesis using mn by simp
    next
      case False
      then have "x = newEntry e n" using x(1) by simp
      then have "p = n" using x(2) by (simp add: newEntry_def)
      then show ?thesis using mn by simp
    qed
  qed
  show ?thesis using ap p r by blast
qed

lemma absPlace_Cons_other:
  "Status l \<noteq> Some st \<Longrightarrow> absPlace env (l # V) st e s = map_option ((#) l) (absPlace env V st e s)"
  by (simp add: absPlace_def split: option.splits)

lemma absPlace_Cons_match_nil:
  "Status l = Some st \<Longrightarrow> Media e = None \<Longrightarrow> absPlace env (l # V) st e s = None"
  by (simp add: absPlace_def)

lemma absPlace_Cons_match:
  "Status l = Some st \<Longrightarrow> Media e = Some m \<Longrightarrow>
     absPlace env (l # V) st e s = Some (l\<lparr>Entries := Entries l @ [newEntry e (editedMedia env s m)]\<rparr> # V)"
  by (simp add: absPlace_def)

lemma status_resolveList [simp]: "Status (resolveList h a) = Status (listObjs h a)"
  by (simp add: resolveList_def)

lemma media_resolveEntry [simp]: "Media (resolveEntry h e) = map_option (mediaObjs h) (Media e)"
  by (simp add: resolveEntry_def)

lemma newEntry_resolve [simp]: "newEntry (resolveEntry h e) m = newEntry e m"
  by (simp add: newEntry_def resolveEntry_def)

lemma addToRightList_sim:
  assumes "distinct as" "\<forall>a \<in> set as. ptrsOk h a"
  shows "simulates as (addToRightList env as st e s h) (absPlace env (serialize h as) st (resolveEntry h e) s)"
  using assms
proof (induction as)
  case Nil
  then show ?case by (simp add: simulates_def serialize_def absPlace_def)
next
  case (Cons a as)
  have da: "a \<notin> set as" and d: "distinct as" using Cons.prems(1) by simp_all
  have pa: "ptrsOk h a" and pas: "\<forall>b \<in> set as. ptrsOk h b" using Cons.prems(2) by simp_all
  show ?case
  proof (cases "Status (listObjs h a) = Some st")
    case True
    then have run: "addToRightList env (a # as) st e s h = appendEntry env a e s h" by simp
    have st: "Status (resolveList h a) = Some st" using True by simp
    show ?thesis
    proof (cases "Media e")
      case None
      then obtain x where "appendEntry env a e s h = Inl x" using appendEntry_nil by blast
      moreover have "absPlace env (serialize h (a # as)) st (resolveEntry h e) s = None"
        using absPlace_Cons_match_nil[OF st, where e = "resolveEntry h e"] None by (simp add: serialize_def)
      ultimately show ?thesis unfolding run by (simp add: simulates_def)
    next
      case (Some pm)
      from appendEntry_some[OF Some pa, of env s] obtain h' where
        h': "appendEntry env a e s h = Inr h'" "ptrsOk h' a"
        "resolveList h' a = (resolveList h a)\<lparr>Entries := Entries (resolveList h a) @
              [newEntry (resolveEntry h e) (editedMedia env s (mediaObjs h pm))]\<rparr>"
        by blast
      have pr: "preserves {a} h h'" using appendEntry_preserves[of a h env e s] h'(1) by (simp add: heapOf_def)
      have rest: "serialize h' as = serialize h as" "\<forall>b \<in> set as. ptrsOk h' b"
        using serialize_preserved[OF pr, of as] da pas by simp_all
      have "absPlace env (serialize h (a # as)) st (resolveEntry h e) s
              = Some ((resolveList h a)\<lparr>Entries := Entries (resolveList h a) @
                   [newEntry (resolveEntry h e) (editedMedia env s (mediaObjs h pm))]\<rparr> # serialize h as)"
        using absPlace_Cons_match[OF st, where e = "resolveEntry h e" and m = "mediaObjs h pm" and env = env
            and s = s and V = "serialize h as"] Some
        by (simp add: serialize_def)
      then show ?thesis
        using h' rest unfolding run by (simp add: simulates_def serialize_def)
    qed
  next
    case False
    then have run: "addToRightList env (a # as) st e s h = addToRightList env as st e s h"
      by (simp split: option.splits)
    have st: "Status (resolveList h a) \<noteq> Some st" using False by simp
    have ab: "absPlace env (serialize h (a # as)) st (resolveEntry h e) s
               = map_option ((#) (resolveList h a)) (absPlace env (serialize h as) st (resolveEntry h e) s)"
      using absPlace_Cons_other[OF st] by (simp add: serialize_def)
    note ih = Cons.IH[OF d pas]
    show ?thesis
    proof (cases "addToRightList env as st e s h")
      case (Inl x)
      then show ?thesis using ih unfolding run ab by (simp add: simulates_def)
    next
      case (Inr h')
      then have pr: "preserves (set as) h h'"
        using addToRightList_preserves[of as h env st e s] by (simp add: heapOf_def)
      have ra: "resolveList h' a = resolveList h a" "ptrsOk h' a"
        using resolve_preserved[OF pr da pa] by simp_all
      show ?thesis using ih Inr ra unfolding run ab by (simp add: simulates_def serialize_def)
    qed
  qed
qed

lemma simulates_InlD: "simulates L (Inl x) v \<Longrightarrow> v = None"
  by (simp add: simulates_def)

lemma simulates_InrD: "simulates L (Inr h') v \<Longrightarrow> v = Some (serialize h' L) \<and> (\<forall>a \<in> set L. ptrsOk h' a)"
  by (simp add: simulates_def)

lemma simulates_InrI: "(\<forall>a \<in> set L. ptrsOk h a) \<Longrightarrow> simulates L (Inr h) (Some (serialize h L))"
  by (simp add: simulates_def)

lemma entries_preserved:
  assumes "preserves A h h'" "\<forall>e \<in> set es. \<forall>p. Media e = Some p \<longrightarrow> p < mediaNext h"
  shows "map (resolveEntry h') es = map (resolveEntry h) es"
    and "\<forall>e \<in> set es. \<forall>p. Media e = Some p \<longrightarrow> p < mediaNext h'"
proof -
  have m: "\<And>p. p < mediaNext h \<Longrightarrow> mediaObjs h' p = mediaObjs h p"
    and le: "mediaNext h \<le> mediaNext h'"
    using assms(1) by (simp_all add: preserves_def)
  have "\<forall>e \<in> set es. resolveEntry h' e = resolveEntry h e"
  proof
    fix e assume e: "e \<in> set es"
    show "resolveEntry h' e = resolveEntry h e"
    proof (rule resolveEntry_cong, intro allI impI)
      fix p assume "Media e = Some p"
      then have "p < mediaNext h" using e assms(2) by blast
      then show "mediaObjs h' p = mediaObjs h p" by (rule m)
    qed
  qed
  then show "map (resolveEntry h') es = map (resolveEntry h) es" by simp
  show "\<forall>e \<in> set es. \<forall>p. Media e = Some p \<longrightarrow> p < mediaNext h'"
  proof (intro ballI allI impI)
    fix e p assume "e \<in> set es" "Media e = Some p"
    then have "p < mediaNext h" using assms(2) by blast
    then show "p < mediaNext h'" using le by simp
  qed
qed

lemma addEntries_sim:
  assumes "distinct L" "\<forall>a \<in> set L. ptrsOk h a"
    and "\<forall>e \<in> set es. \<forall>p. Media e = Some p \<longrightarrow> p < mediaNext h"
  shows "simulates L (addEntries env tr sm L st es h)
           (absEntries env tr sm st (map (resolveEntry h) es) (serialize h L))"
  using assms(2,3)
proof (induction es arbitrary: h)
  case Nil
  then show ?case by (simp add: simulates_def)
next
  case (Cons e es)
  have pes: "\<forall>x \<in> set es. \<forall>p. Media x = Some p \<longrightarrow> p < mediaNext h"
    using Cons.prems(2) by simp
  note ih0 = Cons.IH[OF Cons.prems(1) pes]
  show ?case
  proof (cases "tr (GetMediaID h e)")
    case None
    then show ?thesis using ih0 by (simp add: mediaIdOf_resolve)
  next
    case (Some t)
    note tr = Some
    show ?thesis
    proof (cases "sm (GetMediaID h e)")
      case None
      then show ?thesis using ih0 tr by (simp add: mediaIdOf_resolve)
    next
      case (Some s)
      note sim = addToRightList_sim[OF assms(1) Cons.prems(1), of env st e s]
      show ?thesis
      proof (cases "addToRightList env L st e s h")
        case (Inl x)
        then have "absPlace env (serialize h L) st (resolveEntry h e) s = None"
          using sim by (simp add: simulates_def)
        then show ?thesis using Inl tr Some by (simp add: mediaIdOf_resolve simulates_def)
      next
        case (Inr h')
        then have ab: "absPlace env (serialize h L) st (resolveEntry h e) s = Some (serialize h' L)"
          and p': "\<forall>a \<in> set L. ptrsOk h' a"
          using sim by (simp_all add: simulates_def)
        have pr: "preserves (set L) h h'"
          using addToRightList_preserves[of L h env st e s] Inr by (simp add: heapOf_def)
        have es: "map (resolveEntry h') es = map (resolveEntry h) es"
          and pes': "\<forall>x \<in> set es. \<forall>p. Media x = Some p \<longrightarrow> p < mediaNext h'"
          using entries_preserved[OF pr pes] by simp_all
        have "simulates L (addEntries env tr sm L st es h')
                 (absEntries env tr sm st (map (resolveEntry h) es) (serialize h' L))"
          using Cons.IH[OF p' pes'] es by simp
        then show ?thesis using Inr tr Some ab by (simp add: mediaIdOf_resolve)
      qed
    qed
  qed
qed

lemma entries_resolveList [simp]:
  "Entries (resolveList h l) = map (resolveEntry h) (Entries (listObjs h l))"
  by (simp add: resolveList_def)

lemma createLocalCollection_sim:
  assumes "distinct L" "set R \<inter> set L = {}"
    and "\<forall>a \<in> set L. ptrsOk h a" "\<forall>a \<in> set R. ptrsOk h a"
  shows "simulates L (createLocalCollection env tr sm L R h)
           (absLists env tr sm (serialize h R) (serialize h L))"
  using assms(2,3,4)
proof (induction R arbitrary: h)
  case Nil
  then show ?case by (simp add: simulates_def serialize_def)
next
  case (Cons l ls)
  have dl: "set ls \<inter> set L = {}" using Cons.prems(1) by auto
  have pls: "\<forall>a \<in> set ls. ptrsOk h a" and pl: "ptrsOk h l" using Cons.prems(3) by simp_all
  have ser: "serialize h (l # ls) = resolveList h l # serialize h ls" by (simp add: serialize_def)
  show ?case
  proof (cases "Status (listObjs h l)")
    case None
    then show ?thesis using Cons.IH[OF dl Cons.prems(2) pls] by (simp add: ser)
  next
    case (Some st)
    have pe: "\<forall>e \<in> set (Entries (listObjs h l)). \<forall>p. Media e = Some p \<longrightarrow> p < mediaNext h"
      using pl by (simp add: ptrsOk_def)
    note sim = addEntries_sim[OF assms(1) Cons.prems(2) pe, of env tr sm st]
    show ?thesis
    proof (cases "addEntries env tr sm L st (Entries (listObjs h l)) h")
      case (Inl x)
      then have "absEntries env tr sm st (map (resolveEntry h) (Entries (listObjs h l))) (serialize h L) = None"
        using sim by (simp add: simulates_def)
      then show ?thesis using Inl Some by (simp add: ser simulates_def)
    next
      case (Inr h')
      then have ab: "absEntries env tr sm st (map (resolveEntry h) (Entries (listObjs h l))) (serialize h L)
                       = Some (serialize h' L)"
        and p': "\<forall>a \<in> set L. ptrsOk h' a"
        using sim by (simp_all add: simulates_def)
      have pr: "preserves (set L) h h'"
        using addEntries_preserves[of L h env tr sm st "Entries (listObjs h l)"] Inr by (simp add: heapOf_def)
      have rs: "serialize h' ls = serialize h ls" and pls': "\<forall>b \<in> set ls. ptrsOk h' b"
        using serialize_preserved[OF pr dl pls] by simp_all
      have "simulates L (createLocalCollection env tr sm L ls h')
               (absLists env tr sm (serialize h ls) (serialize h' L))"
        using Cons.IH[OF dl p' pls'] rs by simp
      then show ?thesis using Inr Some ab by (simp add: ser)
    qed
  qed
qed

lemma skeleton_simps [simp]:
  "Status (skeleton l) = Status l" "Name (skeleton l) = Name l"
  "IsCustomList (skeleton l) = IsCustomList l" "Entries (skeleton l) = []"
  by (simp_all add: skeleton_def)

lemma skeleton_resolveList [simp]: "skeleton (resolveList h l) = skeleton (listObjs h l)"
  by (simp add: skeleton_def resolveList_def)

lemma resolveList_skeleton: "listObjs h a = skeleton x \<Longrightarrow> resolveList h a = skeleton x"
  by (simp add: skeleton_def resolveList_def)

lemma recreateLists_sim:
  assumes "recreateLists R locals h = (L, h')" "\<forall>l \<in> set R. l < listNext h"
  shows "\<exists>new. L = locals @ new \<and> distinct new \<and>
           (\<forall>a \<in> set new. listNext h \<le> a \<and> a < listNext h') \<and>
           map (listObjs h') new = map skeleton (filter (\<lambda>x. Status x \<noteq> None) (map (listObjs h) R))"
  using assms
proof (induction R arbitrary: locals h)
  case Nil
  then show ?case by simp
next
  case (Cons l ls)
  have lt: "\<forall>x \<in> set ls. x < listNext h" using Cons.prems(2) by simp
  show ?case
  proof (cases "Status (listObjs h l) = None")
    case True
    with Cons.prems(1) have "recreateLists ls locals h = (L, h')" by simp
    from Cons.IH[OF this lt] show ?thesis using True by simp
  next
    case False
    define n where "n = listNext h"
    define h1 where "h1 = h\<lparr>listObjs := (listObjs h)(n := \<lparr>Status = ToNewPointer (Status (listObjs h l)),
                       Name = ToNewPointer (Name (listObjs h l)),
                       IsCustomList = ToNewPointer (IsCustomList (listObjs h l)),
                       Entries = []\<rparr>), listNext := Suc n\<rparr>"
    have r: "recreateLists ls (locals @ [n]) h1 = (L, h')"
      using Cons.prems(1) False unfolding h1_def n_def by (simp add: newList_def)
    have n1: "listNext h1 = Suc n" by (simp add: h1_def)
    have lt1: "\<forall>x \<in> set ls. x < listNext h1" using lt by (auto simp: n1 n_def less_Suc_eq)
    have "n \<notin> set ls" using lt by (auto simp: n_def)
    then have old: "map (listObjs h1) ls = map (listObjs h) ls"
      by (auto simp: h1_def)
    have sk: "listObjs h1 n = skeleton (listObjs h l)"
      by (simp add: h1_def skeleton_def)
    from Cons.IH[OF r lt1] obtain new where
      a1: "L = (locals @ [n]) @ new" and a2: "distinct new"
      and a3: "\<forall>a \<in> set new. listNext h1 \<le> a \<and> a < listNext h'"
      and a4: "map (listObjs h') new = map skeleton (filter (\<lambda>x. Status x \<noteq> None) (map (listObjs h1) ls))"
      by blast
    have u: "unchanged h1 h'" using recreateLists_unchanged[OF r] by simp
    then have le: "listNext h1 \<le> listNext h'" and keep: "listObjs h' n = listObjs h1 n"
      by (simp_all add: unchanged_def n1)
    have c1: "L = locals @ (n # new)" using a1 by simp
    have c2: "distinct (n # new)" using a2 a3 n1 by auto
    have c3: "\<forall>a \<in> set (n # new). listNext h \<le> a \<and> a < listNext h'"
      using a3 le n1 by (auto simp: n_def)
    have c4: "map (listObjs h') (n # new) = map skeleton (filter (\<lambda>x. Status x \<noteq> None) (map (listObjs h) (l # ls)))"
      using a4 False by (simp add: keep sk old)
    from c1 c2 c3 c4 show ?thesis by blast
  qed
qed

lemma resolve_unchanged:
  assumes "unchanged h h'" "b < listNext h" "ptrsOk h b"
  shows "resolveList h' b = resolveList h b" and "ptrsOk h' b"
proof -
  have l: "listObjs h' b = listObjs h b" using assms(1,2) by (simp add: unchanged_def)
  have m: "\<And>p. p < mediaNext h \<Longrightarrow> mediaObjs h' p = mediaObjs h p"
    and le: "mediaNext h \<le> mediaNext h'"
    using assms(1) by (simp_all add: unchanged_def)
  have "\<forall>e \<in> set (Entries (listObjs h b)). resolveEntry h' e = resolveEntry h e"
  proof
    fix e assume e: "e \<in> set (Entries (listObjs h b))"
    show "resolveEntry h' e = resolveEntry h e"
    proof (rule resolveEntry_cong, intro allI impI)
      fix p assume "Media e = Some p"
      then have "p < mediaNext h" using e assms(3) by (auto simp: ptrsOk_def)
      then show "mediaObjs h' p = mediaObjs h p" by (rule m)
    qed
  qed
  then show "resolveList h' b = resolveList h b" by (simp add: resolveList_def l)
  show "ptrsOk h' b"
    unfolding ptrsOk_def l
  proof (intro ballI allI impI)
    fix e p assume "e \<in> set (Entries (listObjs h b))" "Media e = Some p"
    then have "p < mediaNext h" using assms(3) by (auto simp: ptrsOk_def)
    then show "p < mediaNext h'" using le by simp
  qed
qed

lemma serialize_unchanged:
  assumes "unchanged h h'" "wfCollection h c"
  shows "serialize h' (GetLists c) = serialize h (GetLists c)" and "wfCollection h' c"
proof -
  have le: "listNext h \<le> listNext h'" using assms(1) by (simp add: unchanged_def)
  have a: "\<forall>b \<in> set (GetLists c). resolveList h' b = resolveList h b \<and> ptrsOk h' b \<and> b < listNext h'"
  proof
    fix b assume "b \<in> set (GetLists c)"
    then have b: "b < listNext h" "ptrsOk h b" using assms(2) by (simp_all add: wfCollection_def)
    show "resolveList h' b = resolveList h b \<and> ptrsOk h' b \<and> b < listNext h'"
      using resolve_unchanged[OF assms(1) b] b(1) le by simp
  qed
  then show "serialize h' (GetLists c) = serialize h (GetLists c)" by (simp add: serialize_def)
  show "wfCollection h' c" using a by (simp add: wfCollection_def)
qed

lemma map_eq_imp_skeleton:
  "map (listObjs h) L = map skeleton ys \<Longrightarrow> serialize h L = map skeleton ys \<and> (\<forall>a \<in> set L. ptrsOk h a)"
proof (induction L arbitrary: ys)
  case Nil
  then show ?case by (simp add: serialize_def)
next
  case (Cons a L)
  then obtain y ys' where ys: "ys = y # ys'" by (cases ys) auto
  have a: "listObjs h a = skeleton y" and r: "map (listObjs h) L = map skeleton ys'"
    using Cons.prems ys by simp_all
  have "resolveList h a = skeleton y" using a by (rule resolveList_skeleton)
  moreover have "ptrsOk h a" using a by (simp add: ptrsOk_def)
  ultimately show ?case using Cons.IH[OF r] ys by (simp add: serialize_def)
qed

lemma skeleton_filter_serialize:
  "map skeleton (filter (\<lambda>x. Status x \<noteq> None) (map (listObjs h) R))
     = map skeleton (filter (\<lambda>x. Status x \<noteq> None) (serialize h R))"
  by (induction R) (simp_all add: serialize_def)

lemma phase_sim:
  assumes "distinct L" "set R \<inter> set L = {}"
    and "\<forall>a \<in> set L. ptrsOk h a" "\<forall>a \<in> set R. ptrsOk h a"
    and "serialize h L = map skeleton (filter (\<lambda>x. Status x \<noteq> None) (serialize h R))"
  shows "simulates L (if length snaps > 0 then createLocalCollection env tr (snapshotMap snaps) L R h else Inr h)
           (absBuild env tr snaps (serialize h R))"
proof (cases "length snaps > 0")
  case True
  have "absBuild env tr snaps (serialize h R) = absLists env tr (snapshotMap snaps) (serialize h R) (serialize h L)"
    unfolding absBuild_def Let_def assms(5)[symmetric] using True by simp
  then show ?thesis
    using createLocalCollection_sim[OF assms(1,2,3,4), of env tr "snapshotMap snaps"] True
    by simp
next
  case False
  have "absBuild env tr snaps (serialize h R) = Some (serialize h L)"
    unfolding absBuild_def Let_def assms(5)[symmetric] using False by simp
  then show ?thesis
    using assms(3) False by (simp add: simulates_def)
qed

lemma phase_preserves:
  "preserves (set L) h (heapOf (if length snaps > 0 then createLocalCollection env tr sm L R h else Inr h))"
  using createLocalCollection_preserves[of L h env tr sm R] by (simp add: heapOf_def)

lemma build_sim:
  assumes wfA: "wfCollection (memory q) ac" and wfM: "wfCollection (memory q) mc"
  shows "case buildLocalCollections env ac mc q of
           Inl x \<Rightarrow>
             absBuild env (trackedAnimeMap q) (GetAnimeSnapshots env q) (serialize (memory q) (GetLists ac)) = None \<or>
             absBuild env (trackedMangaMap q) (GetMangaSnapshots env q) (serialize (memory q) (GetLists mc)) = None
         | Inr (la, lm, h) \<Rightarrow>
             absBuild env (trackedAnimeMap q) (GetAnimeSnapshots env q) (serialize (memory q) (GetLists ac))
               = Some (serialize h la) \<and>
             absBuild env (trackedMangaMap q) (GetMangaSnapshots env q) (serialize (memory q) (GetLists mc))
               = Some (serialize h lm)"
proof -
  define h0 where "h0 = memory q"
  define RA where "RA = GetLists ac"
  define RM where "RM = GetLists mc"
  define sa where "sa = GetAnimeSnapshots env q"
  define sm where "sm = GetMangaSnapshots env q"
  obtain LA h1 where r1: "recreateLists RA [] h0 = (LA, h1)" by (cases "recreateLists RA [] h0")
  obtain LM h2 where r2: "recreateLists RM [] h1 = (LM, h2)" by (cases "recreateLists RM [] h1")
  define pa where "pa = (if length sa > 0 then createLocalCollection env (trackedAnimeMap q) (snapshotMap sa) LA RA h2 else Inr h2)"
  have RAlt: "\<forall>l \<in> set RA. l < listNext h0" and RMlt: "\<forall>l \<in> set RM. l < listNext h0"
    using wfA wfM by (simp_all add: wfCollection_def RA_def RM_def h0_def)
  have u1: "unchanged h0 h1" using recreateLists_unchanged[OF r1] by simp
  have u2: "unchanged h1 h2" using recreateLists_unchanged[OF r2] by simp
  have u02: "unchanged h0 h2" using u1 u2 by (rule unchanged_trans)
  have le01: "listNext h0 \<le> listNext h1" using u1 by (simp add: unchanged_def)
  from recreateLists_sim[OF r1 RAlt] have
    dA: "distinct LA" and bA: "\<forall>a \<in> set LA. listNext h0 \<le> a \<and> a < listNext h1"
    and mA: "map (listObjs h1) LA = map skeleton (filter (\<lambda>x. Status x \<noteq> None) (map (listObjs h0) RA))"
    by auto
  have RMlt1: "\<forall>l \<in> set RM. l < listNext h1" using RMlt le01 by auto
  from recreateLists_sim[OF r2 RMlt1] have
    dM: "distinct LM" and bM: "\<forall>a \<in> set LM. listNext h1 \<le> a \<and> a < listNext h2"
    and mM1: "map (listObjs h2) LM = map skeleton (filter (\<lambda>x. Status x \<noteq> None) (map (listObjs h1) RM))"
    by auto
  have e1: "map (listObjs h1) RM = map (listObjs h0) RM"
    using RMlt u1 by (simp add: unchanged_def)
  have mM: "map (listObjs h2) LM = map skeleton (filter (\<lambda>x. Status x \<noteq> None) (map (listObjs h0) RM))"
    unfolding e1[symmetric] by (rule mM1)
  have e2: "map (listObjs h2) LA = map (listObjs h1) LA"
    using bA u2 by (simp add: unchanged_def)
  have mA2: "map (listObjs h2) LA = map skeleton (filter (\<lambda>x. Status x \<noteq> None) (map (listObjs h0) RA))"
    unfolding e2 by (rule mA)
  have wfA2: "serialize h2 RA = serialize h0 RA" "wfCollection h2 ac"
    and wfM2: "serialize h2 RM = serialize h0 RM" "wfCollection h2 mc"
    using serialize_unchanged[OF u02] wfA wfM by (simp_all add: RA_def RM_def h0_def)
  have pRA: "\<forall>a \<in> set RA. ptrsOk h2 a" and pRM: "\<forall>a \<in> set RM. ptrsOk h2 a"
    using wfA2(2) wfM2(2) by (simp_all add: wfCollection_def RA_def RM_def)
  have sA: "serialize h2 LA = map skeleton (filter (\<lambda>x. Status x \<noteq> None) (serialize h2 RA))"
    and pLA: "\<forall>a \<in> set LA. ptrsOk h2 a"
    using map_eq_imp_skeleton[OF mA2] unfolding skeleton_filter_serialize wfA2(1) by blast+
  have sM: "serialize h2 LM = map skeleton (filter (\<lambda>x. Status x \<noteq> None) (serialize h2 RM))"
    and pLM: "\<forall>a \<in> set LM. ptrsOk h2 a"
    using map_eq_imp_skeleton[OF mM] unfolding skeleton_filter_serialize wfM2(1) by blast+
  have disjA: "set RA \<inter> set LA = {}" using RAlt bA by fastforce
  have disjM: "set RM \<inter> set LM = {}" using RMlt1 bM by fastforce
  have disjAM: "set LM \<inter> set LA = {}" using bA bM by fastforce
  have disjRMA: "set RM \<inter> set LA = {}" using RMlt bA by fastforce
  have simA: "simulates LA pa (absBuild env (trackedAnimeMap q) sa (serialize h0 RA))"
    using phase_sim[OF dA disjA pLA pRA sA, of sa env "trackedAnimeMap q"] by (simp add: pa_def wfA2(1))
  define pmf where "pmf = (\<lambda>h3. if length sm > 0
      then createLocalCollection env (trackedMangaMap q) (snapshotMap sm) LM RM h3 else Inr h3)"
  have bl: "buildLocalCollections env ac mc q =
     (case pa of Inl err \<Rightarrow> Inl err
      | Inr h3 \<Rightarrow> (case pmf h3 of Inl err \<Rightarrow> Inl err | Inr h4 \<Rightarrow> Inr (LA, LM, h4)))"
    unfolding buildLocalCollections_def Let_def pa_def pmf_def sa_def sm_def
    using r1 r2 unfolding RA_def RM_def h0_def by simp
  show ?thesis
  proof (cases pa)
    case (Inl x)
    then have "absBuild env (trackedAnimeMap q) sa (serialize h0 RA) = None"
      using simA by (simp add: simulates_def)
    then show ?thesis
      unfolding bl Inl by (simp add: sa_def h0_def RA_def)
  next
    case (Inr h3)
    then have aA: "absBuild env (trackedAnimeMap q) sa (serialize h0 RA) = Some (serialize h3 LA)"
      and pLA3: "\<forall>a \<in> set LA. ptrsOk h3 a"
      using simA by (simp_all add: simulates_def)
    have pr3: "preserves (set LA) h2 h3"
      using phase_preserves[of LA h2 sa env "trackedAnimeMap q" "snapshotMap sa" RA] Inr
      by (simp add: pa_def heapOf_def)
    have sLM3: "serialize h3 LM = serialize h2 LM" and pLM3: "\<forall>b \<in> set LM. ptrsOk h3 b"
      using serialize_preserved[OF pr3 disjAM pLM] by simp_all
    have sRM3: "serialize h3 RM = serialize h2 RM" and pRM3: "\<forall>b \<in> set RM. ptrsOk h3 b"
      using serialize_preserved[OF pr3 disjRMA pRM] by simp_all
    define pm where "pm = pmf h3"
    have sM3: "serialize h3 LM = map skeleton (filter (\<lambda>x. Status x \<noteq> None) (serialize h3 RM))"
      unfolding sLM3 sRM3 by (rule sM)
    have simM: "simulates LM pm (absBuild env (trackedMangaMap q) sm (serialize h0 RM))"
      using phase_sim[OF dM disjM pLM3 pRM3 sM3, of sm env "trackedMangaMap q"]
      by (simp add: pm_def pmf_def sRM3 wfM2(1))
    show ?thesis
    proof (cases pm)
      case (Inl x)
      then have "absBuild env (trackedMangaMap q) sm (serialize h0 RM) = None"
        using simM by (simp add: simulates_def)
      then show ?thesis
        unfolding bl \<open>pa = Inr h3\<close> using Inl by (simp add: pm_def[symmetric] sm_def h0_def RM_def)
    next
      case (Inr h4)
      then have aM: "absBuild env (trackedMangaMap q) sm (serialize h0 RM) = Some (serialize h4 LM)"
        using simM by (simp_all add: simulates_def)
      have pr4: "preserves (set LM) h3 h4"
        using phase_preserves[of LM h3 sm env "trackedMangaMap q" "snapshotMap sm" RM] Inr
        by (simp add: pm_def pmf_def heapOf_def)
      have "set LA \<inter> set LM = {}" using disjAM by auto
      then have "serialize h4 LA = serialize h3 LA"
        using serialize_preserved(1)[OF pr4 _ pLA3] by simp
      then show ?thesis
        unfolding bl \<open>pa = Inr h3\<close> using Inr aA aM
        by (simp add: pm_def[symmetric] sm_def sa_def h0_def RM_def RA_def)
    qed
  qed
qed

subsection \<open>The value-level builder: list headers\<close>

lemma header_absAdd: "map header (absAdd V st v) = map header V"
  by (induction V) (simp_all add: header_def)

lemma header_absPlace: "absPlace env V st e s = Some V' \<Longrightarrow> map header V' = map header V"
  by (auto simp: absPlace_def header_absAdd split: if_splits option.splits)

lemma header_absEntries: "absEntries env tr sm st es V = Some V' \<Longrightarrow> map header V' = map header V"
proof (induction es arbitrary: V)
  case Nil
  then show ?case by simp
next
  case (Cons e es)
  show ?case
  proof (cases "tr (mediaIdOf e)")
    case None
    then show ?thesis using Cons.prems Cons.IH[of V] by simp
  next
    case (Some t)
    note tr = Some
    show ?thesis
    proof (cases "sm (mediaIdOf e)")
      case None
      then show ?thesis using Cons.prems tr Cons.IH[of V] by simp
    next
      case (Some s)
      show ?thesis
      proof (cases "absPlace env V st e s")
        case None
        then show ?thesis using Cons.prems tr Some by simp
      next
        case (Some V1)
        then have "absEntries env tr sm st es V1 = Some V'"
          using Cons.prems tr \<open>sm (mediaIdOf e) = Some s\<close> by simp
        then have "map header V' = map header V1" by (rule Cons.IH)
        then show ?thesis using header_absPlace[OF Some] by simp
      qed
    qed
  qed
qed

lemma header_absLists: "absLists env tr sm R V = Some V' \<Longrightarrow> map header V' = map header V"
proof (induction R arbitrary: V)
  case Nil
  then show ?case by simp
next
  case (Cons l ls)
  show ?case
  proof (cases "Status l")
    case None
    then show ?thesis using Cons.prems Cons.IH[of V] by simp
  next
    case (Some st)
    show ?thesis
    proof (cases "absEntries env tr sm st (Entries l) V")
      case None
      then show ?thesis using Cons.prems Some by simp
    next
      case (Some V1)
      then have "absLists env tr sm ls V1 = Some V'"
        using Cons.prems \<open>Status l = Some st\<close> by simp
      then have "map header V' = map header V1" by (rule Cons.IH)
      then show ?thesis using header_absEntries[OF Some] by simp
    qed
  qed
qed

lemma header_skeleton [simp]: "header (skeleton l) = header l"
  by (simp add: header_def)

lemma header_absBuild:
  assumes "absBuild env tr snaps R = Some V"
  shows "map header V = map header (filter (\<lambda>l. Status l \<noteq> None) R)"
proof (cases "length snaps > 0")
  case True
  then have "absLists env tr (snapshotMap snaps) R (map skeleton (filter (\<lambda>l. Status l \<noteq> None) R)) = Some V"
    using assms unfolding absBuild_def Let_def by simp
  from header_absLists[OF this] show ?thesis by (simp add: comp_def)
next
  case False
  then have "V = map skeleton (filter (\<lambda>l. Status l \<noteq> None) R)"
    using assms unfolding absBuild_def Let_def by simp
  then show ?thesis by (simp add: comp_def)
qed

lemma header_status: "map header V = map header W \<Longrightarrow> map Status V = map Status W"
proof -
  assume "map header V = map header W"
  then have "map (fst \<circ> header) V = map (fst \<circ> header) W"
    by (metis map_map)
  moreover have "fst \<circ> header = (Status :: 'a MediaList \<Rightarrow> _)"
       "fst \<circ> header = (Status :: 'b MediaList \<Rightarrow> _)"
    by (simp_all add: fun_eq_iff header_def)
  ultimately show ?thesis by simp
qed

subsection \<open>The snapshot map\<close>

lemma fold_snapshot_Some:
  "fold (\<lambda>snapshot m. m(MediaId snapshot \<mapsto> snapshot)) snaps m0 k = Some s \<Longrightarrow>
     (s \<in> set snaps \<and> MediaId s = k) \<or> m0 k = Some s"
proof -
  define f :: "'a Snapshot_scheme \<Rightarrow> (int \<rightharpoonup> 'a Snapshot_scheme) \<Rightarrow> (int \<rightharpoonup> 'a Snapshot_scheme)"
    where "f = (\<lambda>snapshot m. m(MediaId snapshot \<mapsto> snapshot))"
  have "fold f snaps m0 k = Some s \<Longrightarrow> (s \<in> set snaps \<and> MediaId s = k) \<or> m0 k = Some s"
  proof (induction snaps arbitrary: m0)
    case Nil
    then show ?case by simp
  next
    case (Cons x xs)
    from Cons.prems have "fold f xs (f x m0) k = Some s" by simp
    from Cons.IH[OF this] have "(s \<in> set xs \<and> MediaId s = k) \<or> f x m0 k = Some s" .
    then show ?case
    proof
      assume "s \<in> set xs \<and> MediaId s = k"
      then show ?thesis by simp
    next
      assume "f x m0 k = Some s"
      then show ?thesis by (cases "k = MediaId x") (simp_all add: f_def)
    qed
  qed
  then show "fold (\<lambda>snapshot m. m(MediaId snapshot \<mapsto> snapshot)) snaps m0 k = Some s \<Longrightarrow>
     (s \<in> set snaps \<and> MediaId s = k) \<or> m0 k = Some s"
    unfolding f_def .
qed

lemma fold_snapshot_dom:
  "dom (fold (\<lambda>snapshot m. m(MediaId snapshot \<mapsto> snapshot)) snaps m0) = dom m0 \<union> MediaId ` set snaps"
  by (induction snaps arbitrary: m0) auto

lemma snapshotMap_Some: "snapshotMap snaps k = Some s \<Longrightarrow> s \<in> set snaps \<and> MediaId s = k"
  using fold_snapshot_Some[of snaps Map.empty k s] by (simp add: snapshotMap_def)

lemma snapshotMap_dom: "dom (snapshotMap snaps) = MediaId ` set snaps"
  by (simp add: snapshotMap_def fold_snapshot_dom)

lemma passes_iff:
  "passes tr snaps e \<longleftrightarrow> tr (mediaIdOf e) \<noteq> None \<and> snapshotMap snaps (mediaIdOf e) \<noteq> None"
  using snapshotMap_dom[of snaps] by (auto simp: passes_def dom_def)

subsection \<open>The value-level builder: where an entry lands\<close>

lemma length_absAdd [simp]: "length (absAdd V st v) = length V"
  by (induction V) simp_all

lemma status_absAdd: "map Status (absAdd V st v) = map Status V"
  by (induction V) simp_all

lemma absAdd_entries:
  "j < length V \<Longrightarrow> x \<in> set (Entries (absAdd V st v ! j)) \<Longrightarrow>
     x \<in> set (Entries (V ! j)) \<or> (x = v \<and> Status (V ! j) = Some st \<and> (\<forall>i < j. Status (V ! i) \<noteq> Some st))"
proof (induction V arbitrary: j)
  case Nil
  then show ?case by simp
next
  case (Cons l ls)
  show ?case
  proof (cases "Status l = Some st")
    case True
    show ?thesis
    proof (cases j)
      case 0
      then show ?thesis using Cons.prems True by auto
    next
      case (Suc k)
      then show ?thesis using Cons.prems True by simp
    qed
  next
    case False
    show ?thesis
    proof (cases j)
      case 0
      then show ?thesis using Cons.prems False by simp
    next
      case (Suc k)
      then have k: "k < length ls" "x \<in> set (Entries (absAdd ls st v ! k))"
        using Cons.prems False by simp_all
      from Cons.IH[OF k] show ?thesis
      proof
        assume "x \<in> set (Entries (ls ! k))"
        then show ?thesis using Suc by simp
      next
        assume a: "x = v \<and> Status (ls ! k) = Some st \<and> (\<forall>i<k. Status (ls ! i) \<noteq> Some st)"
        have "\<forall>i<j. Status ((l # ls) ! i) \<noteq> Some st"
        proof (intro allI impI)
          fix i assume "i < j"
          show "Status ((l # ls) ! i) \<noteq> Some st"
          proof (cases i)
            case 0
            then show ?thesis using False by simp
          next
            case (Suc i')
            then have "i' < k" using \<open>i < j\<close> \<open>j = Suc k\<close> by simp
            then show ?thesis using a Suc by simp
          qed
        qed
        then show ?thesis using a Suc by simp
      qed
    qed
  qed
qed

lemma total_absAdd:
  "\<exists>l \<in> set V. Status l = Some st \<Longrightarrow> total (absAdd V st v) = Suc (total V)"
proof (induction V)
  case Nil
  then show ?case by simp
next
  case (Cons l ls)
  show ?case
  proof (cases "Status l = Some st")
    case True
    then show ?thesis by (simp add: total_def)
  next
    case False
    then have "\<exists>l \<in> set ls. Status l = Some st" using Cons.prems by auto
    from Cons.IH[OF this] show ?thesis using False by (simp add: total_def)
  qed
qed

subsection \<open>Every entry is accounted for\<close>

lemma placed_cong:
  assumes "map Status V' = map Status V" "j < length V" "placed env tr snaps R V j v"
  shows "placed env tr snaps R V' j v"
proof -
  have len: "length V' = length V" using assms(1) by (metis length_map)
  have st: "\<And>i. i < length V \<Longrightarrow> Status (V' ! i) = Status (V ! i)"
  proof -
    fix i assume i: "i < length V"
    then have "map Status V' ! i = map Status V ! i" using assms(1) by simp
    then show "Status (V' ! i) = Status (V ! i)" using i len by simp
  qed
  have stj: "Status (V' ! j) = Status (V ! j)" using st assms(2) by simp
  have sti: "\<And>i. i < j \<Longrightarrow> Status (V' ! i) = Status (V ! i)" using st assms(2) by simp
  show ?thesis
    using assms(3) unfolding placed_def stj by (metis sti)
qed

lemma newEntry_eq: "newEntry (e :: 'm ListEntry) m' = e\<lparr>Media := Some m'\<rparr>"
  by (simp add: newEntry_def)

lemma absPlace_placed:
  assumes "l \<in> set R" "e \<in> set (Entries l)" "Status l = Some st"
    and "tr (mediaIdOf e) = Some t" "snapshotMap snaps (mediaIdOf e) = Some s"
    and "absPlace env V st e s = Some V'" "allPlaced env tr snaps R V"
  shows "allPlaced env tr snaps R V'"
proof (cases "\<forall>l \<in> set V. Status l \<noteq> Some st")
  case True
  then have "V' = V" using assms(6) by (simp add: absPlace_def)
  then show ?thesis using assms(7) by simp
next
  case False
  have nn: "Media e \<noteq> None"
  proof
    assume "Media e = None"
    then have "absPlace env V st e s = None" using False by (simp add: absPlace_def)
    then show False using assms(6) by simp
  qed
  then obtain m where m: "Media e = Some m" by auto
  have V': "V' = absAdd V st (newEntry e (editedMedia env s m))"
    using assms(6) False m by (simp add: absPlace_def)
  have id: "mediaIdOf e = ID m" using m by (simp add: mediaIdOf_def)
  have s: "s \<in> set snaps" "MediaId s = ID m" using snapshotMap_Some[OF assms(5)] id by simp_all
  have stat: "map Status V' = map Status V" by (simp add: V' status_absAdd)
  have len: "length V' = length V" by (simp add: V')
  show ?thesis
    unfolding allPlaced_def
  proof (intro allI impI ballI)
    fix j v assume j: "j < length V'" and v: "v \<in> set (Entries (V' ! j))"
    have jl: "j < length V" using j len by simp
    from absAdd_entries[OF jl v[unfolded V']]
    show "placed env tr snaps R V' j v"
    proof
      assume "v \<in> set (Entries (V ! j))"
      then have "placed env tr snaps R V j v" using assms(7) jl by (simp add: allPlaced_def)
      then show ?thesis by (rule placed_cong[OF stat jl])
    next
      assume a: "v = newEntry e (editedMedia env s m) \<and> Status (V ! j) = Some st \<and>
                 (\<forall>i<j. Status (V ! i) \<noteq> Some st)"
      have "placed env tr snaps R V j v"
        unfolding placed_def
      proof (intro bexI[of _ l] bexI[of _ e] exI[of _ st] exI[of _ m] exI[of _ s] conjI)
        show "Status l = Some st" by (rule assms(3))
        show "Media e = Some m" by (rule m)
        show "ID m \<in> dom tr" using assms(4) id by auto
        show "s \<in> set snaps" by (rule s(1))
        show "MediaId s = ID m" by (rule s(2))
        show "Status (V ! j) = Some st" using a by simp
        show "\<forall>i<j. Status (V ! i) \<noteq> Some st" using a by simp
        show "v = e\<lparr>Media := Some (m\<lparr>
              BannerImage := FormatAssetUrl env (MediaId s) (BannerImagePath s),
              CoverImage := Some
                \<lparr>ExtraLarge = FormatAssetUrl env (MediaId s) (CoverImagePath s),
                 Large = FormatAssetUrl env (MediaId s) (CoverImagePath s),
                 Medium = FormatAssetUrl env (MediaId s) (CoverImagePath s),
                 Color = FormatAssetUrl env (MediaId s) (CoverImagePath s)\<rparr>\<rparr>)\<rparr>"
          using a by (simp add: newEntry_eq editedMedia_def editedCoverImage_def)
        show "e \<in> set (Entries l)" by (rule assms(2))
        show "l \<in> set R" by (rule assms(1))
      qed
      then show ?thesis by (rule placed_cong[OF stat jl])
    qed
  qed
qed

lemma absEntries_placed:
  assumes "l \<in> set R" "Status l = Some st"
  shows "set es \<subseteq> set (Entries l) \<Longrightarrow> absEntries env tr (snapshotMap snaps) st es V = Some V' \<Longrightarrow>
           allPlaced env tr snaps R V \<Longrightarrow> allPlaced env tr snaps R V'"
proof (induction es arbitrary: V)
  case Nil
  then show ?case by simp
next
  case (Cons e es)
  have sub: "set es \<subseteq> set (Entries l)" and e: "e \<in> set (Entries l)" using Cons.prems(1) by auto
  show ?case
  proof (cases "tr (mediaIdOf e)")
    case None
    then have "absEntries env tr (snapshotMap snaps) st es V = Some V'" using Cons.prems(2) by simp
    then show ?thesis using Cons.IH[OF sub _ Cons.prems(3)] by simp
  next
    case (Some t)
    note tr = Some
    show ?thesis
    proof (cases "snapshotMap snaps (mediaIdOf e)")
      case None
      then have "absEntries env tr (snapshotMap snaps) st es V = Some V'" using Cons.prems(2) tr by simp
      then show ?thesis using Cons.IH[OF sub _ Cons.prems(3)] by simp
    next
      case (Some s)
      show ?thesis
      proof (cases "absPlace env V st e s")
        case None
        then show ?thesis using Cons.prems(2) tr Some by simp
      next
        case (Some V1)
        then have r: "absEntries env tr (snapshotMap snaps) st es V1 = Some V'"
          using Cons.prems(2) tr \<open>snapshotMap snaps (mediaIdOf e) = Some s\<close> by simp
        have "allPlaced env tr snaps R V1"
          using absPlace_placed[OF assms(1) e assms(2) tr \<open>snapshotMap snaps (mediaIdOf e) = Some s\<close> Some Cons.prems(3)] .
        then show ?thesis using Cons.IH[OF sub r] by simp
      qed
    qed
  qed
qed

lemma absLists_placed:
  "set ls \<subseteq> set R \<Longrightarrow> absLists env tr (snapshotMap snaps) ls V = Some V' \<Longrightarrow>
     allPlaced env tr snaps R V \<Longrightarrow> allPlaced env tr snaps R V'"
proof (induction ls arbitrary: V)
  case Nil
  then show ?case by simp
next
  case (Cons l ls)
  have sub: "set ls \<subseteq> set R" and l: "l \<in> set R" using Cons.prems(1) by auto
  show ?case
  proof (cases "Status l")
    case None
    then have "absLists env tr (snapshotMap snaps) ls V = Some V'" using Cons.prems(2) by simp
    then show ?thesis using Cons.IH[OF sub _ Cons.prems(3)] by simp
  next
    case (Some st)
    show ?thesis
    proof (cases "absEntries env tr (snapshotMap snaps) st (Entries l) V")
      case None
      then show ?thesis using Cons.prems(2) Some by simp
    next
      case (Some V1)
      then have r: "absLists env tr (snapshotMap snaps) ls V1 = Some V'"
        using Cons.prems(2) \<open>Status l = Some st\<close> by simp
      have "allPlaced env tr snaps R V1"
        using absEntries_placed[OF l \<open>Status l = Some st\<close> _ Some Cons.prems(3)] by simp
      then show ?thesis using Cons.IH[OF sub r] by simp
    qed
  qed
qed

lemma absBuild_placed:
  assumes "absBuild env tr snaps R = Some V"
  shows "allPlaced env tr snaps R V"
proof -
  define V0 :: "BaseMedia MediaList list" where "V0 = map skeleton (filter (\<lambda>l. Status l \<noteq> None) R)"
  have p0: "allPlaced env tr snaps R V0" by (simp add: allPlaced_def V0_def)
  show ?thesis
  proof (cases "length snaps > 0")
    case True
    then have "absLists env tr (snapshotMap snaps) R V0 = Some V"
      using assms unfolding absBuild_def Let_def V0_def by simp
    from absLists_placed[OF _ this p0] show ?thesis by simp
  next
    case False
    then have "V = V0" using assms unfolding absBuild_def Let_def V0_def by simp
    then show ?thesis using p0 by simp
  qed
qed

lemma total_absPlace:
  assumes "Some st \<in> set (map Status V)" "absPlace env V st e s = Some V'"
  shows "total V' = Suc (total V)" and "map Status V' = map Status V"
proof -
  have ex: "\<exists>l \<in> set V. Status l = Some st" using assms(1) by auto
  then have nf: "\<not> (\<forall>l \<in> set V. Status l \<noteq> Some st)" by simp
  have nn: "Media e \<noteq> None"
  proof
    assume "Media e = None"
    then have "absPlace env V st e s = None" using nf by (simp add: absPlace_def)
    then show False using assms(2) by simp
  qed
  then obtain m where m: "Media e = Some m" by auto
  have V': "V' = absAdd V st (newEntry e (editedMedia env s m))"
    using assms(2) nf m by (simp add: absPlace_def)
  show "total V' = Suc (total V)" unfolding V' using ex by (rule total_absAdd)
  show "map Status V' = map Status V" unfolding V' by (rule status_absAdd)
qed

lemma total_absEntries:
  "Some st \<in> set (map Status V) \<Longrightarrow> absEntries env tr sm st es V = Some V' \<Longrightarrow>
     total V' = total V + length (filter (\<lambda>e. tr (mediaIdOf e) \<noteq> None \<and> sm (mediaIdOf e) \<noteq> None) es) \<and>
     map Status V' = map Status V"
proof (induction es arbitrary: V)
  case Nil
  then show ?case by simp
next
  case (Cons e es)
  show ?case
  proof (cases "tr (mediaIdOf e)")
    case None
    then have "absEntries env tr sm st es V = Some V'" using Cons.prems(2) by simp
    from Cons.IH[OF Cons.prems(1) this] show ?thesis using None by simp
  next
    case (Some t)
    note tr = Some
    show ?thesis
    proof (cases "sm (mediaIdOf e)")
      case None
      then have "absEntries env tr sm st es V = Some V'" using Cons.prems(2) tr by simp
      from Cons.IH[OF Cons.prems(1) this] show ?thesis using None by simp
    next
      case (Some s)
      show ?thesis
      proof (cases "absPlace env V st e s")
        case None
        then show ?thesis using Cons.prems(2) tr Some by simp
      next
        case (Some V1)
        then have r: "absEntries env tr sm st es V1 = Some V'"
          using Cons.prems(2) tr \<open>sm (mediaIdOf e) = Some s\<close> by simp
        note p = total_absPlace[OF Cons.prems(1) Some]
        have "Some st \<in> set (map Status V1)" using Cons.prems(1) unfolding p(2) .
        from Cons.IH[OF this r] show ?thesis
          using p tr \<open>sm (mediaIdOf e) = Some s\<close> by simp
      qed
    qed
  qed
qed

lemma total_absLists:
  "\<forall>l \<in> set ls. Status l \<noteq> None \<longrightarrow> Status l \<in> set (map Status V) \<Longrightarrow>
   absLists env tr sm ls V = Some V' \<Longrightarrow>
     total V' = total V + length (filter (\<lambda>e. tr (mediaIdOf e) \<noteq> None \<and> sm (mediaIdOf e) \<noteq> None)
                                    (concat (map Entries (filter (\<lambda>l. Status l \<noteq> None) ls))))"
proof (induction ls arbitrary: V)
  case Nil
  then show ?case by simp
next
  case (Cons l ls)
  have rest: "\<forall>x \<in> set ls. Status x \<noteq> None \<longrightarrow> Status x \<in> set (map Status V)"
    using Cons.prems(1) by simp
  show ?case
  proof (cases "Status l")
    case None
    then have "absLists env tr sm ls V = Some V'" using Cons.prems(2) by simp
    from Cons.IH[OF rest this] show ?thesis using None by simp
  next
    case (Some st)
    have mem: "Some st \<in> set (map Status V)" using Cons.prems(1) Some by simp
    show ?thesis
    proof (cases "absEntries env tr sm st (Entries l) V")
      case None
      then show ?thesis using Cons.prems(2) Some by simp
    next
      case (Some V1)
      then have r: "absLists env tr sm ls V1 = Some V'"
        using Cons.prems(2) \<open>Status l = Some st\<close> by simp
      from total_absEntries[OF mem Some] have
        t1: "total V1 = total V + length (filter (\<lambda>e. tr (mediaIdOf e) \<noteq> None \<and> sm (mediaIdOf e) \<noteq> None) (Entries l))"
        and s1: "map Status V1 = map Status V" by simp_all
      have rest1: "\<forall>x \<in> set ls. Status x \<noteq> None \<longrightarrow> Status x \<in> set (map Status V1)"
        using rest unfolding s1 .
      from Cons.IH[OF rest1 r] show ?thesis
        using t1 \<open>Status l = Some st\<close> by simp
    qed
  qed
qed

lemma total_skeleton: "total (map skeleton xs) = 0"
  by (induction xs) (simp_all add: total_def)

lemma absBuild_total:
  assumes "absBuild env tr snaps R = Some V"
  shows "total V = length (filter (passes tr snaps) (concat (map Entries (filter (\<lambda>l. Status l \<noteq> None) R))))"
proof -
  define V0 :: "BaseMedia MediaList list" where "V0 = map skeleton (filter (\<lambda>l. Status l \<noteq> None) R)"
  have st0: "map Status V0 = map Status (filter (\<lambda>l. Status l \<noteq> None) R)"
    by (simp add: V0_def comp_def)
  have c0: "\<forall>l \<in> set R. Status l \<noteq> None \<longrightarrow> Status l \<in> set (map Status V0)"
    unfolding st0 by auto
  have p: "passes tr snaps = (\<lambda>e. tr (mediaIdOf e) \<noteq> None \<and> snapshotMap snaps (mediaIdOf e) \<noteq> None)"
    by (simp add: fun_eq_iff passes_iff)
  show ?thesis
  proof (cases "length snaps > 0")
    case True
    then have "absLists env tr (snapshotMap snaps) R V0 = Some V"
      using assms unfolding absBuild_def Let_def V0_def by simp
    from total_absLists[OF c0 this] show ?thesis
      unfolding p by (simp add: V0_def total_skeleton)
  next
    case False
    then have V: "V = V0" and e: "snaps = []" using assms unfolding absBuild_def Let_def V0_def by simp_all
    have "filter (passes tr snaps) (concat (map Entries (filter (\<lambda>l. Status l \<noteq> None) R))) = []"
      unfolding e by (simp add: passes_def)
    then show ?thesis by (simp add: V V0_def total_skeleton)
  qed
qed

lemma absBuild_mirrors:
  assumes "absBuild env tr snaps R = Some V"
  shows "mirrors env tr snaps R V"
  using absBuild_placed[OF assms] absBuild_total[OF assms]
  by (simp add: mirrors_def allPlaced_def total_def)

lemmas builder_defs = synchronizeCollections_def buildLocalCollections_def saveLocalCollections_def
  SaveAnimeCollection_def SaveMangaCollection_def GetAnimeSnapshots_def GetMangaSnapshots_def
  snapshotMap_def GetLists_def newList_def newMedia_def appendEntry_def BaseMediaDeepCopy_def
  GetMediaID_def Let_def

subsection \<open>A whole pass\<close>

lemma build_unchanged:
  "unchanged (memory q) (case buildLocalCollections env ac mc q of Inl (err, h) \<Rightarrow> h | Inr (la, lm, h) \<Rightarrow> h)"
proof -
  define h0 where "h0 = memory q"
  define RA where "RA = GetLists ac"
  define RM where "RM = GetLists mc"
  define sa where "sa = GetAnimeSnapshots env q"
  define sm where "sm = GetMangaSnapshots env q"
  obtain LA h1 where r1: "recreateLists RA [] h0 = (LA, h1)" by (cases "recreateLists RA [] h0")
  obtain LM h2 where r2: "recreateLists RM [] h1 = (LM, h2)" by (cases "recreateLists RM [] h1")
  define pa where "pa = (if length sa > 0 then createLocalCollection env (trackedAnimeMap q) (snapshotMap sa) LA RA h2 else Inr h2)"
  define pmf where "pmf = (\<lambda>h3. if length sm > 0
      then createLocalCollection env (trackedMangaMap q) (snapshotMap sm) LM RM h3 else Inr h3)"
  have bl: "buildLocalCollections env ac mc q =
     (case pa of Inl err \<Rightarrow> Inl err
      | Inr h3 \<Rightarrow> (case pmf h3 of Inl err \<Rightarrow> Inl err | Inr h4 \<Rightarrow> Inr (LA, LM, h4)))"
    unfolding buildLocalCollections_def Let_def pa_def pmf_def sa_def sm_def
    using r1 r2 unfolding RA_def RM_def h0_def by simp
  from recreateLists_unchanged[OF r1] have u1: "unchanged h0 h1"
    and bA: "\<forall>a \<in> set LA. listNext h0 \<le> a" by auto
  from recreateLists_unchanged[OF r2] have u2: "unchanged h1 h2"
    and bM1: "\<forall>a \<in> set LM. listNext h1 \<le> a" by auto
  have "listNext h0 \<le> listNext h1" using u1 by (simp add: unchanged_def)
  then have bM: "\<forall>a \<in> set LM. listNext h0 \<le> a" using bM1 by auto
  have u02: "unchanged h0 h2" using u1 u2 by (rule unchanged_trans)
  have pA: "preserves (set LA) h2 (heapOf pa)"
    unfolding pa_def by (rule phase_preserves)
  have uA: "unchanged h0 (heapOf pa)" using pA bA u02 by (rule preserves_unchanged)
  show ?thesis
  proof (cases pa)
    case (Inl x)
    then show ?thesis using uA unfolding bl h0_def by (cases x) (simp add: heapOf_def)
  next
    case (Inr h3)
    then have u3: "unchanged h0 h3" using uA by (simp add: heapOf_def)
    have pM: "preserves (set LM) h3 (heapOf (pmf h3))"
      unfolding pmf_def by (rule phase_preserves)
    have uM: "unchanged h0 (heapOf (pmf h3))" using pM bM u3 by (rule preserves_unchanged)
    show ?thesis
    proof (cases "pmf h3")
      case (Inl x)
      then show ?thesis using uM unfolding bl \<open>pa = Inr h3\<close> h0_def by (cases x) (simp add: heapOf_def)
    next
      case (Inr h4)
      then show ?thesis using uM unfolding bl \<open>pa = Inr h3\<close> h0_def by (simp add: heapOf_def)
    qed
  qed
qed

lemma save_fields:
  "memory (snd (saveLocalCollections env la lm q)) = memory q"
  "animeCollection (snd (saveLocalCollections env la lm q)) = animeCollection q"
  "mangaCollection (snd (saveLocalCollections env la lm q)) = mangaCollection q"
  "trackedAnimeMap (snd (saveLocalCollections env la lm q)) = trackedAnimeMap q"
  "trackedMangaMap (snd (saveLocalCollections env la lm q)) = trackedMangaMap q"
  "dbAnimeSnapshots (snd (saveLocalCollections env la lm q)) = dbAnimeSnapshots q"
  "dbMangaSnapshots (snd (saveLocalCollections env la lm q)) = dbMangaSnapshots q"
  "shouldUpdateLocalCollections (snd (saveLocalCollections env la lm q)) = shouldUpdateLocalCollections q"
  "doneUpdatingLocalCollections (snd (saveLocalCollections env la lm q)) = doneUpdatingLocalCollections q"
  "animeJobQueue (snd (saveLocalCollections env la lm q)) = animeJobQueue q"
  "mangaJobQueue (snd (saveLocalCollections env la lm q)) = mangaJobQueue q"
  "logger (snd (saveLocalCollections env la lm q)) = logger q"
  by (simp_all add: saveLocalCollections_def SaveAnimeCollection_def SaveMangaCollection_def Let_def
      split: option.splits)

lemma save_success:
  assumes "fst (saveLocalCollections env la lm q) = None"
  shows "dbAnimeCollection (snd (saveLocalCollections env la lm q)) = Some (serialize (memory q) la)"
    and "dbMangaCollection (snd (saveLocalCollections env la lm q)) = Some (serialize (memory q) lm)"
    and "localAnimeCollection (snd (saveLocalCollections env la lm q)) = Some \<lparr>MediaListCollection = Some la\<rparr>"
    and "localMangaCollection (snd (saveLocalCollections env la lm q)) = Some \<lparr>MediaListCollection = Some lm\<rparr>"
    and "SaveAnimeCollectionErr env = None" and "SaveMangaCollectionErr env = None"
  using assms
  by (simp_all add: saveLocalCollections_def SaveAnimeCollection_def SaveMangaCollection_def Let_def
      split: option.splits)

lemma save_ok:
  assumes "SaveAnimeCollectionErr env = None" "SaveMangaCollectionErr env = None"
  shows "fst (saveLocalCollections env la lm q) = None"
  using assms
  by (simp add: saveLocalCollections_def SaveAnimeCollection_def SaveMangaCollection_def Let_def)

lemma sync_built:
  assumes "animeCollection q = Some ac" "mangaCollection q = Some mc"
    and "buildLocalCollections env ac mc q = Inr (la, lm, h)"
  shows "synchronizeCollections env q = saveLocalCollections env la lm (q\<lparr>memory := h\<rparr>)"
  using assms by (simp add: synchronizeCollections_def)

lemma sync_panicked:
  assumes "animeCollection q = Some ac" "mangaCollection q = Some mc"
    and "buildLocalCollections env ac mc q = Inl (err, h)"
  shows "synchronizeCollections env q = (Some (''panic: '' @ err), q\<lparr>memory := h\<rparr>)"
  using assms by (simp add: synchronizeCollections_def)

lemma sync_success:
  assumes "animeCollection q = Some ac" "mangaCollection q = Some mc"
    and "synchronizeCollections env q = (None, q')"
  obtains la lm h where "buildLocalCollections env ac mc q = Inr (la, lm, h)"
    and "q' = snd (saveLocalCollections env la lm (q\<lparr>memory := h\<rparr>))"
    and "fst (saveLocalCollections env la lm (q\<lparr>memory := h\<rparr>)) = None"
proof (cases "buildLocalCollections env ac mc q")
  case (Inl x)
  obtain err h where "x = (err, h)" by (cases x)
  then have "synchronizeCollections env q = (Some (''panic: '' @ err), q\<lparr>memory := h\<rparr>)"
    using sync_panicked[OF assms(1,2)] Inl by simp
  then show ?thesis using assms(3) by simp
next
  case (Inr y)
  obtain la lm h where y: "y = (la, lm, h)" by (cases y)
  have s: "synchronizeCollections env q = saveLocalCollections env la lm (q\<lparr>memory := h\<rparr>)"
    using sync_built[OF assms(1,2)] Inr y by simp
  have e: "saveLocalCollections env la lm (q\<lparr>memory := h\<rparr>) = (None, q')"
    using s assms(3) by simp
  show ?thesis
  proof (rule that[of la lm h])
    show "buildLocalCollections env ac mc q = Inr (la, lm, h)" using Inr y by simp
    show "q' = snd (saveLocalCollections env la lm (q\<lparr>memory := h\<rparr>))" unfolding e by simp
    show "fst (saveLocalCollections env la lm (q\<lparr>memory := h\<rparr>)) = None" unfolding e by simp
  qed
qed

text \<open>A successful pass computes what the value-level builder computes.\<close>

lemma sync_refines:
  assumes "animeCollection q = Some ac" "mangaCollection q = Some mc"
    and "wfCollection (memory q) ac" "wfCollection (memory q) mc"
    and "synchronizeCollections env q = (None, q')"
  shows "absBuild env (trackedAnimeMap q) (GetAnimeSnapshots env q) (serialize (memory q) (GetLists ac))
           = Some (serialize (memory q') (listsOf (localAnimeCollection q')))"
    and "absBuild env (trackedMangaMap q) (GetMangaSnapshots env q) (serialize (memory q) (GetLists mc))
           = Some (serialize (memory q') (listsOf (localMangaCollection q')))"
    and "dbAnimeCollection q' = Some (serialize (memory q') (listsOf (localAnimeCollection q')))"
    and "dbMangaCollection q' = Some (serialize (memory q') (listsOf (localMangaCollection q')))"
    and "localAnimeCollection q' \<noteq> None" and "localMangaCollection q' \<noteq> None"
proof -
  from sync_success[OF assms(1,2,5)] obtain la lm h where
    b: "buildLocalCollections env ac mc q = Inr (la, lm, h)"
    and q': "q' = snd (saveLocalCollections env la lm (q\<lparr>memory := h\<rparr>))"
    and ok: "fst (saveLocalCollections env la lm (q\<lparr>memory := h\<rparr>)) = None"
    by blast
  note s = save_success[OF ok]
  have m: "memory q' = h" unfolding q' by (simp add: save_fields)
  have la: "listsOf (localAnimeCollection q') = la" and lm: "listsOf (localMangaCollection q') = lm"
    unfolding q' by (simp_all add: s listsOf_def GetLists_def)
  from build_sim[OF assms(3,4), of env] b have
    a1: "absBuild env (trackedAnimeMap q) (GetAnimeSnapshots env q) (serialize (memory q) (GetLists ac))
           = Some (serialize h la)"
    and a2: "absBuild env (trackedMangaMap q) (GetMangaSnapshots env q) (serialize (memory q) (GetLists mc))
           = Some (serialize h lm)"
    by simp_all
  show "absBuild env (trackedAnimeMap q) (GetAnimeSnapshots env q) (serialize (memory q) (GetLists ac))
           = Some (serialize (memory q') (listsOf (localAnimeCollection q')))"
    unfolding m la by (rule a1)
  show "absBuild env (trackedMangaMap q) (GetMangaSnapshots env q) (serialize (memory q) (GetLists mc))
           = Some (serialize (memory q') (listsOf (localMangaCollection q')))"
    unfolding m lm by (rule a2)
  show "dbAnimeCollection q' = Some (serialize (memory q') (listsOf (localAnimeCollection q')))"
    unfolding m la unfolding q' by (simp add: s)
  show "dbMangaCollection q' = Some (serialize (memory q') (listsOf (localMangaCollection q')))"
    unfolding m lm unfolding q' by (simp add: s)
  show "localAnimeCollection q' \<noteq> None" "localMangaCollection q' \<noteq> None"
    unfolding q' by (simp_all add: s)
qed

lemma sync_frame:
  assumes "synchronizeCollections env q = (r, q')"
  shows "unchanged (memory q) (memory q')"
    and "animeCollection q' = animeCollection q" and "mangaCollection q' = mangaCollection q"
    and "trackedAnimeMap q' = trackedAnimeMap q" and "trackedMangaMap q' = trackedMangaMap q"
    and "dbAnimeSnapshots q' = dbAnimeSnapshots q" and "dbMangaSnapshots q' = dbMangaSnapshots q"
    and "shouldUpdateLocalCollections q' = shouldUpdateLocalCollections q"
    and "doneUpdatingLocalCollections q' = doneUpdatingLocalCollections q"
    and "animeJobQueue q' = animeJobQueue q" and "mangaJobQueue q' = mangaJobQueue q"
    and "logger q' = logger q"
proof -
  have "unchanged (memory q) (memory q') \<and>
    animeCollection q' = animeCollection q \<and> mangaCollection q' = mangaCollection q \<and>
    trackedAnimeMap q' = trackedAnimeMap q \<and> trackedMangaMap q' = trackedMangaMap q \<and>
    dbAnimeSnapshots q' = dbAnimeSnapshots q \<and> dbMangaSnapshots q' = dbMangaSnapshots q \<and>
    shouldUpdateLocalCollections q' = shouldUpdateLocalCollections q \<and>
    doneUpdatingLocalCollections q' = doneUpdatingLocalCollections q \<and>
    animeJobQueue q' = animeJobQueue q \<and> mangaJobQueue q' = mangaJobQueue q \<and> logger q' = logger q"
  proof (cases "animeCollection q")
    case None
    then show ?thesis using assms by (simp add: synchronizeCollections_def)
  next
    case (Some ac)
    note ac = Some
    show ?thesis
    proof (cases "mangaCollection q")
      case None
      then show ?thesis using assms ac by (simp add: synchronizeCollections_def)
    next
      case (Some mc)
      note u = build_unchanged[of q env ac mc]
      show ?thesis
      proof (cases "buildLocalCollections env ac mc q")
        case (Inl x)
        obtain err h where x: "x = (err, h)" by (cases x)
        have "q' = q\<lparr>memory := h\<rparr>" using sync_panicked[OF ac Some] Inl x assms by simp
        then show ?thesis using u Inl x by simp
      next
        case (Inr y)
        obtain la lm h where y: "y = (la, lm, h)" by (cases y)
        have "saveLocalCollections env la lm (q\<lparr>memory := h\<rparr>) = (r, q')"
          using sync_built[OF ac Some] Inr y assms by simp
        then have "q' = snd (saveLocalCollections env la lm (q\<lparr>memory := h\<rparr>))"
          by simp
        then show ?thesis using u Inr y by (simp add: save_fields)
      qed
    qed
  qed
  then show "unchanged (memory q) (memory q')"
    and "animeCollection q' = animeCollection q" and "mangaCollection q' = mangaCollection q"
    and "trackedAnimeMap q' = trackedAnimeMap q" and "trackedMangaMap q' = trackedMangaMap q"
    and "dbAnimeSnapshots q' = dbAnimeSnapshots q" and "dbMangaSnapshots q' = dbMangaSnapshots q"
    and "shouldUpdateLocalCollections q' = shouldUpdateLocalCollections q"
    and "doneUpdatingLocalCollections q' = doneUpdatingLocalCollections q"
    and "animeJobQueue q' = animeJobQueue q" and "mangaJobQueue q' = mangaJobQueue q"
    and "logger q' = logger q"
    by simp_all
qed

section \<open>The claims about the builder\<close>

text \<open>
  Claim C3.  After a successful pass from a state whose remote collections have no
  dangling pointer, the stored local collections are the serialized published ones; no
  local list has a null status; and the local lists are the remote lists with a status,
  in the remote order, each with the status, the name and the isCustomList flag of the
  remote list.
\<close>
theorem local_lists_are_remote_lists_with_status:
  assumes "animeCollection q = Some ac" "mangaCollection q = Some mc"
    and "wfCollection (memory q) ac" "wfCollection (memory q) mc"
    and "synchronizeCollections env q = (None, q')"
    and "localAnime = serialize (memory q') (listsOf (localAnimeCollection q'))"
    and "localManga = serialize (memory q') (listsOf (localMangaCollection q'))"
  shows "dbAnimeCollection q' = Some localAnime \<and> dbMangaCollection q' = Some localManga \<and>
         (\<forall>l \<in> set localAnime. Status l \<noteq> None) \<and> (\<forall>l \<in> set localManga. Status l \<noteq> None) \<and>
         map header localAnime = map header (filter (\<lambda>l. Status l \<noteq> None) (serialize (memory q) (GetLists ac))) \<and>
         map header localManga = map header (filter (\<lambda>l. Status l \<noteq> None) (serialize (memory q) (GetLists mc)))"
proof -
  note r = sync_refines[OF assms(1-5)]
  have hA: "map header localAnime = map header (filter (\<lambda>l. Status l \<noteq> None) (serialize (memory q) (GetLists ac)))"
    unfolding assms(6) using header_absBuild[OF r(1)] .
  have hM: "map header localManga = map header (filter (\<lambda>l. Status l \<noteq> None) (serialize (memory q) (GetLists mc)))"
    unfolding assms(7) using header_absBuild[OF r(2)] .
  have nn: "\<forall>l \<in> set V. Status l \<noteq> None"
    if "map header V = map header (filter (\<lambda>l. Status l \<noteq> None) R)"
    for V R :: "BaseMedia MediaList list"
  proof -
    have "map Status V = map Status (filter (\<lambda>l. Status l \<noteq> None) R)"
      using that by (rule header_status)
    then have "set (map Status V) = set (map Status (filter (\<lambda>l. Status l \<noteq> None) R))" by simp
    then have "Status ` set V \<subseteq> {s. s \<noteq> None}" by auto
    then show ?thesis by auto
  qed
  have dA: "dbAnimeCollection q' = Some localAnime" unfolding assms(6) by (rule r(3))
  have dM: "dbMangaCollection q' = Some localManga" unfolding assms(7) by (rule r(4))
  from dA dM nn[OF hA] nn[OF hM] hA hM show ?thesis by (intro conjI)
qed

text \<open>
  Claim C4.  After a successful pass, every entry of a local list comes from a remote
  entry whose media ID is in the tracked map and has a snapshot in the database; it
  stands in the first local list whose status is the status of the remote entry's list;
  its media is the remote media with the banner image and the four cover image fields
  set to the asset URLs of the snapshot's banner and cover paths; and the local lists
  have exactly as many entries as there are remote entries (in lists with a status)
  that pass the two tests, so each was appended once and the others were skipped.
\<close>
theorem local_entries_tracked_snapshot_first_list:
  assumes "animeCollection q = Some ac" "mangaCollection q = Some mc"
    and "wfCollection (memory q) ac" "wfCollection (memory q) mc"
    and "synchronizeCollections env q = (None, q')"
  shows "mirrors env (trackedAnimeMap q) (GetAnimeSnapshots env q) (serialize (memory q) (GetLists ac))
           (serialize (memory q') (listsOf (localAnimeCollection q'))) \<and>
         mirrors env (trackedMangaMap q) (GetMangaSnapshots env q) (serialize (memory q) (GetLists mc))
           (serialize (memory q') (listsOf (localMangaCollection q'))) \<and>
         set (GetAnimeSnapshots env q) \<subseteq> set (dbAnimeSnapshots q) \<and>
         set (GetMangaSnapshots env q) \<subseteq> set (dbMangaSnapshots q)"
proof -
  note r = sync_refines[OF assms(1-5)]
  have a: "set (GetAnimeSnapshots env q) \<subseteq> set (dbAnimeSnapshots q)"
    by (auto simp: GetAnimeSnapshots_def)
  have m: "set (GetMangaSnapshots env q) \<subseteq> set (dbMangaSnapshots q)"
    by (auto simp: GetMangaSnapshots_def)
  from absBuild_mirrors[OF r(1)] absBuild_mirrors[OF r(2)] a m show ?thesis
    by (intro conjI)
qed

lemma sync_success_env:
  assumes "animeCollection q = Some ac" "mangaCollection q = Some mc"
    and "synchronizeCollections env q = (None, q')"
  shows "SaveAnimeCollectionErr env = None \<and> SaveMangaCollectionErr env = None"
proof -
  from sync_success[OF assms] obtain la lm h where
    b: "buildLocalCollections env ac mc q = Inr (la, lm, h)"
    and q': "q' = snd (saveLocalCollections env la lm (q\<lparr>memory := h\<rparr>))"
    and ok: "fst (saveLocalCollections env la lm (q\<lparr>memory := h\<rparr>)) = None"
    by blast
  show ?thesis using save_success(5,6)[OF ok] by simp
qed

text \<open>
  Claim C8.  The builder is a function of its state, and it is idempotent: a second pass
  after a successful one succeeds too, and stores and publishes local anime and manga
  collections whose serialized form is that of the first pass.
\<close>
theorem builder_idempotent:
  assumes "animeCollection q = Some ac" "mangaCollection q = Some mc"
    and "wfCollection (memory q) ac" "wfCollection (memory q) mc"
    and "synchronizeCollections env q = (None, q1)"
    and "synchronizeCollections env q1 = (r, q2)"
  shows "r = None \<and>
         dbAnimeCollection q2 = dbAnimeCollection q1 \<and> dbMangaCollection q2 = dbMangaCollection q1 \<and>
         serialize (memory q2) (listsOf (localAnimeCollection q2))
           = serialize (memory q1) (listsOf (localAnimeCollection q1)) \<and>
         serialize (memory q2) (listsOf (localMangaCollection q2))
           = serialize (memory q1) (listsOf (localMangaCollection q1))"
proof -
  note r1 = sync_refines[OF assms(1-5)]
  note f1 = sync_frame[OF assms(5)]
  have ac1: "animeCollection q1 = Some ac" and mc1: "mangaCollection q1 = Some mc"
    using f1(2,3) assms(1,2) by simp_all
  have wfA: "wfCollection (memory q1) ac" and sA: "serialize (memory q1) (GetLists ac) = serialize (memory q) (GetLists ac)"
    using serialize_unchanged[OF f1(1) assms(3)] by simp_all
  have wfM: "wfCollection (memory q1) mc" and sM: "serialize (memory q1) (GetLists mc) = serialize (memory q) (GetLists mc)"
    using serialize_unchanged[OF f1(1) assms(4)] by simp_all
  have gA: "GetAnimeSnapshots env q1 = GetAnimeSnapshots env q" and gM: "GetMangaSnapshots env q1 = GetMangaSnapshots env q"
    using f1(6,7) by (simp_all add: GetAnimeSnapshots_def GetMangaSnapshots_def)
  have e: "SaveAnimeCollectionErr env = None" "SaveMangaCollectionErr env = None"
    using sync_success_env[OF assms(1,2,5)] by simp_all
  have aA: "absBuild env (trackedAnimeMap q1) (GetAnimeSnapshots env q1) (serialize (memory q1) (GetLists ac))
              = Some (serialize (memory q1) (listsOf (localAnimeCollection q1)))"
    unfolding gA sA f1(4) by (rule r1(1))
  have aM: "absBuild env (trackedMangaMap q1) (GetMangaSnapshots env q1) (serialize (memory q1) (GetLists mc))
              = Some (serialize (memory q1) (listsOf (localMangaCollection q1)))"
    unfolding gM sM f1(5) by (rule r1(2))
  note bs = build_sim[OF wfA wfM, of env]
  show ?thesis
  proof (cases "buildLocalCollections env ac mc q1")
    case (Inl x)
    then have "absBuild env (trackedAnimeMap q1) (GetAnimeSnapshots env q1) (serialize (memory q1) (GetLists ac)) = None \<or>
             absBuild env (trackedMangaMap q1) (GetMangaSnapshots env q1) (serialize (memory q1) (GetLists mc)) = None"
      using bs by simp
    then have False unfolding aA aM by simp
    then show ?thesis ..
  next
    case (Inr y)
    obtain la2 lm2 h2 where y: "y = (la2, lm2, h2)" by (cases y)
    have b2: "buildLocalCollections env ac mc q1 = Inr (la2, lm2, h2)" using Inr y by simp
    have s2: "saveLocalCollections env la2 lm2 (q1\<lparr>memory := h2\<rparr>) = (r, q2)"
      using sync_built[OF ac1 mc1 b2] assms(6) by simp
    have ok2: "fst (saveLocalCollections env la2 lm2 (q1\<lparr>memory := h2\<rparr>)) = None"
      using e by (rule save_ok)
    then have rn: "r = None" unfolding s2 by simp
    have "synchronizeCollections env q1 = (None, q2)" using assms(6) rn by simp
    note r2 = sync_refines[OF ac1 mc1 wfA wfM this]
    have eqA: "serialize (memory q2) (listsOf (localAnimeCollection q2))
                 = serialize (memory q1) (listsOf (localAnimeCollection q1))"
      using r2(1) unfolding aA by simp
    have eqM: "serialize (memory q2) (listsOf (localMangaCollection q2))
                 = serialize (memory q1) (listsOf (localMangaCollection q1))"
      using r2(2) unfolding aM by simp
    have dA: "dbAnimeCollection q2 = dbAnimeCollection q1" unfolding r2(3) r1(3) eqA ..
    have dM: "dbMangaCollection q2 = dbMangaCollection q1" unfolding r2(4) r1(4) eqM ..
    from rn dA dM eqA eqM show ?thesis by (intro conjI)
  qed
qed

text \<open>
  Claim C9.  Whatever the outcome of a pass, the Manager still holds the same remote
  collections, every object that was allocated before the pass is unchanged (the pass
  writes only to objects it allocated itself), and so every collection without dangling
  pointers, the two remote ones among them, serializes as before.
\<close>
theorem remote_collections_not_mutated:
  assumes "synchronizeCollections env q = (r, q')"
  shows "animeCollection q' = animeCollection q \<and> mangaCollection q' = mangaCollection q \<and>
         unchanged (memory q) (memory q') \<and>
         (\<forall>c. wfCollection (memory q) c \<longrightarrow>
               serialize (memory q') (GetLists c) = serialize (memory q) (GetLists c))"
proof (intro conjI allI impI)
  show "animeCollection q' = animeCollection q" by (rule sync_frame(2)[OF assms])
  show "mangaCollection q' = mangaCollection q" by (rule sync_frame(3)[OF assms])
  show "unchanged (memory q) (memory q')" by (rule sync_frame(1)[OF assms])
  fix c assume "wfCollection (memory q) c"
  then show "serialize (memory q') (GetLists c) = serialize (memory q) (GetLists c)"
    by (rule serialize_unchanged(1)[OF sync_frame(1)[OF assms]])
qed

text \<open>
  Claim C1, as amended.  The two collections are saved and published one after the
  other.  When the save of the anime collection fails, neither stored collection and
  neither published field changes.  When it succeeds and the save of the manga collection
  fails, the stored and the published manga collection keep their values, and the anime
  collection has been stored and published.
\<close>
theorem collections_saved_one_after_the_other:
  assumes "animeCollection q = Some ac" "mangaCollection q = Some mc"
    and "buildLocalCollections env ac mc q = Inr (la, lm, h)"
    and "synchronizeCollections env q = (r, q')"
  shows "(SaveAnimeCollectionErr env = Some err \<longrightarrow>
            r = Some err \<and>
            dbAnimeCollection q' = dbAnimeCollection q \<and> dbMangaCollection q' = dbMangaCollection q \<and>
            localAnimeCollection q' = localAnimeCollection q \<and> localMangaCollection q' = localMangaCollection q) \<and>
         (SaveAnimeCollectionErr env = None \<and> SaveMangaCollectionErr env = Some err \<longrightarrow>
            r = Some err \<and>
            dbMangaCollection q' = dbMangaCollection q \<and> localMangaCollection q' = localMangaCollection q \<and>
            dbAnimeCollection q' = Some (serialize h la) \<and>
            localAnimeCollection q' = Some \<lparr>MediaListCollection = Some la\<rparr>)"
proof -
  have s: "saveLocalCollections env la lm (q\<lparr>memory := h\<rparr>) = (r, q')"
    using sync_built[OF assms(1,2,3)] assms(4) by simp
  have a: "r = Some err \<and>
            dbAnimeCollection q' = dbAnimeCollection q \<and> dbMangaCollection q' = dbMangaCollection q \<and>
            localAnimeCollection q' = localAnimeCollection q \<and> localMangaCollection q' = localMangaCollection q"
    if "SaveAnimeCollectionErr env = Some err"
  proof -
    have "saveLocalCollections env la lm (q\<lparr>memory := h\<rparr>) = (Some err, q\<lparr>memory := h\<rparr>)"
      using that by (simp add: saveLocalCollections_def SaveAnimeCollection_def)
    then have "r = Some err" "q' = q\<lparr>memory := h\<rparr>" using s by simp_all
    then show ?thesis by simp
  qed
  have m: "r = Some err \<and>
            dbMangaCollection q' = dbMangaCollection q \<and> localMangaCollection q' = localMangaCollection q \<and>
            dbAnimeCollection q' = Some (serialize h la) \<and>
            localAnimeCollection q' = Some \<lparr>MediaListCollection = Some la\<rparr>"
    if "SaveAnimeCollectionErr env = None" "SaveMangaCollectionErr env = Some err"
  proof -
    have "saveLocalCollections env la lm (q\<lparr>memory := h\<rparr>) =
            (Some err, q\<lparr>memory := h, dbAnimeCollection := Some (serialize h la),
                        localAnimeCollection := Some \<lparr>MediaListCollection = Some la\<rparr>\<rparr>)"
      using that by (simp add: saveLocalCollections_def SaveAnimeCollection_def SaveMangaCollection_def Let_def)
    then have "r = Some err" "q' = q\<lparr>memory := h, dbAnimeCollection := Some (serialize h la),
                        localAnimeCollection := Some \<lparr>MediaListCollection = Some la\<rparr>\<rparr>"
      using s by simp_all
    then show ?thesis by simp
  qed
  show ?thesis using a m by blast
qed


subsection \<open>The claims on the example\<close>

lemma ex_collections:
  "animeCollection exSyncer = Some exAnimeCollection" "mangaCollection exSyncer = Some exMangaCollection"
  by (simp_all add: exSyncer_def exAnimeCollection_def exMangaCollection_def)

lemma ex_wf:
  "wfCollection (memory exSyncer) exAnimeCollection" "wfCollection (memory exSyncer) exMangaCollection"
  by (simp_all add: wfCollection_def ptrsOk_def GetLists_def exAnimeCollection_def exMangaCollection_def
      exSyncer_def exHeap_def exAnimeEntry_def exMangaEntry_def)

lemma ex_pass_ok: "synchronizeCollections exEnv exSyncer = (None, snd (synchronizeCollections exEnv exSyncer))"
proof -
  have "fst (synchronizeCollections exEnv exSyncer) = None"
    by (simp add: builder_defs ex_defs)
  then show ?thesis by (simp add: prod_eq_iff)
qed

lemma ex_remote_anime:
  "map header (filter (\<lambda>l. Status l \<noteq> None) (serialize (memory exSyncer) (GetLists exAnimeCollection)))
     = [(Some ''CURRENT'', Some ''Watching'', Some False)]"
  by (simp add: serialize_def resolveList_def header_def GetLists_def exAnimeCollection_def
      exSyncer_def exHeap_def)

lemma ex_remote_manga:
  "map header (filter (\<lambda>l. Status l \<noteq> None) (serialize (memory exSyncer) (GetLists exMangaCollection)))
     = [(Some ''CURRENT'', Some ''Reading'', Some False)]"
  by (simp add: serialize_def resolveList_def header_def GetLists_def exMangaCollection_def
      exSyncer_def exHeap_def)

theorem local_lists_are_remote_lists_with_status_witness:
  "map header (serialize (memory (snd (synchronizeCollections exEnv exSyncer)))
                 (listsOf (localAnimeCollection (snd (synchronizeCollections exEnv exSyncer)))))
     = [(Some ''CURRENT'', Some ''Watching'', Some False)] \<and>
   map header (serialize (memory (snd (synchronizeCollections exEnv exSyncer)))
                 (listsOf (localMangaCollection (snd (synchronizeCollections exEnv exSyncer)))))
     = [(Some ''CURRENT'', Some ''Reading'', Some False)]"
  using local_lists_are_remote_lists_with_status[OF ex_collections ex_wf ex_pass_ok refl refl]
  unfolding ex_remote_anime ex_remote_manga by blast

lemma ex_passing_anime:
  "length (filter (passes (trackedAnimeMap exSyncer) (GetAnimeSnapshots exEnv exSyncer))
     (concat (map Entries (filter (\<lambda>l. Status l \<noteq> None)
        (serialize (memory exSyncer) (GetLists exAnimeCollection)))))) = 1"
  by (simp add: serialize_def resolveList_def resolveEntry_def GetLists_def exAnimeCollection_def
      passes_def mediaIdOf_def GetAnimeSnapshots_def ex_defs)

lemma ex_passing_manga:
  "length (filter (passes (trackedMangaMap exSyncer) (GetMangaSnapshots exEnv exSyncer))
     (concat (map Entries (filter (\<lambda>l. Status l \<noteq> None)
        (serialize (memory exSyncer) (GetLists exMangaCollection)))))) = 1"
  by (simp add: serialize_def resolveList_def resolveEntry_def GetLists_def exMangaCollection_def
      passes_def mediaIdOf_def GetMangaSnapshots_def ex_defs)

theorem local_entries_tracked_snapshot_first_list_witness:
  "sum_list (map (\<lambda>l. length (Entries l))
      (serialize (memory (snd (synchronizeCollections exEnv exSyncer)))
         (listsOf (localAnimeCollection (snd (synchronizeCollections exEnv exSyncer)))))) = 1 \<and>
   sum_list (map (\<lambda>l. length (Entries l))
      (serialize (memory (snd (synchronizeCollections exEnv exSyncer)))
         (listsOf (localMangaCollection (snd (synchronizeCollections exEnv exSyncer)))))) = 1"
  using local_entries_tracked_snapshot_first_list[OF ex_collections ex_wf ex_pass_ok]
  unfolding mirrors_def ex_passing_anime ex_passing_manga by blast

theorem builder_idempotent_witness:
  "fst (synchronizeCollections exEnv (snd (synchronizeCollections exEnv exSyncer))) = None \<and>
   dbAnimeCollection (snd (synchronizeCollections exEnv (snd (synchronizeCollections exEnv exSyncer))))
     = dbAnimeCollection (snd (synchronizeCollections exEnv exSyncer)) \<and>
   dbMangaCollection (snd (synchronizeCollections exEnv (snd (synchronizeCollections exEnv exSyncer))))
     = dbMangaCollection (snd (synchronizeCollections exEnv exSyncer))"
  using builder_idempotent[OF ex_collections ex_wf ex_pass_ok surjective_pairing]
  by blast

theorem remote_collections_not_mutated_witness:
  "animeCollection (snd (synchronizeCollections exEnv exSyncer)) = Some exAnimeCollection \<and>
   mangaCollection (snd (synchronizeCollections exEnv exSyncer)) = Some exMangaCollection \<and>
   unchanged (memory exSyncer) (memory (snd (synchronizeCollections exEnv exSyncer))) \<and>
   serialize (memory (snd (synchronizeCollections exEnv exSyncer))) (GetLists exAnimeCollection)
     = serialize (memory exSyncer) (GetLists exAnimeCollection) \<and>
   serialize (memory (snd (synchronizeCollections exEnv exSyncer))) (GetLists exMangaCollection)
     = serialize (memory exSyncer) (GetLists exMangaCollection)"
  using remote_collections_not_mutated[OF ex_pass_ok] ex_wf ex_collections
  by simp

lemma ex_built:
  "\<exists>la lm h. buildLocalCollections env exAnimeCollection exMangaCollection exSyncer = Inr (la, lm, h)"
proof -
  have "\<exists>y. buildLocalCollections env exAnimeCollection exMangaCollection exSyncer = Inr y"
    by (simp add: builder_defs ex_defs exAnimeCollection_def exMangaCollection_def)
  then show ?thesis by auto
qed

theorem collections_saved_one_after_the_other_witness:
  "fst (synchronizeCollections exAnimeSaveFails exSyncer) = Some ''database is locked'' \<and>
   dbAnimeCollection (snd (synchronizeCollections exAnimeSaveFails exSyncer)) = None \<and>
   localAnimeCollection (snd (synchronizeCollections exAnimeSaveFails exSyncer)) = None \<and>
   dbMangaCollection (snd (synchronizeCollections exAnimeSaveFails exSyncer)) = None \<and>
   localMangaCollection (snd (synchronizeCollections exAnimeSaveFails exSyncer)) = None \<and>
   fst (synchronizeCollections exMangaSaveFails exSyncer) = Some ''disk full'' \<and>
   dbMangaCollection (snd (synchronizeCollections exMangaSaveFails exSyncer)) = None \<and>
   localMangaCollection (snd (synchronizeCollections exMangaSaveFails exSyncer)) = None \<and>
   dbAnimeCollection (snd (synchronizeCollections exMangaSaveFails exSyncer)) \<noteq> None \<and>
   localAnimeCollection (snd (synchronizeCollections exMangaSaveFails exSyncer)) \<noteq> None"
proof -
  obtain la lm h where b1: "buildLocalCollections exAnimeSaveFails exAnimeCollection exMangaCollection exSyncer = Inr (la, lm, h)"
    using ex_built by blast
  obtain la' lm' h' where b2: "buildLocalCollections exMangaSaveFails exAnimeCollection exMangaCollection exSyncer = Inr (la', lm', h')"
    using ex_built by blast
  have e1: "SaveAnimeCollectionErr exAnimeSaveFails = Some ''database is locked''"
    by (simp add: exAnimeSaveFails_def)
  have e2: "SaveAnimeCollectionErr exMangaSaveFails = None" "SaveMangaCollectionErr exMangaSaveFails = Some ''disk full''"
    by (simp_all add: exMangaSaveFails_def exEnv_def)
  have n: "dbAnimeCollection exSyncer = None" "dbMangaCollection exSyncer = None"
    "localAnimeCollection exSyncer = None" "localMangaCollection exSyncer = None"
    by (simp_all add: exSyncer_def)
  note t1 = collections_saved_one_after_the_other[OF ex_collections b1 surjective_pairing,
      where err = "''database is locked''"]
  note t2 = collections_saved_one_after_the_other[OF ex_collections b2 surjective_pairing,
      where err = "''disk full''"]
  from t1 e1 have a: "fst (synchronizeCollections exAnimeSaveFails exSyncer) = Some ''database is locked''"
    "dbAnimeCollection (snd (synchronizeCollections exAnimeSaveFails exSyncer)) = dbAnimeCollection exSyncer"
    "localAnimeCollection (snd (synchronizeCollections exAnimeSaveFails exSyncer)) = localAnimeCollection exSyncer"
    "dbMangaCollection (snd (synchronizeCollections exAnimeSaveFails exSyncer)) = dbMangaCollection exSyncer"
    "localMangaCollection (snd (synchronizeCollections exAnimeSaveFails exSyncer)) = localMangaCollection exSyncer"
    by blast+
  from t2 e2 have m: "fst (synchronizeCollections exMangaSaveFails exSyncer) = Some ''disk full''"
    "dbMangaCollection (snd (synchronizeCollections exMangaSaveFails exSyncer)) = dbMangaCollection exSyncer"
    "localMangaCollection (snd (synchronizeCollections exMangaSaveFails exSyncer)) = localMangaCollection exSyncer"
    "dbAnimeCollection (snd (synchronizeCollections exMangaSaveFails exSyncer)) = Some (serialize h' la')"
    "localAnimeCollection (snd (synchronizeCollections exMangaSaveFails exSyncer)) = Some \<lparr>MediaListCollection = Some la'\<rparr>"
    by blast+
  show ?thesis unfolding a m n by simp
qed

text \<open>
  The claim C1 as stated fails: when the save of the manga collection fails, the anime
  collection of this pass is already stored and published.
\<close>

theorem manga_save_failure_counterexample:
  "SaveMangaCollectionErr exMangaSaveFails = Some ''disk full'' \<and>
   fst (synchronizeCollections exMangaSaveFails exSyncer) = Some ''disk full'' \<and>
   localAnimeCollection exSyncer = None \<and>
   localAnimeCollection (snd (synchronizeCollections exMangaSaveFails exSyncer))
     = Some \<lparr>MediaListCollection = Some [3]\<rparr> \<and>
   dbAnimeCollection exSyncer = None \<and>
   map_option (map header) (dbAnimeCollection (snd (synchronizeCollections exMangaSaveFails exSyncer)))
     = Some [(Some ''CURRENT'', Some ''Watching'', Some False)]"
  by (simp add: builder_defs ex_defs exMangaSaveFails_def serialize_def resolveList_def header_def)

section \<open>The two workers and the check after each job\<close>

subsection \<open>Fields the routines never touch\<close>

lemma sync_collections_fields [simp]:
  "shouldUpdateLocalCollections (snd (synchronizeCollections env q)) = shouldUpdateLocalCollections q"
  "doneUpdatingLocalCollections (snd (synchronizeCollections env q)) = doneUpdatingLocalCollections q"
  "animeJobQueue (snd (synchronizeCollections env q)) = animeJobQueue q"
  "mangaJobQueue (snd (synchronizeCollections env q)) = mangaJobQueue q"
  "logger (snd (synchronizeCollections env q)) = logger q"
  using sync_frame[OF surjective_pairing, where env = env and q = q] by simp_all

lemma synchronizeAnime_flags [simp]:
  "shouldUpdateLocalCollections (synchronizeAnime env d q) = shouldUpdateLocalCollections q"
  "doneUpdatingLocalCollections (synchronizeAnime env d q) = doneUpdatingLocalCollections q"
  by (auto simp: synchronizeAnime_def syncMissingAnime_def syncStaleAnime_def Let_def
      removeAnime_def SaveAnimeSnapshot_def logMsg_def sendAnimeToFailedQueue_def
      split: option.splits sum.splits)

lemma synchronizeManga_flags [simp]:
  "shouldUpdateLocalCollections (synchronizeManga env d q) = shouldUpdateLocalCollections q"
  "doneUpdatingLocalCollections (synchronizeManga env d q) = doneUpdatingLocalCollections q"
  by (auto simp: synchronizeManga_def syncMissingManga_def syncStaleManga_def Let_def
      removeManga_def SaveMangaSnapshot_def logMsg_def sendMangaToFailedQueue_def
      split: option.splits sum.splits)

lemma synchronizeAnime_queue_fields [simp]:
  "animeJobQueue (synchronizeAnime env d q) = animeJobQueue q"
  "mangaJobQueue (synchronizeAnime env d q) = mangaJobQueue q"
  using synchronizeAnime_queues[of env d q] by simp_all

lemma synchronizeManga_queue_fields [simp]:
  "animeJobQueue (synchronizeManga env d q) = animeJobQueue q"
  "mangaJobQueue (synchronizeManga env d q) = mangaJobQueue q"
  using synchronizeManga_queues[of env d q] by simp_all

subsection \<open>The check\<close>

lemma updateLocalCollections_fields [simp]:
  "shouldUpdateLocalCollections (updateLocalCollections env q) = False"
  "doneUpdatingLocalCollections (updateLocalCollections env q) = doneUpdatingLocalCollections q"
  "animeJobQueue (updateLocalCollections env q) = animeJobQueue q"
  "mangaJobQueue (updateLocalCollections env q) = mangaJobQueue q"
proof -
  obtain err q1 where p: "synchronizeCollections env q = (err, q1)"
    by (cases "synchronizeCollections env q")
  have q1: "q1 = snd (synchronizeCollections env q)" using p by simp
  have f: "doneUpdatingLocalCollections q1 = doneUpdatingLocalCollections q"
    "animeJobQueue q1 = animeJobQueue q" "mangaJobQueue q1 = mangaJobQueue q"
    unfolding q1 by simp_all
  show "shouldUpdateLocalCollections (updateLocalCollections env q) = False"
    "doneUpdatingLocalCollections (updateLocalCollections env q) = doneUpdatingLocalCollections q"
    "animeJobQueue (updateLocalCollections env q) = animeJobQueue q"
    "mangaJobQueue (updateLocalCollections env q) = mangaJobQueue q"
    unfolding updateLocalCollections_def p using f
    by (cases err; simp add: logMsg_def)+
qed

lemma checkLocked_fst:
  "fst (checkLocked env q) \<longleftrightarrow>
     shouldUpdateLocalCollections q \<and> animeJobQueue q = [] \<and> mangaJobQueue q = []"
  by (simp add: checkLocked_def)

lemma checkLocked_skip:
  "\<not> (shouldUpdateLocalCollections q \<and> animeJobQueue q = [] \<and> mangaJobQueue q = []) \<Longrightarrow>
     checkLocked env q = (False, q)"
  by (auto simp: checkLocked_def)

lemma checkLocked_pass:
  "shouldUpdateLocalCollections q \<Longrightarrow> animeJobQueue q = [] \<Longrightarrow> mangaJobQueue q = [] \<Longrightarrow>
     checkLocked env q = (True, updateLocalCollections env q)"
  by (simp add: checkLocked_def)

text \<open>
  Claim C10.  When the check finds the flag set and both queues empty, the builder pass
  it runs returns an error, and the signal channel has room, the check completes: the
  flag is cleared, one signal is in the channel, and the only trace of the error is one
  line of the log.  A check of the resulting state, whatever the environment, runs no
  pass and changes nothing; once the flag is set again, the check runs a pass.
\<close>
theorem builder_error_clears_flag_and_signals:
  assumes "shouldUpdateLocalCollections q" "animeJobQueue q = []" "mangaJobQueue q = []"
    and "doneUpdatingLocalCollections q = 0"
    and "synchronizeCollections env q = (Some err, q1)"
    and "q' = q1\<lparr>logger := logger q1 @ [(ErrorLevel, ''sync: Failed to synchronize collections'')],
                  shouldUpdateLocalCollections := False,
                  doneUpdatingLocalCollections := 1\<rparr>"
  shows "checkAndUpdateLocalCollections env q = Some q' \<and>
         \<not> shouldUpdateLocalCollections q' \<and>
         doneUpdatingLocalCollections q' = doneUpdatingLocalCollections q + 1 \<and>
         logger q' = logger q @ [(ErrorLevel, ''sync: Failed to synchronize collections'')] \<and>
         (\<forall>env'. \<not> fst (checkLocked env' q') \<and> snd (checkLocked env' q') = q') \<and>
         (\<forall>env'. fst (checkLocked env' (q'\<lparr>shouldUpdateLocalCollections := True\<rparr>)))"
proof -
  have f: "fst (synchronizeCollections env q) = Some err" "snd (synchronizeCollections env q) = q1"
    using assms(5) by simp_all
  have d1: "doneUpdatingLocalCollections q1 = 0" and l1: "logger q1 = logger q"
    and a1: "animeJobQueue q1 = []" and m1: "mangaJobQueue q1 = []"
    using sync_collections_fields[of env q] assms(2,3,4) unfolding f(2) by simp_all
  have c: "checkLocked env q = (True, (logMsg ErrorLevel ''sync: Failed to synchronize collections'' q1)
                                   \<lparr>shouldUpdateLocalCollections := False\<rparr>)"
    unfolding checkLocked_pass[OF assms(1,2,3)] updateLocalCollections_def assms(5) by simp
  have r: "checkAndUpdateLocalCollections env q = Some q'"
    unfolding checkAndUpdateLocalCollections_def c assms(6)
    by (simp add: sendDone_def logMsg_def d1)
  have nf: "\<not> shouldUpdateLocalCollections q'" by (simp add: assms(6))
  have dn: "doneUpdatingLocalCollections q' = doneUpdatingLocalCollections q + 1"
    by (simp add: assms(6) assms(4))
  have lg: "logger q' = logger q @ [(ErrorLevel, ''sync: Failed to synchronize collections'')]"
    by (simp add: assms(6) l1)
  have again: "\<forall>env'. \<not> fst (checkLocked env' q') \<and> snd (checkLocked env' q') = q'"
    using nf by (simp add: checkLocked_skip)
  have later: "\<forall>env'. fst (checkLocked env' (q'\<lparr>shouldUpdateLocalCollections := True\<rparr>))"
    by (simp add: checkLocked_fst assms(6) a1 m1)
  from r nf dn lg again later show ?thesis by (intro conjI)
qed

theorem builder_error_clears_flag_and_signals_witness:
  "map_option shouldUpdateLocalCollections (checkAndUpdateLocalCollections exAnimeSaveFails exPending) = Some False \<and>
   map_option doneUpdatingLocalCollections (checkAndUpdateLocalCollections exAnimeSaveFails exPending) = Some 1 \<and>
   map_option logger (checkAndUpdateLocalCollections exAnimeSaveFails exPending)
     = Some [(ErrorLevel, ''sync: Failed to synchronize collections'')] \<and>
   fst (synchronizeCollections exAnimeSaveFails exPending) = Some ''database is locked''"
proof -
  have e: "fst (synchronizeCollections exAnimeSaveFails exPending) = Some ''database is locked''"
    by (simp add: builder_defs ex_defs exPending_def exAnimeSaveFails_def)
  then have p: "synchronizeCollections exAnimeSaveFails exPending
                  = (Some ''database is locked'', snd (synchronizeCollections exAnimeSaveFails exPending))"
    by (simp add: prod_eq_iff)
  have h: "shouldUpdateLocalCollections exPending" "animeJobQueue exPending = []"
    "mangaJobQueue exPending = []" "doneUpdatingLocalCollections exPending = 0"
    "logger exPending = []"
    by (simp_all add: exPending_def exSyncer_def)
  note t = builder_error_clears_flag_and_signals[OF h(1,2,3,4) p refl]
  from t have "checkAndUpdateLocalCollections exAnimeSaveFails exPending
     = Some ((snd (synchronizeCollections exAnimeSaveFails exPending))
        \<lparr>logger := logger (snd (synchronizeCollections exAnimeSaveFails exPending)) @
                     [(ErrorLevel, ''sync: Failed to synchronize collections'')],
         shouldUpdateLocalCollections := False, doneUpdatingLocalCollections := 1\<rparr>)"
    by blast
  then show ?thesis using e by (simp add: h)
qed

subsection \<open>Iterations that do not overlap\<close>

text \<open>
  When no job arrives in the meantime and the iterations of the two workers follow one
  another, every iteration but the last leaves the flag set and runs no pass, and the
  check of the last iteration runs the pass.
\<close>

lemmas move_defs = iteration_def step_def animeMove_def mangaMove_def checkLocked_def sendDone_def
  pcWaiting_def

lemma iteration_anime_more:
  assumes "animePc s = Waiting" "mangaPc s = Waiting" "animeJobQueue (syncer s) = j # rest"
    and "\<not> (rest = [] \<and> mangaJobQueue (syncer s) = [])"
  shows "case iteration env AnimeWorker s of
           None \<Rightarrow> False
         | Some s' \<Rightarrow>
             animePc s' = Waiting \<and> mangaPc s' = Waiting \<and>
             animeJobQueue (syncer s') = rest \<and> mangaJobQueue (syncer s') = mangaJobQueue (syncer s) \<and>
             doneUpdatingLocalCollections (syncer s') = doneUpdatingLocalCollections (syncer s) \<and>
             builderPasses s' = builderPasses s \<and> drains s' = drains s"
  using assms by (auto simp: move_defs)

lemma iteration_anime_last:
  assumes "animePc s = Waiting" "mangaPc s = Waiting" "animeJobQueue (syncer s) = [j]"
    and "mangaJobQueue (syncer s) = []" "doneUpdatingLocalCollections (syncer s) = 0"
  shows "case iteration env AnimeWorker s of
           None \<Rightarrow> False
         | Some s' \<Rightarrow>
             quiescent s' \<and> builderPasses s' = builderPasses s + 1 \<and> drains s' = drains s + 1 \<and>
             \<not> shouldUpdateLocalCollections (syncer s') \<and>
             doneUpdatingLocalCollections (syncer s') = 1"
  using assms by (simp add: move_defs quiescent_def)

lemma iteration_manga_more:
  assumes "animePc s = Waiting" "mangaPc s = Waiting" "mangaJobQueue (syncer s) = j # rest"
    and "\<not> (rest = [] \<and> animeJobQueue (syncer s) = [])"
  shows "case iteration env MangaWorker s of
           None \<Rightarrow> False
         | Some s' \<Rightarrow>
             animePc s' = Waiting \<and> mangaPc s' = Waiting \<and>
             mangaJobQueue (syncer s') = rest \<and> animeJobQueue (syncer s') = animeJobQueue (syncer s) \<and>
             doneUpdatingLocalCollections (syncer s') = doneUpdatingLocalCollections (syncer s) \<and>
             builderPasses s' = builderPasses s \<and> drains s' = drains s"
  using assms by (auto simp: move_defs)

lemma iteration_manga_last:
  assumes "animePc s = Waiting" "mangaPc s = Waiting" "mangaJobQueue (syncer s) = [j]"
    and "animeJobQueue (syncer s) = []" "doneUpdatingLocalCollections (syncer s) = 0"
  shows "case iteration env MangaWorker s of
           None \<Rightarrow> False
         | Some s' \<Rightarrow>
             quiescent s' \<and> builderPasses s' = builderPasses s + 1 \<and> drains s' = drains s + 1 \<and>
             \<not> shouldUpdateLocalCollections (syncer s') \<and>
             doneUpdatingLocalCollections (syncer s') = 1"
  using assms by (simp add: move_defs quiescent_def)


lemma no_workers_nil:
  assumes "filter (\<lambda>w. w = AnimeWorker) ws = []" "filter (\<lambda>w. w = MangaWorker) ws = []"
  shows "ws = []"
proof (cases ws)
  case Nil
  then show ?thesis .
next
  case (Cons w rest)
  then show ?thesis using assms by (cases w) simp_all
qed

lemma iterations_drain:
  "animePc s = Waiting \<Longrightarrow> mangaPc s = Waiting \<Longrightarrow>
   doneUpdatingLocalCollections (syncer s) = 0 \<Longrightarrow>
   length (filter (\<lambda>w. w = AnimeWorker) ws) = length (animeJobQueue (syncer s)) \<Longrightarrow>
   length (filter (\<lambda>w. w = MangaWorker) ws) = length (mangaJobQueue (syncer s)) \<Longrightarrow>
   ws \<noteq> [] \<Longrightarrow>
   (case iterations env ws s of
      None \<Rightarrow> False
    | Some s' \<Rightarrow>
        quiescent s' \<and> builderPasses s' = builderPasses s + 1 \<and> drains s' = drains s + 1 \<and>
        \<not> shouldUpdateLocalCollections (syncer s') \<and>
        doneUpdatingLocalCollections (syncer s') = 1)"
proof (induction ws arbitrary: s)
  case Nil
  then show ?case by simp
next
  case (Cons w ws)
  show ?case
  proof (cases w)
    case AnimeWorker
    have la: "length (animeJobQueue (syncer s)) = Suc (length (filter (\<lambda>w. w = AnimeWorker) ws))"
      and lm: "length (mangaJobQueue (syncer s)) = length (filter (\<lambda>w. w = MangaWorker) ws)"
      using Cons.prems(4,5) AnimeWorker by simp_all
    from la obtain j rest where q: "animeJobQueue (syncer s) = j # rest"
      and lr: "length rest = length (filter (\<lambda>w. w = AnimeWorker) ws)"
      by (cases "animeJobQueue (syncer s)") auto
    show ?thesis
    proof (cases "rest = [] \<and> mangaJobQueue (syncer s) = []")
      case True
      then have "filter (\<lambda>w. w = AnimeWorker) ws = []" "filter (\<lambda>w. w = MangaWorker) ws = []"
        using lr lm by simp_all
      then have ws: "ws = []" by (rule no_workers_nil)
      have q1: "animeJobQueue (syncer s) = [j]" using q True by simp
      note it = iteration_anime_last[OF Cons.prems(1,2) q1 _ Cons.prems(3), of env]
      show ?thesis
      proof (cases "iteration env AnimeWorker s")
        case None
        then show ?thesis using it True by simp
      next
        case (Some s1)
        then show ?thesis using it True by (simp add: ws AnimeWorker)
      qed
    next
      case False
      note it = iteration_anime_more[OF Cons.prems(1,2) q False, of env]
      have wsn: "ws \<noteq> []"
      proof
        assume "ws = []"
        then show False using lr lm False by simp
      qed
      show ?thesis
      proof (cases "iteration env AnimeWorker s")
        case None
        then show ?thesis using it by simp
      next
        case (Some s1)
        then have s1: "animePc s1 = Waiting" "mangaPc s1 = Waiting"
          "animeJobQueue (syncer s1) = rest" "mangaJobQueue (syncer s1) = mangaJobQueue (syncer s)"
          "doneUpdatingLocalCollections (syncer s1) = doneUpdatingLocalCollections (syncer s)"
          "builderPasses s1 = builderPasses s" "drains s1 = drains s"
          using it by simp_all
        have d1: "doneUpdatingLocalCollections (syncer s1) = 0" using s1(5) Cons.prems(3) by simp
        have c1: "length (filter (\<lambda>w. w = AnimeWorker) ws) = length (animeJobQueue (syncer s1))"
          using lr s1(3) by simp
        have c2: "length (filter (\<lambda>w. w = MangaWorker) ws) = length (mangaJobQueue (syncer s1))"
          using lm s1(4) by simp
        from Cons.IH[OF s1(1,2) d1 c1 c2 wsn] show ?thesis
          using Some s1(6,7) by (cases "iterations env ws s1") (simp_all add: AnimeWorker)
      qed
    qed
  next
    case MangaWorker
    have lm: "length (mangaJobQueue (syncer s)) = Suc (length (filter (\<lambda>w. w = MangaWorker) ws))"
      and la: "length (animeJobQueue (syncer s)) = length (filter (\<lambda>w. w = AnimeWorker) ws)"
      using Cons.prems(4,5) MangaWorker by simp_all
    from lm obtain j rest where q: "mangaJobQueue (syncer s) = j # rest"
      and lr: "length rest = length (filter (\<lambda>w. w = MangaWorker) ws)"
      by (cases "mangaJobQueue (syncer s)") auto
    show ?thesis
    proof (cases "rest = [] \<and> animeJobQueue (syncer s) = []")
      case True
      then have "filter (\<lambda>w. w = AnimeWorker) ws = []" "filter (\<lambda>w. w = MangaWorker) ws = []"
        using lr la by simp_all
      then have ws: "ws = []" by (rule no_workers_nil)
      have q1: "mangaJobQueue (syncer s) = [j]" using q True by simp
      note it = iteration_manga_last[OF Cons.prems(1,2) q1 _ Cons.prems(3), of env]
      show ?thesis
      proof (cases "iteration env MangaWorker s")
        case None
        then show ?thesis using it True by simp
      next
        case (Some s1)
        then show ?thesis using it True by (simp add: ws MangaWorker)
      qed
    next
      case False
      note it = iteration_manga_more[OF Cons.prems(1,2) q False, of env]
      have wsn: "ws \<noteq> []"
      proof
        assume "ws = []"
        then show False using lr la False by simp
      qed
      show ?thesis
      proof (cases "iteration env MangaWorker s")
        case None
        then show ?thesis using it by simp
      next
        case (Some s1)
        then have s1: "animePc s1 = Waiting" "mangaPc s1 = Waiting"
          "mangaJobQueue (syncer s1) = rest" "animeJobQueue (syncer s1) = animeJobQueue (syncer s)"
          "doneUpdatingLocalCollections (syncer s1) = doneUpdatingLocalCollections (syncer s)"
          "builderPasses s1 = builderPasses s" "drains s1 = drains s"
          using it by simp_all
        have d1: "doneUpdatingLocalCollections (syncer s1) = 0" using s1(5) Cons.prems(3) by simp
        have c1: "length (filter (\<lambda>w. w = AnimeWorker) ws) = length (animeJobQueue (syncer s1))"
          using la s1(4) by simp
        have c2: "length (filter (\<lambda>w. w = MangaWorker) ws) = length (mangaJobQueue (syncer s1))"
          using lr s1(3) by simp
        from Cons.IH[OF s1(1,2) d1 c1 c2 wsn] show ?thesis
          using Some s1(6,7) by (cases "iterations env ws s1") (simp_all add: MangaWorker)
      qed
    qed
  qed
qed

subsection \<open>Iterations that overlap\<close>

lemmas cycle_defs = exIdle_def exFresh_def exAnimeJob_def exMangaJob_def
  step_def animeMove_def mangaMove_def enqueueAnime_def enqueueManga_def
  checkLocked_def sendDone_def updateLocalCollections_def
  builder_defs ex_defs outcome_def quiescent_def
  synchronizeAnime_def synchronizeManga_def syncMissingAnime_def syncStaleManga_def
  foundLocalFiles_def SaveAnimeSnapshot_def SaveMangaSnapshot_def putSnapshot_def
  newAnimeSnapshot_def refreshedMangaSnapshot_def logMsg_def findListEntry_def
  serialize_def resolveList_def resolveEntry_def newEntry_def

text \<open>
  Claim C2 (every drain-to-empty of the two queues triggers exactly one builder pass)
  does not hold of the workers as they are written.  The check looks at the lengths of
  the two queues and at the flag; a job that a worker has received and not yet handled is
  in neither queue, and the flag it set can be cleared by the check of the other worker.
  One cycle on a fresh install, with a job for anime 101 (snapshot missing) and a job for
  manga 7, under three schedules:

  \<^item> in order, the queues drain once, one pass runs after both jobs, and the stored local
    anime collection has the entry of anime 101;

  \<^item> when the manga worker overtakes the anime worker, the queues drain once and the one
    pass runs before the snapshot of anime 101 is stored: at rest the snapshot is stored,
    the list of the stored local anime collection is empty, and the flag is clear, so no
    pass is pending, although \<^verbatim>\<open>synchronizeCollections\<close> "should be called after the
    tracked anime & manga snapshots have been updated";

  \<^item> when both workers hold a job, the queues drain once and two passes run: two signals
    are sent (one is taken during the run, one waits in the channel) and the passes
    allocate four list objects instead of two.
\<close>
theorem rebuild_lost_when_iterations_overlap:
  "map_option outcome (run exEnv exInOrder exIdle) = Some (True, False, [101], Some [[1]], 5, 1, 1, 1) \<and>
   map_option outcome (run exEnv exOvertaken exIdle) = Some (True, False, [101], Some [[]], 5, 1, 1, 1) \<and>
   map_option outcome (run exEnv exBothInFlight exIdle) = Some (True, False, [101], Some [[1]], 7, 1, 1, 2)"
proof (intro conjI)
  show "map_option outcome (run exEnv exInOrder exIdle) = Some (True, False, [101], Some [[1]], 5, 1, 1, 1)"
    by (simp add: exInOrder_def cycle_defs)
  show "map_option outcome (run exEnv exOvertaken exIdle) = Some (True, False, [101], Some [[]], 5, 1, 1, 1)"
    by (simp add: exOvertaken_def cycle_defs)
  show "map_option outcome (run exEnv exBothInFlight exIdle) = Some (True, False, [101], Some [[1]], 7, 1, 1, 2)"
    by (simp add: exBothInFlight_def cycle_defs)
qed

end
